theory Spec2Isabelle
  imports Main "HOL-Library.Sublist"
begin

section \<open>The MVP Builder plugin: a shallow embedding\<close>

text \<open>
  The repository holds an OpenCode plugin that drives a stateless agent through a
  workflow. Three variants of the plugin are in the sources: the phase workflow of
  \<^verbatim>\<open>plugin/mvp-builder.ts\<close>, an older phase workflow and the story queue (both in the
  unnamed part 004). Each source function becomes a HOL function of the same name.

  Conventions of the embedding:
  \<^item> A JavaScript string is a \<^typ>\<open>string\<close>: one \<^typ>\<open>char\<close> per UTF-16 code unit below 256.
    The character classes of the regular expressions (\<^verbatim>\<open>\s\<close>, \<^verbatim>\<open>.\<close>, \<^verbatim>\<open>\d\<close>) and of
    \<^verbatim>\<open>trim\<close> are JavaScript's, cut to this range.
  \<^item> A JavaScript number that the code only parses, compares, increments and prints is
    an integer or \<^verbatim>\<open>NaN\<close> (exact for integers below \<open>2 ^ 53\<close>).
  \<^item> \<^verbatim>\<open>null\<close> and \<^verbatim>\<open>undefined\<close> are \<^const>\<open>None\<close>; an exception is a value of the result type.
\<close>

subsection \<open>JavaScript strings and numbers\<close>

definition is_line_terminator :: "char \<Rightarrow> bool" where
  \<comment> \<open>what \<^verbatim>\<open>.\<close> does not match and where \<^verbatim>\<open>^\<close> and \<^verbatim>\<open>$\<close> anchor under the flag m: LF, CR\<close>
  "is_line_terminator c \<longleftrightarrow> c = CHR 0x0A \<or> c = CHR 0x0D"

definition is_space :: "char \<Rightarrow> bool" where
  \<comment> \<open>\<^verbatim>\<open>\s\<close> and the characters \<^verbatim>\<open>trim\<close> strips: TAB, LF, VT, FF, CR, SP, NBSP\<close>
  "is_space c \<longleftrightarrow>
     c \<in> set [CHR 0x09, CHR 0x0A, CHR 0x0B, CHR 0x0C, CHR 0x0D, CHR 0x20, CHR 0xA0]"

definition is_digit :: "char \<Rightarrow> bool" where
  "is_digit c \<longleftrightarrow> c \<in> set ''0123456789''"

definition is_quote :: "char \<Rightarrow> bool" where
  "is_quote c \<longleftrightarrow> c = CHR 0x22 \<or> c = CHR 0x27"

definition trim :: "string \<Rightarrow> string" where
  "trim s = rev (dropWhile is_space (rev (dropWhile is_space s)))"

definition strip_prefix :: "string \<Rightarrow> string \<Rightarrow> string option" where
  "strip_prefix p s = (if prefix p s then Some (drop (length p) s) else None)"

text \<open>\<^verbatim>\<open>s.split(",")\<close>: the pieces between the separators; the empty string gives one empty piece.\<close>

fun split_on :: "char \<Rightarrow> string \<Rightarrow> string list" where
  "split_on d [] = [[]]"
| "split_on d (c # cs) =
     (if c = d then [] # split_on d cs
      else (case split_on d cs of [] \<Rightarrow> [[c]] | w # ws \<Rightarrow> (c # w) # ws))"

text \<open>\<^verbatim>\<open>xs.join(sep)\<close>.\<close>

fun join_with :: "string \<Rightarrow> string list \<Rightarrow> string" where
  "join_with sep [] = []"
| "join_with sep [x] = x"
| "join_with sep (x # y # ys) = x @ sep @ join_with sep (y # ys)"

text \<open>\<^verbatim>\<open>a || b\<close> on a string that may be \<^verbatim>\<open>null\<close>: the empty string is falsy too.\<close>

definition or_else :: "string option \<Rightarrow> string \<Rightarrow> string" where
  "or_else v d = (case v of None \<Rightarrow> d | Some s \<Rightarrow> if s = [] then d else s)"

datatype number = NaN | Num int

definition digit_char :: "nat \<Rightarrow> char" where
  "digit_char n = ''0123456789'' ! n"

definition digit_val :: "char \<Rightarrow> nat" where
  "digit_val c = of_char c - 48"

fun show_nat :: "nat \<Rightarrow> string" where
  "show_nat n = (if n < 10 then [digit_char n] else show_nat (n div 10) @ [digit_char (n mod 10)])"

declare show_nat.simps [simp del]

definition show_int :: "int \<Rightarrow> string" where
  "show_int i = (if i < 0 then CHR ''-'' # show_nat (nat (- i)) else show_nat (nat i))"

text \<open>A number inside a template literal.\<close>

fun show_number :: "number \<Rightarrow> string" where
  "show_number NaN = ''NaN''"
| "show_number (Num i) = show_int i"

definition digits_val :: "string \<Rightarrow> nat" where
  "digits_val ds = foldl (\<lambda>a c. 10 * a + digit_val c) 0 ds"

text \<open>
  \<^verbatim>\<open>parseInt(s, 10)\<close>: leading white space is skipped, one sign is read, then the longest
  run of digits; no digit gives \<^verbatim>\<open>NaN\<close>.
\<close>

definition parseInt :: "string \<Rightarrow> number" where
  "parseInt s =
     (let t = dropWhile is_space s;
          neg = (t \<noteq> [] \<and> hd t = CHR ''-'');
          u = (if t \<noteq> [] \<and> (hd t = CHR ''-'' \<or> hd t = CHR ''+'') then tl t else t);
          ds = takeWhile is_digit u
      in if ds = [] then NaN
         else Num ((if neg then - 1 else 1) * int (digits_val ds)))"

fun num_ge :: "number \<Rightarrow> number \<Rightarrow> bool" where
  \<comment> \<open>\<^verbatim>\<open>a >= b\<close>: false when either side is \<^verbatim>\<open>NaN\<close>\<close>
  "num_ge (Num a) (Num b) = (b \<le> a)"
| "num_ge _ _ = False"

fun num_lt :: "number \<Rightarrow> number \<Rightarrow> bool" where
  "num_lt (Num a) (Num b) = (a < b)"
| "num_lt _ _ = False"

fun num_succ :: "number \<Rightarrow> number" where
  \<comment> \<open>\<^verbatim>\<open>n + 1\<close> and \<^verbatim>\<open>n++\<close>\<close>
  "num_succ (Num a) = Num (a + 1)"
| "num_succ NaN = NaN"

text \<open>\<^verbatim>\<open>xs[n]\<close>: \<^verbatim>\<open>undefined\<close> unless \<open>n\<close> is an index of the array.\<close>

fun index_opt :: "'a list \<Rightarrow> number \<Rightarrow> 'a option" where
  "index_opt xs (Num i) = (if 0 \<le> i \<and> i < int (length xs) then Some (xs ! nat i) else None)"
| "index_opt xs NaN = None"

subsection \<open>JSON.stringify on an array of strings\<close>

definition hex_digit :: "nat \<Rightarrow> char" where
  "hex_digit n = ''0123456789abcdef'' ! n"

definition json_escape :: "char \<Rightarrow> string" where
  "json_escape c =
     (if c = CHR 0x22 then [CHR 0x5C, CHR 0x22]
      else if c = CHR 0x5C then [CHR 0x5C, CHR 0x5C]
      else if c = CHR 0x08 then [CHR 0x5C, CHR ''b'']
      else if c = CHR 0x0C then [CHR 0x5C, CHR ''f'']
      else if c = CHR 0x0A then [CHR 0x5C, CHR ''n'']
      else if c = CHR 0x0D then [CHR 0x5C, CHR ''r'']
      else if c = CHR 0x09 then [CHR 0x5C, CHR ''t'']
      else if (of_char c :: nat) < 32
        then [CHR 0x5C, CHR ''u'', CHR ''0'', CHR ''0'',
              hex_digit (of_char c div 16), hex_digit (of_char c mod 16)]
      else [c])"

definition json_quote :: "string \<Rightarrow> string" where
  "json_quote s = CHR 0x22 # concat (map json_escape s) @ [CHR 0x22]"

definition JSON_stringify :: "string list \<Rightarrow> string" where
  "JSON_stringify xs = ''['' @ join_with '','' (map json_quote xs) @ '']''"

subsection \<open>The workflow record (plugin/mvp-builder.ts)\<close>

datatype status = pending | in_progress | completed | skipped

record PromptInfo =
  filename :: string
  title :: string
  status :: status

text \<open>
  \<open>phase\<close> is a string at run time: \<^verbatim>\<open>parseState\<close> casts whatever the file holds, and the
  event handler has a default branch for a phase it does not know.
\<close>

record MVPBuilderState =
  active :: bool
  phase :: string
  currentPromptIndex :: number
  totalPrompts :: number
  promptSequence :: "PromptInfo list"
  startedAt :: string
  lastCommit :: "string option"
  instructionsPath :: string
  referenceDocs :: "string list"
  maxIterations :: number
  currentIteration :: number

definition STATE_FILE :: string where
  "STATE_FILE = ''mvp-builder.local.md''"

subsection \<open>The collaborators: file system, git, clock, library functions\<close>

text \<open>
  A path names nothing, a readable file or a directory. The version-control state is
  abstract (\<open>'g\<close>): what the git commands do to it and print is a parameter, as are
  the library functions \<^verbatim>\<open>path.join\<close>, \<^verbatim>\<open>JSON.parse\<close> (at its declared use, an array of
  strings; \<^const>\<open>None\<close> is the \<^verbatim>\<open>SyntaxError\<close>) and the \<^verbatim>\<open>Date\<close> conversions.
\<close>

datatype fsnode = File string | Dir "string list"

record 'g world =
  fs :: "string \<Rightarrow> fsnode option"
  git :: 'g
  now :: int

record 'g env =
  path_join :: "string \<Rightarrow> string \<Rightarrow> string"
  JSON_parse :: "string \<Rightarrow> string list option"
  Date_getTime :: "string \<Rightarrow> number"
  toISOString :: "int \<Rightarrow> string"
  git_commit_cmds :: "string \<Rightarrow> 'g \<Rightarrow> string option \<times> 'g"
  git_log_cmd :: "nat \<Rightarrow> 'g \<Rightarrow> string option"

definition existsSync :: "'g world \<Rightarrow> string \<Rightarrow> bool" where
  "existsSync w p \<longleftrightarrow> fs w p \<noteq> None"

text \<open>\<^verbatim>\<open>readFileSync\<close> and \<^verbatim>\<open>readdirSync\<close> throw (here \<^const>\<open>None\<close>) on a path of the other kind.\<close>

definition readFileSync :: "'g world \<Rightarrow> string \<Rightarrow> string option" where
  "readFileSync w p = (case fs w p of Some (File c) \<Rightarrow> Some c | _ \<Rightarrow> None)"

definition readdirSync :: "'g world \<Rightarrow> string \<Rightarrow> string list option" where
  "readdirSync w p = (case fs w p of Some (Dir names) \<Rightarrow> Some names | _ \<Rightarrow> None)"

subsection \<open>State management: parseState\<close>

text \<open>\<^verbatim>\<open>\r?\n\<close> at the head of the text; the result is the text after it.\<close>

definition match_eol :: "string \<Rightarrow> string option" where
  "match_eol s =
     (case s of
        [] \<Rightarrow> None
      | c # cs \<Rightarrow>
          if c = CHR 0x0A then Some cs
          else if c = CHR 0x0D then (case cs of [] \<Rightarrow> None
                 | d # ds \<Rightarrow> if d = CHR 0x0A then Some ds else None)
          else None)"

text \<open>\<^verbatim>\<open>\r?\n---\r?\n\<close> at the head of the text.\<close>

definition match_fm_close :: "string \<Rightarrow> string option" where
  "match_fm_close s =
     (case match_eol s of
        None \<Rightarrow> None
      | Some s1 \<Rightarrow> (case strip_prefix ''---'' s1 of None \<Rightarrow> None | Some s2 \<Rightarrow> match_eol s2))"

text \<open>
  \<^verbatim>\<open>([\s\S]*?)\r?\n---\r?\n([\s\S]*)$\<close>: the lazy group ends at the first position where
  the closing line matches; the second group is the rest of the text.
\<close>

fun split_frontmatter :: "string \<Rightarrow> (string \<times> string) option" where
  "split_frontmatter [] = None"
| "split_frontmatter (c # cs) =
     (case match_fm_close (c # cs) of
        Some body \<Rightarrow> Some ([], body)
      | None \<Rightarrow> map_option (\<lambda>(f, b). (c # f, b)) (split_frontmatter cs))"

text \<open>\<^verbatim>\<open>content.match(/^---\r?\n([\s\S]*?)\r?\n---\r?\n([\s\S]*)$/)\<close>: frontmatter and body.\<close>

definition match_frontmatter :: "string \<Rightarrow> (string \<times> string) option" where
  "match_frontmatter content =
     (case strip_prefix ''---'' content of
        None \<Rightarrow> None
      | Some s1 \<Rightarrow> (case match_eol s1 of None \<Rightarrow> None | Some s2 \<Rightarrow> split_frontmatter s2))"

text \<open>
  The first position at the start of a line (flag m: the start of the text or after a
  line terminator) where \<open>p\<close> stands; the result is the text after \<open>p\<close>.
\<close>

fun find_line_start :: "string \<Rightarrow> bool \<Rightarrow> string \<Rightarrow> string option" where
  "find_line_start p at_start [] = (if at_start \<and> p = [] then Some [] else None)"
| "find_line_start p at_start (c # cs) =
     (if at_start \<and> prefix p (c # cs) then Some (drop (length p) (c # cs))
      else find_line_start p (is_line_terminator c) cs)"

text \<open>\<^verbatim>\<open>s.replace(/^["'](.*?)["']$/, "$1")\<close>: a quote at both ends of a one-line string is dropped.\<close>

definition strip_quotes :: "string \<Rightarrow> string" where
  "strip_quotes s =
     (if 2 \<le> length s \<and> is_quote (hd s) \<and> is_quote (last s)
         \<and> list_all (\<lambda>c. \<not> is_line_terminator c) (butlast (tl s))
      then butlast (tl s) else s)"

text \<open>
  \<^verbatim>\<open>frontmatter.match(new RegExp(`^${key}:\\s*(.*)$`, "m"))\<close>: after the key and the
  colon \<^verbatim>\<open>\s*\<close> takes all white space (line breaks too), the group the rest of that line.
\<close>

definition getValue :: "string \<Rightarrow> string \<Rightarrow> string option" where
  "getValue key frontmatter =
     (case find_line_start (key @ '':'') True frontmatter of
        None \<Rightarrow> None
      | Some rest \<Rightarrow>
          Some (strip_quotes (takeWhile (\<lambda>c. \<not> is_line_terminator c) (dropWhile is_space rest))))"

definition getArrayValue :: "'g env \<Rightarrow> string \<Rightarrow> string \<Rightarrow> string list" where
  "getArrayValue e key frontmatter =
     (case getValue key frontmatter of
        None \<Rightarrow> []
      | Some v \<Rightarrow>
          if v = [] \<or> v = ''[]'' then []
          else (case JSON_parse e v of
                  Some xs \<Rightarrow> xs
                | None \<Rightarrow> filter (\<lambda>x. x \<noteq> []) (map trim (split_on CHR '','' v))))"

definition status_of_char :: "char \<Rightarrow> status" where
  "status_of_char c =
     (if c = CHR ''x'' then completed else if c = CHR ''/'' then in_progress else pending)"

text \<open>
  \<^verbatim>\<open>- \[([ x\/])\] (prompt_\d+\.md) - (.+)\<close> at the head of the text. Every step is forced:
  the digits are the longest run, the title runs to the end of the line.
\<close>

definition match_prompt_line :: "string \<Rightarrow> PromptInfo option" where
  "match_prompt_line s =
     (case strip_prefix ''- ['' s of
        None \<Rightarrow> None
      | Some [] \<Rightarrow> None
      | Some (c # s2) \<Rightarrow>
          if c \<notin> set '' x/'' then None
          else (case strip_prefix ''] prompt_'' s2 of
             None \<Rightarrow> None
           | Some s3 \<Rightarrow>
               let ds = takeWhile is_digit s3 in
               if ds = [] then None
               else (case strip_prefix ''.md - '' (dropWhile is_digit s3) of
                  None \<Rightarrow> None
                | Some s4 \<Rightarrow>
                    let t = takeWhile (\<lambda>c. \<not> is_line_terminator c) s4 in
                    if t = [] then None
                    else Some \<lparr>filename = ''prompt_'' @ ds @ ''.md'', title = t,
                                status = status_of_char c\<rparr>)))"

text \<open>
  \<^verbatim>\<open>body.match(/.../g)\<close> and the loop over its lines: the search goes left to right; a
  match takes the rest of its line, so the search resumes at the next line terminator
  (\<open>skip\<close> says that the position lies inside a match). Matching the found line once
  more, as the loop does, gives the same groups.
\<close>

fun scan_prompt_lines :: "bool \<Rightarrow> string \<Rightarrow> PromptInfo list" where
  "scan_prompt_lines skip [] = []"
| "scan_prompt_lines skip (c # cs) =
     (if is_line_terminator c then scan_prompt_lines False cs
      else if skip then scan_prompt_lines True cs
      else (case match_prompt_line (c # cs) of
              Some p \<Rightarrow> p # scan_prompt_lines True cs
            | None \<Rightarrow> scan_prompt_lines False cs))"

definition parseState :: "'g env \<Rightarrow> 'g world \<Rightarrow> string \<Rightarrow> MVPBuilderState option" where
  "parseState e w directory =
     (let statePath = path_join e directory STATE_FILE in
      if \<not> existsSync w statePath then None
      else (case readFileSync w statePath of
         None \<Rightarrow> None
       | Some content \<Rightarrow>
          (case match_frontmatter content of
             None \<Rightarrow> None
           | Some (frontmatter, body) \<Rightarrow>
               Some \<lparr>active = (getValue ''active'' frontmatter = Some ''true''),
                 phase = or_else (getValue ''phase'' frontmatter) ''generating_plan'',
                 currentPromptIndex =
                   parseInt (or_else (getValue ''current_prompt_index'' frontmatter) ''0''),
                 totalPrompts = parseInt (or_else (getValue ''total_prompts'' frontmatter) ''0''),
                 promptSequence = scan_prompt_lines False body,
                 startedAt = or_else (getValue ''started_at'' frontmatter) (toISOString e (now w)),
                 lastCommit = getValue ''last_commit'' frontmatter,
                 instructionsPath =
                   or_else (getValue ''instructions_path'' frontmatter) ''instructions'',
                 referenceDocs = getArrayValue e ''reference_docs'' frontmatter,
                 maxIterations =
                   parseInt (or_else (getValue ''max_iterations'' frontmatter) ''100''),
                 currentIteration =
                   parseInt (or_else (getValue ''current_iteration'' frontmatter) ''1'')\<rparr>)))"

subsection \<open>State management: writeState and deleteState\<close>

definition status_char :: "status \<Rightarrow> char" where
  "status_char st =
     (if st = completed then CHR ''x'' else if st = in_progress then CHR ''/'' else CHR '' '')"

definition prompt_line :: "PromptInfo \<Rightarrow> string" where
  "prompt_line p = ''- ['' @ [status_char (status p)] @ ''] '' @ filename p @ '' - '' @ title p"

definition show_bool :: "bool \<Rightarrow> string" where
  "show_bool b = (if b then ''true'' else ''false'')"

definition frontmatter_text :: "MVPBuilderState \<Rightarrow> string" where
  "frontmatter_text st =
     ''active: '' @ show_bool (active st) @ ''\<newline>'' @
     ''phase: '' @ [CHR 0x22] @ phase st @ [CHR 0x22] @ ''\<newline>'' @
     ''current_prompt_index: '' @ show_number (currentPromptIndex st) @ ''\<newline>'' @
     ''total_prompts: '' @ show_number (totalPrompts st) @ ''\<newline>'' @
     ''started_at: '' @ [CHR 0x22] @ startedAt st @ [CHR 0x22] @ ''\<newline>'' @
     ''last_commit: '' @
       (case lastCommit st of
          None \<Rightarrow> ''null''
        | Some h \<Rightarrow> if h = [] then ''null'' else [CHR 0x22] @ h @ [CHR 0x22]) @ ''\<newline>'' @
     ''instructions_path: '' @ [CHR 0x22] @ instructionsPath st @ [CHR 0x22] @ ''\<newline>'' @
     ''reference_docs: '' @ JSON_stringify (referenceDocs st) @ ''\<newline>'' @
     ''max_iterations: '' @ show_number (maxIterations st) @ ''\<newline>'' @
     ''current_iteration: '' @ show_number (currentIteration st)"

definition phase_progress_text :: "MVPBuilderState \<Rightarrow> string" where
  "phase_progress_text st =
     ''- '' @ (if phase st = ''generating_plan'' then ''[/]'' else ''[x]'')
       @ '' Phase 1A: Generate Sequence Plan\<newline>'' @
     ''- '' @ (if phase st = ''generating_prompts'' then ''[/]''
              else if phase st = ''generating_plan'' then ''[ ]'' else ''[x]'')
       @ '' Phase 1B: Generate Execution Prompts\<newline>'' @
     ''- '' @ (if phase st = ''executing''
                then ''[/] Phase 2: Execute Prompts ('' @ show_number (num_succ (currentPromptIndex st))
                     @ ''/'' @ show_number (totalPrompts st) @ '')''
              else if phase st \<in> set [''generating_plan'', ''generating_prompts'']
                then ''[ ] Phase 2: Execute Prompts''
              else ''[x] Phase 2: Execute Prompts ('' @ show_number (totalPrompts st)
                     @ ''/'' @ show_number (totalPrompts st) @ '')'') @ ''\<newline>'' @
     ''- '' @ (if phase st = ''qa_integration'' then ''[/]''
              else if phase st \<in> set [''generating_plan'', ''generating_prompts'', ''executing'']
                then ''[ ]'' else ''[x]'')
       @ '' Phase 3A: QA Integration Check\<newline>'' @
     ''- '' @ (if phase st = ''qa_completeness'' then ''[/]''
              else if phase st \<in> set [''generating_plan'', ''generating_prompts'', ''executing'',
                                      ''qa_integration'']
                then ''[ ]'' else ''[x]'')
       @ '' Phase 3B: Feature Completeness\<newline>'' @
     ''- '' @ (if phase st = ''documentation'' then ''[/]''
              else if phase st = ''complete'' then ''[x]'' else ''[ ]'')
       @ '' Phase 4: Documentation\<newline>'' @
     ''- '' @ (if phase st = ''complete'' then ''[x]'' else ''[ ]'')
       @ '' '' @ [CHR 0xE2, CHR 0x9C, CHR 0x85] @ '' COMPLETE\<newline>''"

text \<open>
  The text \<^verbatim>\<open>writeState\<close> writes. The check mark of the last line lies outside the
  range of \<^typ>\<open>char\<close> and is spelled by its three UTF-8 bytes; nothing reads it.
\<close>

definition state_text :: "MVPBuilderState \<Rightarrow> string" where
  "state_text st =
     (let promptList = join_with ''\<newline>'' (map prompt_line (promptSequence st)) in
      ''---\<newline>'' @ frontmatter_text st @ ''\<newline>---\<newline>'' @
      ''\<newline>## Prompt Sequence\<newline>'' @
      (if promptList = [] then ''No prompts generated yet.'' else promptList) @
      ''\<newline>\<newline>## Phase Progress\<newline>'' @ phase_progress_text st)"

definition writeState :: "'g env \<Rightarrow> 'g world \<Rightarrow> string \<Rightarrow> MVPBuilderState \<Rightarrow> 'g world" where
  "writeState e w directory st =
     w\<lparr>fs := (fs w)(path_join e directory STATE_FILE \<mapsto> File (state_text st))\<rparr>"

definition deleteState :: "'g env \<Rightarrow> 'g world \<Rightarrow> string \<Rightarrow> bool \<times> 'g world" where
  "deleteState e w directory =
     (let statePath = path_join e directory STATE_FILE in
      if existsSync w statePath then (True, w\<lparr>fs := (fs w)(statePath := None)\<rparr>)
      else (False, w))"

subsection \<open>Completion detection\<close>

text \<open>The text after the first occurrence of \<open>pat\<close>, and the text before it.\<close>

fun after_first :: "string \<Rightarrow> string \<Rightarrow> string option" where
  "after_first pat [] = (if pat = [] then Some [] else None)"
| "after_first pat (c # cs) =
     (if prefix pat (c # cs) then Some (drop (length pat) (c # cs)) else after_first pat cs)"

fun before_first :: "string \<Rightarrow> string \<Rightarrow> string option" where
  "before_first pat [] = (if pat = [] then Some [] else None)"
| "before_first pat (c # cs) =
     (if prefix pat (c # cs) then Some [] else map_option ((#) c) (before_first pat cs))"

text \<open>
  \<^verbatim>\<open>text.match(/<promise>([\s\S]*?)<\/promise>/)\<close>, its first group: the leftmost opening
  tag that a closing tag follows is the first opening tag of the text; the lazy group
  ends at the first closing tag after it.
\<close>

definition match_promise :: "string \<Rightarrow> string option" where
  "match_promise text =
     (case after_first ''<promise>'' text of
        None \<Rightarrow> None
      | Some rest \<Rightarrow> before_first ''</promise>'' rest)"

text \<open>\<^verbatim>\<open>hasPromise\<close> of the event handler, \<^verbatim>\<open>checkCompletionPromise\<close> of the older plugin.\<close>

definition hasPromise :: "string \<Rightarrow> string \<Rightarrow> bool" where
  "hasPromise textContent promise =
     (case match_promise textContent of None \<Rightarrow> False | Some c \<Rightarrow> trim c = promise)"

definition checkCompletionPromise :: "string \<Rightarrow> string \<Rightarrow> bool" where
  "checkCompletionPromise text promise =
     (case match_promise text of None \<Rightarrow> False | Some c \<Rightarrow> trim c = promise)"

subsection \<open>Git helpers\<close>

definition gitCommit :: "'g env \<Rightarrow> 'g world \<Rightarrow> string \<Rightarrow> string option \<times> 'g world" where
  "gitCommit e w message =
     (case git_commit_cmds e message (git w) of
        (None, g) \<Rightarrow> (None, w\<lparr>git := g\<rparr>)
      | (Some out, g) \<Rightarrow> (Some (trim out), w\<lparr>git := g\<rparr>))"

definition getRecentCommits :: "'g env \<Rightarrow> 'g world \<Rightarrow> nat \<Rightarrow> string" where
  "getRecentCommits e w count =
     (case git_log_cmd e count (git w) of
        None \<Rightarrow> ''Git not initialized or no commits.''
      | Some out \<Rightarrow> (let log = trim out in if log = [] then ''No commits yet.'' else log))"

subsection \<open>File helpers\<close>

text \<open>The reads have no handler of their own: \<^const>\<open>None\<close> is the exception of \<^const>\<open>readFileSync\<close>.\<close>

definition loadFileContent :: "'g world \<Rightarrow> string \<Rightarrow> string option" where
  "loadFileContent w filePath =
     (if existsSync w filePath then readFileSync w filePath else Some [])"

fun load_docs :: "'g env \<Rightarrow> 'g world \<Rightarrow> string \<Rightarrow> string list \<Rightarrow> string option" where
  "load_docs e w directory [] = Some []"
| "load_docs e w directory (docPath # rest) =
     (let fullPath = path_join e directory docPath in
      if existsSync w fullPath
      then (case readFileSync w fullPath of
              None \<Rightarrow> None
            | Some docContent \<Rightarrow>
                map_option
                  (\<lambda>r. ''### '' @ [CHR 0xF0, CHR 0x9F, CHR 0x93, CHR 0x84] @ '' '' @ docPath @ ''\<newline>\<newline>'' @ docContent
                         @ ''\<newline>\<newline>---\<newline>\<newline>'' @ r)
                  (load_docs e w directory rest))
      else load_docs e w directory rest)"

definition loadReferenceDocs :: "'g env \<Rightarrow> 'g world \<Rightarrow> string \<Rightarrow> string list \<Rightarrow> string option" where
  "loadReferenceDocs e w directory docPaths =
     (if docPaths = [] then Some []
      else map_option
             (\<lambda>r. ''\<newline>\<newline>---\<newline>\<newline>## '' @ [CHR 0xF0, CHR 0x9F, CHR 0x93, CHR 0x9A] @ '' REFERENCE DOCUMENTATION\<newline>\<newline>'' @
                   ''Use the following documentation as reference for implementations:\<newline>\<newline>'' @ r)
             (load_docs e w directory docPaths))"

text \<open>\<^verbatim>\<open>/^prompt_\d+\.md$/.test(f)\<close>.\<close>

definition is_prompt_filename :: "string \<Rightarrow> bool" where
  "is_prompt_filename f =
     (case strip_prefix ''prompt_'' f of
        None \<Rightarrow> False
      | Some r \<Rightarrow> takeWhile is_digit r \<noteq> [] \<and> dropWhile is_digit r = ''.md'')"

text \<open>\<^verbatim>\<open>parseInt(a.match(/\d+/)?.[0] || "0")\<close>: the first run of digits, read as a number.\<close>

definition file_number :: "string \<Rightarrow> int" where
  "file_number f = int (digits_val (takeWhile is_digit (dropWhile (\<lambda>c. \<not> is_digit c) f)))"

text \<open>
  \<^verbatim>\<open>\s+(.+)$\<close> after a \<^verbatim>\<open>#\<close>, flag m. The white space is taken greedily; the group starts
  at the next character and runs to the end of its line. Only when the white space reaches
  the end of the text does \<^verbatim>\<open>\s+\<close> give characters back: the group is then the last
  white-space character that is no line terminator, the first one left to \<^verbatim>\<open>\s+\<close>.
\<close>

definition match_heading_rest :: "string \<Rightarrow> string option" where
  "match_heading_rest s =
     (let ws = takeWhile is_space s; rest = dropWhile is_space s in
      if ws = [] then None
      else if rest \<noteq> [] then Some (takeWhile (\<lambda>c. \<not> is_line_terminator c) rest)
      else (case filter (\<lambda>c. \<not> is_line_terminator c) (rev (tl ws)) of
              [] \<Rightarrow> None
            | c # _ \<Rightarrow> Some [c]))"

text \<open>\<^verbatim>\<open>content.match(/^#\s+(.+)$/m)\<close>, its first group.\<close>

fun find_title :: "bool \<Rightarrow> string \<Rightarrow> string option" where
  "find_title at_start [] = None"
| "find_title at_start (c # cs) =
     (if at_start \<and> c = CHR ''#''
      then (case match_heading_rest cs of
              Some t \<Rightarrow> Some t
            | None \<Rightarrow> find_title False cs)
      else find_title (is_line_terminator c) cs)"

text \<open>\<^const>\<open>None\<close>: \<^verbatim>\<open>readdirSync\<close> or a read has thrown.\<close>

definition discoverPromptFiles :: "'g env \<Rightarrow> 'g world \<Rightarrow> string \<Rightarrow> PromptInfo list option" where
  "discoverPromptFiles e w instructionsPath' =
     (if \<not> existsSync w instructionsPath' then Some []
      else (case readdirSync w instructionsPath' of
         None \<Rightarrow> None
       | Some files \<Rightarrow>
           those (map
             (\<lambda>filename.
                case loadFileContent w (path_join e instructionsPath' filename) of
                  None \<Rightarrow> None
                | Some content \<Rightarrow>
                    Some \<lparr>filename = filename,
                      title = (case find_title True content of
                                 Some t \<Rightarrow> take 50 t
                               | None \<Rightarrow> ''Prompt''),
                      status = pending\<rparr>)
             (sort_key file_number (filter is_prompt_filename files)))))"

subsection \<open>The text of the meta-prompts and of the phase prompts\<close>

text \<open>
  The template literals of the source, with one argument per interpolation. Characters
  outside the range of \<^typ>\<open>char\<close> (arrows and emoji) are spelled by their UTF-8 bytes.
\<close>

definition META_PROMPT_1A :: string where
  "META_PROMPT_1A =
     ''You are an expert technical architect and prompt engineer. I have a project '' @
     ''overview document at @project_overview.md that describes an MVP I want to '' @
     ''build.\<newline>\<newline>Your task is to:\<newline>'' @
     ''1. Read and deeply understand the project overview including: ICP, MVP features, '' @
     ''tech stack, business model, user flow, and design guide\<newline>'' @
     ''2. Break down the entire MVP build into a logical sequence of implementation '' @
     ''steps\<newline>3. Create a detailed execution plan that groups related work into '' @
     ''numbered prompts\<newline>\<newline>For the execution plan:\<newline>'' @
     ''- Each prompt should represent 2-4 hours of focused development work\<newline>'' @
     ''- Group related functionality together (e.g., all auth setup in one prompt, all '' @
     ''database schemas in another)\<newline>- Follow this general sequence: Setup '' @
     [CHR 0xE2, CHR 0x86, CHR 0x92] @ '' Data Layer '' @ [CHR 0xE2, CHR 0x86, CHR 0x92] @
     '' Core Features '' @ [CHR 0xE2, CHR 0x86, CHR 0x92] @ '' UI/UX '' @
     [CHR 0xE2, CHR 0x86, CHR 0x92] @ '' Integration '' @ [CHR 0xE2, CHR 0x86, CHR 0x92] @
     '' Polish\<newline>- Consider dependencies (e.g., database schema before API routes, '' @
     ''auth before protected features)\<newline>'' @
     ''- Include prompts for: initial setup verification, database schemas, mock data, '' @
     ''core MVP features (broken into 2-4 prompts), frontend components, backend APIs, '' @
     ''payments/monetization, testing, and deployment prep\<newline>\<newline>'' @
     ''Output a markdown document named '' @ [CHR 0x22] @ ''prompt_sequence_plan.md'' @
     [CHR 0x22] @ '' with:\<newline>- Total number of prompts needed (typically 8-15 for an '' @
     ''MVP)\<newline>- Brief description of what each prompt will accomplish\<newline>'' @
     ''- Estimated time per prompt\<newline>- Dependencies between prompts\<newline>'' @
     ''- Success criteria for each prompt\<newline>\<newline>Example structure:\<newline>'' @
     [CHR 0x60, CHR 0x60, CHR 0x60] @
     ''\<newline># Prompt Sequence Plan for [Project Name]\<newline>\<newline>'' @
     ''## Total Prompts: 12\<newline>## Estimated Total Time: 24-30 hours\<newline>'' @
     ''\<newline>### Prompt 01: Initial Setup Verification & Configuration\<newline>'' @
     ''**Time:** 1-2 hours\<newline>**Dependencies:** None\<newline>'' @
     ''**Accomplishes:** Verify Next.js + Convex + Clerk setup, configure environment '' @
     ''variables, establish project structure\<newline>'' @
     ''**Success Criteria:** Dev server runs, auth works, Convex syncs\<newline>'' @
     ''\<newline>### Prompt 02: Database Schema Design\<newline>'' @
     ''**Time:** 2-3 hours\<newline>**Dependencies:** Prompt 01\<newline>'' @
     ''**Accomplishes:** Design and implement all Convex schemas for [list core '' @
     ''entities]\<newline>**Success Criteria:** Schemas deployed, can create/read records '' @
     ''in Convex dashboard\<newline>...\<newline>'' @ [CHR 0x60, CHR 0x60, CHR 0x60] @
     ''\<newline>\<newline>Be specific to the project but create a reusable structure.''"

definition META_PROMPT_1B :: string where
  "META_PROMPT_1B =
     ''You are an expert full-stack developer and prompt engineer. Based on the '' @
     ''@prompt_sequence_plan.md you just created and the @project_overview.md, generate '' @
     ''detailed execution prompts for each step in the sequence.\<newline>\<newline>'' @
     ''For each prompt file (prompt_01.md through prompt_XX.md), create a comprehensive, '' @
     ''self-contained instruction that includes:\<newline>\<newline>'' @
     ''**Required Structure for Each Prompt:**\<newline>\<newline>'' @
     ''1. **Context Block**\<newline>'' @
     ''   - Brief reminder of the overall project goal\<newline>'' @
     ''   - What was accomplished in previous prompts (if applicable)\<newline>'' @
     ''   - Specific focus of this prompt\<newline>\<newline>'' @
     ''2. **Objective Statement**\<newline>'' @
     ''   - Clear, specific goal for this prompt\<newline>'' @
     ''   - Expected deliverables\<newline>\<newline>'' @
     ''3. **Technical Specifications**\<newline>'' @
     ''   - Exact tech stack components to use (from project overview)\<newline>'' @
     ''   - File locations and naming conventions\<newline>'' @
     ''   - Code organization standards\<newline>\<newline>'' @
     ''4. **Detailed Requirements**\<newline>'' @
     ''   - Step-by-step implementation checklist\<newline>'' @
     ''   - Specific features/functions to build\<newline>'' @
     ''   - Edge cases to handle\<newline>   - Error handling requirements\<newline>'' @
     ''\<newline>5. **Code Standards**\<newline>'' @
     ''   - TypeScript typing requirements\<newline>   - Naming conventions\<newline>'' @
     ''   - Comment standards\<newline>'' @
     ''   - Code organization (separate concerns, reusable components)\<newline>'' @
     ''\<newline>6. **Testing & Validation**\<newline>'' @
     ''   - How to verify the implementation works\<newline>'' @
     ''   - Manual testing steps\<newline>   - Expected behavior\<newline>\<newline>'' @
     ''7. **Success Criteria**\<newline>   - Specific, measurable outcomes\<newline>'' @
     ''   - What should work after this prompt is complete\<newline>\<newline>'' @
     ''8. **Next Steps Preview**\<newline>'' @
     ''   - Brief mention of what the next prompt will build on\<newline>\<newline>'' @
     ''**Special Instructions:**\<newline>'' @
     ''- Make each prompt completely self-contained (developer should be able to execute '' @
     ''with just that prompt + codebase)\<newline>'' @
     ''- Include specific examples where helpful (e.g., '' @ [CHR 0x22] @
     ''Create a schema like this: [example]'' @ [CHR 0x22] @
     '')\<newline>- Reference the project overview specifics (ICP, user flow, design '' @
     ''guide)\<newline>- For UI prompts: include exact design specifications from design '' @
     ''guide\<newline>- For backend prompts: include security, validation, and error '' @
     ''handling details\<newline>- For feature prompts: map to exact MVP features from '' @
     ''project overview\<newline>\<newline>**Naming Convention:**\<newline>'' @
     ''- prompt_01.md: Initial Setup Verification\<newline>'' @
     ''- prompt_02.md: Database Schema Design\<newline>'' @
     ''- prompt_03.md: Mock Data & Seed Scripts\<newline>'' @
     ''- prompt_04.md: [Feature Category] - Core Feature Set 1\<newline>'' @
     ''- prompt_05.md: [Feature Category] - Core Feature Set 2\<newline>'' @
     ''- ... (continue based on plan)\<newline>'' @
     ''- prompt_XX.md: Final deployment prep\<newline>\<newline>'' @
     ''Generate all prompt files now as separate markdown documents. Each prompt should '' @
     ''be 300-600 words and immediately actionable by a developer AI agent.''"

definition META_PROMPT_2 :: string where
  "META_PROMPT_2 =
     ''You are an expert full-stack developer specializing in Next.js, Convex, and Clerk. '' @
     ''Execute the instructions in the current prompt.\<newline>\<newline>'' @
     ''**Execution Instructions:**\<newline>\<newline>1. **Read & Plan**\<newline>'' @
     ''   - Carefully read the entire prompt\<newline>'' @
     ''   - Review any referenced files (@project_overview.md, previous code)\<newline>'' @
     ''   - Create a mental implementation plan\<newline>\<newline>'' @
     ''2. **Implement Systematically**\<newline>   - Follow the prompt'' @ [CHR 0x27] @
     ''s requirements exactly\<newline>   - Write clean, production-ready code\<newline>'' @
     ''   - Add helpful comments for complex logic\<newline>'' @
     ''   - Use TypeScript strictly (no '' @ [CHR 0x27] @ ''any'' @ [CHR 0x27] @
     '' types)\<newline>\<newline>3. **Verify as You Go**\<newline>'' @
     ''   - Test each component/function as you build it\<newline>'' @
     ''   - Check against success criteria in the prompt\<newline>'' @
     ''   - Fix any errors before moving to next section\<newline>\<newline>'' @
     ''4. **Provide Summary**\<newline>   After implementation, give me:\<newline>   - '' @
     [CHR 0xE2, CHR 0x9C, CHR 0x85] @ '' Completed tasks checklist\<newline>   - '' @
     [CHR 0xF0, CHR 0x9F, CHR 0x93, CHR 0x81] @
     '' Files created/modified with brief descriptions\<newline>   - '' @
     [CHR 0xF0, CHR 0x9F, CHR 0xA7, CHR 0xAA] @
     '' Testing steps I should run to verify\<newline>   - '' @
     [CHR 0xE2, CHR 0x9A, CHR 0xA0, CHR 0xEF, CHR 0xB8, CHR 0x8F] @
     '' Any assumptions made or edge cases to revisit\<newline>   - '' @
     [CHR 0xF0, CHR 0x9F, CHR 0x94, CHR 0x84] @
     '' What the next prompt will build on\<newline>\<newline>'' @
     ''**Code Quality Standards:**\<newline>'' @
     ''- Follow Next.js 14+ App Router conventions\<newline>'' @
     ''- Use Convex best practices (mutations/queries/actions)\<newline>'' @
     ''- Implement proper Clerk auth patterns\<newline>'' @
     ''- Mobile-responsive by default\<newline>'' @
     ''- Accessibility (WCAG AA minimum)\<newline>'' @
     ''- Error boundaries and user-friendly error messages\<newline>\<newline>'' @
     ''**When Stuck:**\<newline>- If requirements are unclear, make reasonable '' @
     ''assumptions based on project overview and document them\<newline>'' @
     ''- If a dependency is missing, note it and provide a workaround\<newline>'' @
     ''- If tech stack choice is ambiguous, choose the simpler option\<newline>\<newline>'' @
     ''Begin implementation now. Show me the code and changes you'' @ [CHR 0x27] @
     ''re making.''"

definition META_PROMPT_3A :: string where
  "META_PROMPT_3A =
     ''You are a senior QA engineer and technical architect. I'' @ [CHR 0x27] @
     ''ve completed all implementation prompts. Review the entire codebase for '' @
     ''integration issues.\<newline>\<newline>**Review Areas:**\<newline>\<newline>'' @
     ''1. **Data Flow Integrity**\<newline>'' @
     ''   - Do database schemas match API expectations?\<newline>'' @
     ''   - Are Convex mutations/queries properly connected to frontend?\<newline>'' @
     ''   - Is state management consistent across components?\<newline>\<newline>'' @
     ''2. **Authentication & Authorization**\<newline>'' @
     ''   - Is Clerk properly protecting all routes that need it?\<newline>'' @
     ''   - Are user permissions checked in backend mutations?\<newline>'' @
     ''   - Do we handle unauthenticated states gracefully?\<newline>\<newline>'' @
     ''3. **User Experience Flow**\<newline>'' @
     ''   - Does the implemented flow match @project_overview.md user flow?\<newline>'' @
     ''   - Are there any broken links or dead ends?\<newline>'' @
     ''   - Is loading/error state handling consistent?\<newline>\<newline>'' @
     ''4. **Code Consistency**\<newline>'' @
     ''   - Naming conventions uniform across files?\<newline>'' @
     ''   - Component structure consistent?\<newline>'' @
     ''   - Similar patterns for similar problems?\<newline>\<newline>'' @
     ''5. **Performance & Scalability**\<newline>   - Any N+1 query issues?\<newline>'' @
     ''   - Are we paginating large data sets?\<newline>'' @
     ''   - Unnecessary re-renders or API calls?\<newline>\<newline>'' @
     ''**Deliverable:**\<newline>Create '' @ [CHR 0x22] @ ''integration_issues.md'' @
     [CHR 0x22] @ '' listing:\<newline>- '' @ [CHR 0xF0, CHR 0x9F, CHR 0x94, CHR 0xB4] @
     '' Critical issues (blocks functionality)\<newline>- '' @
     [CHR 0xF0, CHR 0x9F, CHR 0x9F, CHR 0xA1] @
     '' Important issues (degrades UX)\<newline>- '' @
     [CHR 0xF0, CHR 0x9F, CHR 0x9F, CHR 0xA2] @
     '' Nice-to-haves (improvements)\<newline>\<newline>'' @
     ''For each issue, provide:\<newline>- Description\<newline>'' @
     ''- Location (file/component)\<newline>- Suggested fix\<newline>'' @
     ''- Estimated effort (quick/medium/significant)\<newline>\<newline>'' @
     ''After listing all issues, fix ALL '' @ [CHR 0xF0, CHR 0x9F, CHR 0x94, CHR 0xB4] @
     '' CRITICAL issues before proceeding.''"

definition META_PROMPT_3B :: string where
  "META_PROMPT_3B =
     ''You are a product manager conducting an MVP readiness review. Compare our '' @
     ''implemented codebase against the MVP features listed in '' @
     ''@project_overview.md.\<newline>\<newline>**Audit Process:**\<newline>\<newline>'' @
     ''1. **Feature Checklist**\<newline>'' @
     ''   - List each MVP feature from project overview\<newline>   - Mark status: '' @
     [CHR 0xE2, CHR 0x9C, CHR 0x85] @ '' Complete | '' @
     [CHR 0xF0, CHR 0x9F, CHR 0x9F, CHR 0xA1] @ '' Partial | '' @
     [CHR 0xE2, CHR 0x9D, CHR 0x8C] @ '' Missing\<newline>   - Note quality: '' @
     [CHR 0xF0, CHR 0x9F, CHR 0x8C, CHR 0x9F] @ '' Excellent | '' @
     [CHR 0xE2, CHR 0x9C, CHR 0x94, CHR 0xEF, CHR 0xB8, CHR 0x8F] @ '' Good | '' @
     [CHR 0xE2, CHR 0x9A, CHR 0xA0, CHR 0xEF, CHR 0xB8, CHR 0x8F] @
     '' Needs work\<newline>\<newline>2. **User Flow Validation**\<newline>'' @
     ''   - Walk through each step of the documented user flow\<newline>'' @
     ''   - Identify any gaps or friction points\<newline>'' @
     ''   - Check if onboarding matches the plan\<newline>\<newline>'' @
     ''3. **ICP Alignment**\<newline>'' @
     ''   - Does the product serve the stated ICP effectively?\<newline>'' @
     ''   - Are pain points from project overview addressed?\<newline>'' @
     ''   - Is complexity appropriate for target users?\<newline>\<newline>'' @
     ''4. **Business Model Implementation**\<newline>'' @
     ''   - Are pricing tiers implemented correctly?\<newline>'' @
     ''   - Is payment integration functional?\<newline>'' @
     ''   - Are usage limits/gates in place?\<newline>\<newline>'' @
     ''**Deliverable:**\<newline>Create '' @ [CHR 0x22] @ ''mvp_readiness_report.md'' @
     [CHR 0x22] @ '' with:\<newline>- Overall readiness score (0-100%)\<newline>'' @
     ''- Feature completion matrix\<newline>- Must-fix items before launch\<newline>'' @
     ''- Nice-to-have improvements\<newline>'' @
     ''- Launch blocker vs post-launch items\<newline>\<newline>'' @
     ''After creating the report, fix any launch blockers before proceeding.''"

definition META_PROMPT_4 :: string where
  "META_PROMPT_4 =
     ''You are a technical writer creating end-to-end documentation for this MVP. '' @
     ''Generate comprehensive documentation for both developers and users.\<newline>'' @
     ''\<newline>**Create These Documents:**\<newline>\<newline>'' @
     ''1. **README.md** (Developer-focused)\<newline>'' @
     ''   - Project overview & value proposition\<newline>'' @
     ''   - Tech stack with versions\<newline>'' @
     ''   - Setup instructions (environment variables, installation, database '' @
     ''setup)\<newline>   - Development workflow (running locally, testing, '' @
     ''deploying)\<newline>   - Project structure explanation\<newline>'' @
     ''   - Key architectural decisions\<newline>'' @
     ''   - Troubleshooting common issues\<newline>\<newline>'' @
     ''2. **DEPLOYMENT.md**\<newline>   - Vercel deployment steps\<newline>'' @
     ''   - Convex deployment process\<newline>   - Clerk production setup\<newline>'' @
     ''   - Environment variables for production\<newline>'' @
     ''   - Domain configuration\<newline>   - Monitoring & logging setup\<newline>'' @
     ''\<newline>3. **API_DOCUMENTATION.md**\<newline>'' @
     ''   - All Convex queries/mutations/actions\<newline>'' @
     ''   - Input parameters & types\<newline>   - Return values & types\<newline>'' @
     ''   - Example usage\<newline>   - Error responses\<newline>\<newline>'' @
     ''4. **USER_GUIDE.md** (End-user focused)\<newline>'' @
     ''   - Getting started tutorial\<newline>'' @
     ''   - Feature walkthroughs with screenshots\<newline>'' @
     ''   - Common workflows\<newline>   - FAQ\<newline>   - Troubleshooting\<newline>'' @
     ''\<newline>5. **FUTURE_ENHANCEMENTS.md**\<newline>'' @
     ''   - Features cut from MVP (from project overview)\<newline>'' @
     ''   - Technical debt items\<newline>   - Scalability improvements needed\<newline>'' @
     ''   - User-requested features (placeholder)\<newline>\<newline>'' @
     ''**Style Guidelines:**\<newline>- Use clear, concise language\<newline>'' @
     ''- Include code examples where relevant\<newline>'' @
     ''- Add mermaid diagrams for complex flows\<newline>'' @
     ''- Assume intelligent but unfamiliar readers\<newline>'' @
     ''- Link between documents for cross-references''"

definition phase1A_text :: "string \<Rightarrow> string \<Rightarrow> string \<Rightarrow> string \<Rightarrow> string" where
  "phase1A_text overview refdocs commits ipath =
     ''# MVP Builder - STEP 1: Generate the Prompt Sequence Plan\<newline>\<newline>## '' @
     [CHR 0xF0, CHR 0x9F, CHR 0x93, CHR 0x8B] @
     '' Your Task\<newline>Read the project overview and create a detailed prompt '' @
     ''sequence plan.\<newline>\<newline>---\<newline>\<newline>## '' @
     [CHR 0xF0, CHR 0x9F, CHR 0x93, CHR 0x84] @
     '' PROJECT OVERVIEW (@project_overview.md)\<newline>\<newline>'' @ overview @
     ''\<newline>\<newline>'' @ refdocs @ ''\<newline>\<newline>---\<newline>\<newline>## '' @
     [CHR 0xF0, CHR 0x9F, CHR 0x93, CHR 0x9C] @ '' RECENT GIT HISTORY\<newline>'' @
     [CHR 0x60, CHR 0x60, CHR 0x60] @ ''\<newline>'' @ commits @ ''\<newline>'' @
     [CHR 0x60, CHR 0x60, CHR 0x60] @ ''\<newline>\<newline>---\<newline>\<newline>## '' @
     [CHR 0xF0, CHR 0x9F, CHR 0x8E, CHR 0xAF] @
     '' INSTRUCTIONS (Meta-Prompt 1A)\<newline>\<newline>'' @ META_PROMPT_1A @
     ''\<newline>\<newline>---\<newline>\<newline>## '' @
     [CHR 0xE2, CHR 0x9A, CHR 0xA0, CHR 0xEF, CHR 0xB8, CHR 0x8F] @
     '' IMPORTANT\<newline>\<newline>1. Save the plan as '' @ [CHR 0x60] @ ipath @
     ''/prompt_sequence_plan.md'' @ [CHR 0x60] @
     ''\<newline>2. The starter kit already has Next.js 16 + Convex + Clerk with Google '' @
     ''sign-in configured\<newline>3. Skip initial setup prompts if auth is already '' @
     ''working\<newline>4. Focus on the MVP features from the project overview\<newline>'' @
     ''\<newline>## '' @ [CHR 0xE2, CHR 0x9C, CHR 0x85] @
     '' COMPLETION\<newline>\<newline>When you have created and saved '' @ [CHR 0x60] @ ipath @
     ''/prompt_sequence_plan.md'' @ [CHR 0x60] @
     '', output exactly:\<newline>\<newline><promise>SEQUENCE_PLAN_COMPLETE</promise>''"

definition phase1B_text :: "string \<Rightarrow> string \<Rightarrow> string \<Rightarrow> string \<Rightarrow> string" where
  "phase1B_text overview plan refdocs ipath =
     ''# MVP Builder - STEP 2: Generate All Individual Execution Prompts\<newline>'' @
     ''\<newline>## '' @ [CHR 0xF0, CHR 0x9F, CHR 0x93, CHR 0x8B] @
     '' Your Task\<newline>Using the prompt sequence plan and project overview, generate '' @
     ''all individual execution prompts.\<newline>\<newline>---\<newline>\<newline>## '' @
     [CHR 0xF0, CHR 0x9F, CHR 0x93, CHR 0x84] @
     '' PROJECT OVERVIEW (@project_overview.md)\<newline>\<newline>'' @ overview @
     ''\<newline>\<newline>---\<newline>\<newline>## '' @
     [CHR 0xF0, CHR 0x9F, CHR 0x93, CHR 0x8B] @
     '' PROMPT SEQUENCE PLAN (@prompt_sequence_plan.md)\<newline>\<newline>'' @ plan @
     ''\<newline>\<newline>'' @ refdocs @ ''\<newline>\<newline>---\<newline>\<newline>## '' @
     [CHR 0xF0, CHR 0x9F, CHR 0x8E, CHR 0xAF] @
     '' INSTRUCTIONS (Meta-Prompt 1B)\<newline>\<newline>'' @ META_PROMPT_1B @
     ''\<newline>\<newline>---\<newline>\<newline>## '' @
     [CHR 0xE2, CHR 0x9A, CHR 0xA0, CHR 0xEF, CHR 0xB8, CHR 0x8F] @
     '' IMPORTANT\<newline>\<newline>1. Save ALL prompt files in '' @ [CHR 0x60] @ ipath @
     ''/'' @ [CHR 0x60] @ '' folder:\<newline>   - '' @ [CHR 0x60] @ ipath @ ''/prompt_01.md'' @
     [CHR 0x60] @ ''\<newline>   - '' @ [CHR 0x60] @ ipath @ ''/prompt_02.md'' @ [CHR 0x60] @
     ''\<newline>   - ... and so on\<newline>'' @
     ''2. Each prompt should be self-contained and immediately actionable\<newline>'' @
     ''3. The starter kit already has Next.js 16 + Convex + Clerk configured\<newline>'' @
     ''\<newline>## '' @ [CHR 0xE2, CHR 0x9C, CHR 0x85] @ '' COMPLETION\<newline>\<newline>'' @
     ''After generating ALL prompt files listed in the sequence plan, output '' @
     ''exactly:\<newline>\<newline><promise>PROMPTS_GENERATED</promise>''"

definition phase2_text :: "string \<Rightarrow> string \<Rightarrow> string \<Rightarrow> string \<Rightarrow> string \<Rightarrow> string \<Rightarrow> string \<Rightarrow> string" where
  "phase2_text idx tot fname content overview refdocs commits =
     ''# MVP Builder - STEP 3: Execute Prompt '' @ idx @ '' of '' @ tot @
     ''\<newline>\<newline>## '' @ [CHR 0xF0, CHR 0x9F, CHR 0x93, CHR 0x8B] @
     '' Current Prompt: '' @ fname @ ''\<newline>\<newline>---\<newline>\<newline>## '' @
     [CHR 0xF0, CHR 0x9F, CHR 0x93, CHR 0x84] @ '' PROMPT INSTRUCTIONS\<newline>\<newline>'' @
     content @ ''\<newline>\<newline>---\<newline>\<newline>## '' @
     [CHR 0xF0, CHR 0x9F, CHR 0x93, CHR 0x84] @
     '' PROJECT OVERVIEW (for reference)\<newline>\<newline>'' @ overview @
     ''\<newline>\<newline>'' @ refdocs @ ''\<newline>\<newline>---\<newline>\<newline>## '' @
     [CHR 0xF0, CHR 0x9F, CHR 0x93, CHR 0x9C] @ '' RECENT GIT HISTORY (see what'' @ [CHR 0x27] @
     ''s been done)\<newline>'' @ [CHR 0x60, CHR 0x60, CHR 0x60] @ ''\<newline>'' @ commits @
     ''\<newline>'' @ [CHR 0x60, CHR 0x60, CHR 0x60] @
     ''\<newline>\<newline>---\<newline>\<newline>## '' @
     [CHR 0xF0, CHR 0x9F, CHR 0x8E, CHR 0xAF] @
     '' EXECUTION INSTRUCTIONS (Meta-Prompt 2)\<newline>\<newline>'' @ META_PROMPT_2 @
     ''\<newline>\<newline>---\<newline>\<newline>## '' @
     [CHR 0xE2, CHR 0x9A, CHR 0xA0, CHR 0xEF, CHR 0xB8, CHR 0x8F] @
     '' IMPORTANT\<newline>\<newline>1. Follow the prompt instructions exactly\<newline>'' @
     ''2. Test your implementation before marking complete\<newline>'' @
     ''3. After completion, changes will be committed automatically\<newline>'' @
     ''4. Progress: '' @ idx @ ''/'' @ tot @ '' prompts\<newline>\<newline>## '' @
     [CHR 0xE2, CHR 0x9C, CHR 0x85] @ '' COMPLETION\<newline>\<newline>'' @
     ''When ALL success criteria in the prompt are met and implementation is tested, '' @
     ''output exactly:\<newline>\<newline><promise>PROMPT_COMPLETE</promise>''"

definition phase3A_text :: "string \<Rightarrow> string \<Rightarrow> string \<Rightarrow> string \<Rightarrow> string" where
  "phase3A_text overview refdocs commits ipath =
     ''# MVP Builder - STEP 4A: Quality Assurance - Integration Check\<newline>\<newline>'' @
     ''## '' @ [CHR 0xF0, CHR 0x9F, CHR 0x93, CHR 0x8B] @
     '' Your Task\<newline>Review the entire codebase for integration issues after '' @
     ''completing all prompts.\<newline>\<newline>---\<newline>\<newline>## '' @
     [CHR 0xF0, CHR 0x9F, CHR 0x93, CHR 0x84] @
     '' PROJECT OVERVIEW (@project_overview.md)\<newline>\<newline>'' @ overview @
     ''\<newline>\<newline>'' @ refdocs @ ''\<newline>\<newline>---\<newline>\<newline>## '' @
     [CHR 0xF0, CHR 0x9F, CHR 0x93, CHR 0x9C] @
     '' GIT HISTORY (all completed work)\<newline>'' @ [CHR 0x60, CHR 0x60, CHR 0x60] @
     ''\<newline>'' @ commits @ ''\<newline>'' @ [CHR 0x60, CHR 0x60, CHR 0x60] @
     ''\<newline>\<newline>---\<newline>\<newline>## '' @
     [CHR 0xF0, CHR 0x9F, CHR 0x8E, CHR 0xAF] @
     '' INSTRUCTIONS (Meta-Prompt 3A)\<newline>\<newline>'' @ META_PROMPT_3A @
     ''\<newline>\<newline>---\<newline>\<newline>## '' @
     [CHR 0xE2, CHR 0x9A, CHR 0xA0, CHR 0xEF, CHR 0xB8, CHR 0x8F] @
     '' IMPORTANT\<newline>\<newline>1. Save the issues list as '' @ [CHR 0x60] @ ipath @
     ''/integration_issues.md'' @ [CHR 0x60] @ ''\<newline>2. Fix ALL '' @
     [CHR 0xF0, CHR 0x9F, CHR 0x94, CHR 0xB4] @
     '' CRITICAL issues before proceeding\<newline>3. Document any fixes made\<newline>'' @
     ''\<newline>## '' @ [CHR 0xE2, CHR 0x9C, CHR 0x85] @ '' COMPLETION\<newline>\<newline>'' @
     ''After creating integration_issues.md and fixing all critical issues, output '' @
     ''exactly:\<newline>\<newline><promise>INTEGRATION_CHECK_COMPLETE</promise>''"

definition phase3B_text :: "string \<Rightarrow> string \<Rightarrow> string \<Rightarrow> string" where
  "phase3B_text overview refdocs ipath =
     ''# MVP Builder - STEP 4B: Quality Assurance - Feature Completeness Audit\<newline>'' @
     ''\<newline>## '' @ [CHR 0xF0, CHR 0x9F, CHR 0x93, CHR 0x8B] @
     '' Your Task\<newline>Compare implemented features against the MVP '' @
     ''requirements.\<newline>\<newline>---\<newline>\<newline>## '' @
     [CHR 0xF0, CHR 0x9F, CHR 0x93, CHR 0x84] @
     '' PROJECT OVERVIEW (@project_overview.md)\<newline>\<newline>'' @ overview @
     ''\<newline>\<newline>'' @ refdocs @ ''\<newline>\<newline>---\<newline>\<newline>## '' @
     [CHR 0xF0, CHR 0x9F, CHR 0x8E, CHR 0xAF] @
     '' INSTRUCTIONS (Meta-Prompt 3B)\<newline>\<newline>'' @ META_PROMPT_3B @
     ''\<newline>\<newline>---\<newline>\<newline>## '' @
     [CHR 0xE2, CHR 0x9A, CHR 0xA0, CHR 0xEF, CHR 0xB8, CHR 0x8F] @
     '' IMPORTANT\<newline>\<newline>1. Save the report as '' @ [CHR 0x60] @ ipath @
     ''/mvp_readiness_report.md'' @ [CHR 0x60] @
     ''\<newline>2. Fix any launch blockers before proceeding\<newline>'' @
     ''3. Document the overall readiness score\<newline>\<newline>## '' @
     [CHR 0xE2, CHR 0x9C, CHR 0x85] @ '' COMPLETION\<newline>\<newline>'' @
     ''After creating mvp_readiness_report.md and fixing launch blockers, output '' @
     ''exactly:\<newline>\<newline><promise>MVP_READY</promise>''"

definition phase4_text :: "string \<Rightarrow> string \<Rightarrow> string" where
  "phase4_text overview refdocs =
     ''# MVP Builder - STEP 5: Generate Documentation\<newline>\<newline>## '' @
     [CHR 0xF0, CHR 0x9F, CHR 0x93, CHR 0x8B] @
     '' Your Task\<newline>Generate comprehensive documentation for the MVP.\<newline>'' @
     ''\<newline>---\<newline>\<newline>## '' @ [CHR 0xF0, CHR 0x9F, CHR 0x93, CHR 0x84] @
     '' PROJECT OVERVIEW (@project_overview.md)\<newline>\<newline>'' @ overview @
     ''\<newline>\<newline>'' @ refdocs @ ''\<newline>\<newline>---\<newline>\<newline>## '' @
     [CHR 0xF0, CHR 0x9F, CHR 0x8E, CHR 0xAF] @
     '' INSTRUCTIONS (Meta-Prompt 4)\<newline>\<newline>'' @ META_PROMPT_4 @
     ''\<newline>\<newline>---\<newline>\<newline>## '' @
     [CHR 0xE2, CHR 0x9A, CHR 0xA0, CHR 0xEF, CHR 0xB8, CHR 0x8F] @
     '' IMPORTANT\<newline>\<newline>'' @
     ''1. Save documentation files in the project root:\<newline>   - README.md\<newline>'' @
     ''   - DEPLOYMENT.md\<newline>   - API_DOCUMENTATION.md\<newline>'' @
     ''   - USER_GUIDE.md\<newline>   - FUTURE_ENHANCEMENTS.md\<newline>\<newline>## '' @
     [CHR 0xE2, CHR 0x9C, CHR 0x85] @ '' COMPLETION\<newline>\<newline>'' @
     ''After creating all documentation files, output exactly:\<newline>\<newline>'' @
     ''<promise>DOCUMENTATION_COMPLETE</promise>''"

definition complete_text :: "string \<Rightarrow> string \<Rightarrow> string \<Rightarrow> string \<Rightarrow> string \<Rightarrow> string" where
  "complete_text tot iter hours minutes commit =
     ''# '' @ [CHR 0xF0, CHR 0x9F, CHR 0x8E, CHR 0x89] @
     '' MVP Builder - COMPLETE!\<newline>\<newline>## '' @ [CHR 0xE2, CHR 0x9C, CHR 0x85] @
     '' All Phases Completed Successfully!\<newline>\<newline>'' @
     ''| Phase | Status |\<newline>|-------|--------|\<newline>'' @
     ''| Phase 1A: Generate Sequence Plan | '' @ [CHR 0xE2, CHR 0x9C, CHR 0x85] @
     '' Complete |\<newline>| Phase 1B: Generate Execution Prompts | '' @
     [CHR 0xE2, CHR 0x9C, CHR 0x85] @
     '' Complete |\<newline>| Phase 2: Execute All Prompts ('' @ tot @ '') | '' @
     [CHR 0xE2, CHR 0x9C, CHR 0x85] @
     '' Complete |\<newline>| Phase 3A: Integration Check | '' @
     [CHR 0xE2, CHR 0x9C, CHR 0x85] @
     '' Complete |\<newline>| Phase 3B: Feature Completeness | '' @
     [CHR 0xE2, CHR 0x9C, CHR 0x85] @ '' Complete |\<newline>| Phase 4: Documentation | '' @
     [CHR 0xE2, CHR 0x9C, CHR 0x85] @ '' Complete |\<newline>\<newline>## '' @
     [CHR 0xF0, CHR 0x9F, CHR 0x93, CHR 0x8A] @
     '' Statistics\<newline>\<newline>- **Total Prompts Executed:** '' @ tot @
     ''\<newline>- **Total Iterations:** '' @ iter @ ''\<newline>- **Total Time:** '' @ hours @
     ''h '' @ minutes @ ''m\<newline>- **Last Commit:** '' @ commit @
     ''\<newline>\<newline>## '' @ [CHR 0xF0, CHR 0x9F, CHR 0x9A, CHR 0x80] @
     '' Next Steps\<newline>\<newline>1. Review the generated documentation\<newline>'' @
     ''2. Run the test suite: '' @ [CHR 0x60] @ ''npm test'' @ [CHR 0x60] @
     ''\<newline>3. Deploy to staging: See DEPLOYMENT.md\<newline>'' @
     ''4. Share with users for feedback\<newline>\<newline>---\<newline>\<newline>'' @
     ''The MVP is ready for deployment!\<newline>\<newline>'' @
     ''<promise>MVP_COMPLETE</promise>''"

subsection \<open>Phase prompt builders\<close>

definition buildPhase1APrompt :: "'g env \<Rightarrow> 'g world \<Rightarrow> MVPBuilderState \<Rightarrow> string \<Rightarrow> string option" where
  "buildPhase1APrompt e w state directory =
     (let instructionsPath' = path_join e directory (instructionsPath state);
          projectOverviewPath = path_join e instructionsPath' ''project_overview.md''
      in case loadFileContent w projectOverviewPath of
           None \<Rightarrow> None
         | Some projectOverview \<Rightarrow>
        (case loadReferenceDocs e w directory (referenceDocs state) of
           None \<Rightarrow> None
         | Some referenceDocs' \<Rightarrow>
             Some (phase1A_text
               (if projectOverview = []
                then ''ERROR: project_overview.md not found at '' @ projectOverviewPath
                else projectOverview)
               referenceDocs' (getRecentCommits e w 10) (instructionsPath state))))"

definition buildPhase1BPrompt :: "'g env \<Rightarrow> 'g world \<Rightarrow> MVPBuilderState \<Rightarrow> string \<Rightarrow> string option" where
  "buildPhase1BPrompt e w state directory =
     (let instructionsPath' = path_join e directory (instructionsPath state);
          projectOverviewPath = path_join e instructionsPath' ''project_overview.md'';
          sequencePlanPath = path_join e instructionsPath' ''prompt_sequence_plan.md''
      in case loadFileContent w projectOverviewPath of
           None \<Rightarrow> None
         | Some projectOverview \<Rightarrow>
        (case loadFileContent w sequencePlanPath of
           None \<Rightarrow> None
         | Some sequencePlan \<Rightarrow>
        (case loadReferenceDocs e w directory (referenceDocs state) of
           None \<Rightarrow> None
         | Some referenceDocs' \<Rightarrow>
             Some (phase1B_text projectOverview
               (if sequencePlan = [] then ''ERROR: prompt_sequence_plan.md not found!''
                else sequencePlan)
               referenceDocs' (instructionsPath state)))))"

definition buildPhase2Prompt :: "'g env \<Rightarrow> 'g world \<Rightarrow> MVPBuilderState \<Rightarrow> string \<Rightarrow> string option" where
  "buildPhase2Prompt e w state directory =
     (let instructionsPath' = path_join e directory (instructionsPath state) in
      case index_opt (promptSequence state) (currentPromptIndex state) of
        None \<Rightarrow> Some ''ERROR: No more prompts to execute.''
      | Some currentPrompt \<Rightarrow>
        (let promptPath = path_join e instructionsPath' (filename currentPrompt) in
         case loadFileContent w promptPath of
           None \<Rightarrow> None
         | Some promptContent \<Rightarrow>
        (case loadFileContent w (path_join e instructionsPath' ''project_overview.md'') of
           None \<Rightarrow> None
         | Some projectOverview \<Rightarrow>
        (case loadReferenceDocs e w directory (referenceDocs state) of
           None \<Rightarrow> None
         | Some referenceDocs' \<Rightarrow>
             Some (phase2_text
               (show_number (num_succ (currentPromptIndex state)))
               (show_number (totalPrompts state))
               (filename currentPrompt)
               (if promptContent = []
                then ''ERROR: '' @ filename currentPrompt @ '' not found at '' @ promptPath
                else promptContent)
               projectOverview referenceDocs' (getRecentCommits e w 10))))))"

definition buildPhase3APrompt :: "'g env \<Rightarrow> 'g world \<Rightarrow> MVPBuilderState \<Rightarrow> string \<Rightarrow> string option" where
  "buildPhase3APrompt e w state directory =
     (let instructionsPath' = path_join e directory (instructionsPath state) in
      case loadFileContent w (path_join e instructionsPath' ''project_overview.md'') of
        None \<Rightarrow> None
      | Some projectOverview \<Rightarrow>
     (case loadReferenceDocs e w directory (referenceDocs state) of
        None \<Rightarrow> None
      | Some referenceDocs' \<Rightarrow>
          Some (phase3A_text projectOverview referenceDocs' (getRecentCommits e w 20)
                  (instructionsPath state))))"

definition buildPhase3BPrompt :: "'g env \<Rightarrow> 'g world \<Rightarrow> MVPBuilderState \<Rightarrow> string \<Rightarrow> string option" where
  "buildPhase3BPrompt e w state directory =
     (let instructionsPath' = path_join e directory (instructionsPath state) in
      case loadFileContent w (path_join e instructionsPath' ''project_overview.md'') of
        None \<Rightarrow> None
      | Some projectOverview \<Rightarrow>
     (case loadReferenceDocs e w directory (referenceDocs state) of
        None \<Rightarrow> None
      | Some referenceDocs' \<Rightarrow>
          Some (phase3B_text projectOverview referenceDocs' (instructionsPath state))))"

definition buildPhase4Prompt :: "'g env \<Rightarrow> 'g world \<Rightarrow> MVPBuilderState \<Rightarrow> string \<Rightarrow> string option" where
  "buildPhase4Prompt e w state directory =
     (let instructionsPath' = path_join e directory (instructionsPath state) in
      case loadFileContent w (path_join e instructionsPath' ''project_overview.md'') of
        None \<Rightarrow> None
      | Some projectOverview \<Rightarrow>
     (case loadReferenceDocs e w directory (referenceDocs state) of
        None \<Rightarrow> None
      | Some referenceDocs' \<Rightarrow> Some (phase4_text projectOverview referenceDocs')))"

text \<open>\<^verbatim>\<open>a % b\<close> on integers: the remainder has the sign of the dividend.\<close>

definition js_rem :: "int \<Rightarrow> int \<Rightarrow> int" where
  "js_rem a b = sgn a * (\<bar>a\<bar> mod \<bar>b\<bar>)"

text \<open>
  \<^verbatim>\<open>Date.now() - new Date(state.startedAt).getTime()\<close>, then the hours and minutes by
  \<^verbatim>\<open>Math.floor\<close>; a start time that is no date makes all three \<^verbatim>\<open>NaN\<close>.
\<close>

definition buildCompletePrompt :: "'g env \<Rightarrow> 'g world \<Rightarrow> MVPBuilderState \<Rightarrow> string" where
  "buildCompletePrompt e w state =
     (let elapsed = (case Date_getTime e (startedAt state) of
                       NaN \<Rightarrow> NaN | Num t \<Rightarrow> Num (now w - t));
          hours = (case elapsed of NaN \<Rightarrow> NaN | Num d \<Rightarrow> Num (d div (1000 * 60 * 60)));
          minutes = (case elapsed of NaN \<Rightarrow> NaN
                     | Num d \<Rightarrow> Num (js_rem d (1000 * 60 * 60) div (1000 * 60)))
      in complete_text (show_number (totalPrompts state)) (show_number (currentIteration state))
           (show_number hours) (show_number minutes) (or_else (lastCommit state) ''N/A''))"

subsection \<open>The event handler\<close>

datatype level = Info | Warn | Error

record part =
  part_type :: string
  part_text :: string

record message =
  role :: string
  parts :: "part list option"

text \<open>
  What \<^verbatim>\<open>client.session.get\<close> gives: an exception, or a session whose \<^verbatim>\<open>messages\<close> may be
  missing. What the handler does to its collaborators: the world it leaves, the lines it
  logs, the texts it sends to the session, and whether it ended by an exception.
\<close>

datatype session_reply = Throws string | Session "message list option"

datatype exn = TypeError | FsError

record 'g outcome =
  world_after :: "'g world"
  logged :: "(level \<times> string) list"
  sent :: "string list"
  rejected :: bool

definition textContent_of :: "message \<Rightarrow> string" where
  "textContent_of m =
     (case parts m of
        None \<Rightarrow> []
      | Some ps \<Rightarrow> join_with ''\<newline>'' (map part_text (filter (\<lambda>p. part_type p = ''text'') ps)))"

text \<open>
  The \<^verbatim>\<open>switch\<close> on the phase. Its result: the state as mutated so far, \<^verbatim>\<open>shouldAdvance\<close>,
  \<^verbatim>\<open>commitMessage\<close>, \<^verbatim>\<open>nextPhase\<close>, the lines logged, and how control leaves the switch.
\<close>

datatype control = Break | Thrown exn | Return

record 'g switched =
  sw_state :: MVPBuilderState
  sw_shouldAdvance :: bool
  sw_commitMessage :: string
  sw_nextPhase :: string
  sw_world :: "'g world"
  sw_logged :: "(level \<times> string) list"
  sw_control :: control

definition set_status :: "PromptInfo list \<Rightarrow> nat \<Rightarrow> status \<Rightarrow> PromptInfo list" where
  "set_status ps i s = ps[i := (ps ! i)\<lparr>status := s\<rparr>]"

text \<open>
  The locals before the \<^verbatim>\<open>switch\<close>: \<^verbatim>\<open>shouldAdvance = false\<close>, \<^verbatim>\<open>commitMessage = ""\<close>,
  \<^verbatim>\<open>nextPhase = state.phase\<close>.
\<close>

definition initial_switch :: "MVPBuilderState \<Rightarrow> 'g world \<Rightarrow> 'g switched" where
  "initial_switch state w =
     \<lparr>sw_state = state, sw_shouldAdvance = False, sw_commitMessage = [],
      sw_nextPhase = phase state, sw_world = w, sw_logged = [], sw_control = Break\<rparr>"

definition phase_switch :: "'g env \<Rightarrow> 'g world \<Rightarrow> string \<Rightarrow> MVPBuilderState \<Rightarrow> string \<Rightarrow> 'g switched" where
  "phase_switch e w directory state textContent =
     (let stay = initial_switch state w;
          advance = (\<lambda>next msg. stay\<lparr>sw_shouldAdvance := True, sw_commitMessage := msg,
                                       sw_nextPhase := next\<rparr>)
      in
      if phase state = ''generating_plan'' then
        (if hasPromise textContent ''SEQUENCE_PLAN_COMPLETE''
         then advance ''generating_prompts'' ''MVP Builder: Generated prompt sequence plan''
         else stay)
      else if phase state = ''generating_prompts'' then
        (if hasPromise textContent ''PROMPTS_GENERATED''
         then (let instructionsPath' = path_join e directory (instructionsPath state) in
               case discoverPromptFiles e w instructionsPath' of
                 None \<Rightarrow> stay\<lparr>sw_control := Thrown FsError\<rparr>
               | Some found \<Rightarrow>
                   if 0 < length found
                   then (advance ''executing''
                           (''MVP Builder: Generated '' @ show_number (Num (int (length found)))
                            @ '' execution prompts''))
                          \<lparr>sw_state := state\<lparr>promptSequence := set_status found 0 in_progress,
                               totalPrompts := Num (int (length found)),
                               currentPromptIndex := Num 0\<rparr>\<rparr>
                   else stay\<lparr>sw_state := state\<lparr>promptSequence := found,
                                 totalPrompts := Num (int (length found))\<rparr>,
                          sw_logged := [(Error, ''No prompt files found in '' @ instructionsPath'
                            @ ''. Looking for prompt_01.md, prompt_02.md, etc.'')]\<rparr>)
         else stay)
      else if phase state = ''executing'' then
        (if hasPromise textContent ''PROMPT_COMPLETE''
         then (let current = index_opt (promptSequence state) (currentPromptIndex state);
                   state1 = (case current of
                       None \<Rightarrow> state
                     | Some p \<Rightarrow> state\<lparr>promptSequence := set_status (promptSequence state)
                           (case currentPromptIndex state of Num i \<Rightarrow> nat i | NaN \<Rightarrow> 0)
                           completed\<rparr>);
                   msg1 = (case current of
                       None \<Rightarrow> []
                     | Some p \<Rightarrow> ''MVP Builder: Completed '' @ filename p)
               in if num_lt (num_succ (currentPromptIndex state1)) (totalPrompts state1)
                  then (let state2 = state1\<lparr>currentPromptIndex :=
                                        num_succ (currentPromptIndex state1)\<rparr> in
                        case index_opt (promptSequence state2) (currentPromptIndex state2) of
                          None \<Rightarrow> stay\<lparr>sw_state := state2, sw_commitMessage := msg1,
                                      sw_control := Thrown TypeError\<rparr>
                        | Some p \<Rightarrow>
                            (advance ''executing'' msg1)
                              \<lparr>sw_state := state2\<lparr>promptSequence :=
                                  set_status (promptSequence state2)
                                    (case currentPromptIndex state2 of Num i \<Rightarrow> nat i | NaN \<Rightarrow> 0)
                                    in_progress\<rparr>\<rparr>)
                  else (advance ''qa_integration'' ''MVP Builder: All execution prompts completed'')
                         \<lparr>sw_state := state1\<rparr>)
         else stay)
      else if phase state = ''qa_integration'' then
        (if hasPromise textContent ''INTEGRATION_CHECK_COMPLETE''
         then advance ''qa_completeness'' ''MVP Builder: Integration check complete''
         else stay)
      else if phase state = ''qa_completeness'' then
        (if hasPromise textContent ''MVP_READY''
         then advance ''documentation'' ''MVP Builder: MVP readiness verified''
         else stay)
      else if phase state = ''documentation'' then
        (if hasPromise textContent ''DOCUMENTATION_COMPLETE''
         then advance ''complete'' ''MVP Builder: Documentation complete''
         else stay)
      else if phase state = ''complete'' then
        (if hasPromise textContent ''MVP_COMPLETE''
         then (case gitCommit e w (''MVP Builder: MVP COMPLETE '' @ [CHR 0xF0, CHR 0x9F, CHR 0x8E, CHR 0x89]) of
                 (finalHash, w1) \<Rightarrow>
                   stay\<lparr>sw_world := snd (deleteState e w1 directory),
                     sw_logged := [(Info, [CHR 0xF0, CHR 0x9F, CHR 0x8E, CHR 0x89] @ '' MVP Builder completed successfully! Final commit: ''
                        @ (case finalHash of None \<Rightarrow> ''null'' | Some h \<Rightarrow> h))],
                     sw_control := Return\<rparr>)
         else stay)
      else stay)"

text \<open>The prompt for the phase: the second \<^verbatim>\<open>switch\<close> of the handler.\<close>

definition build_prompt :: "'g env \<Rightarrow> 'g world \<Rightarrow> MVPBuilderState \<Rightarrow> string \<Rightarrow> string option" where
  "build_prompt e w state directory =
     (if phase state = ''generating_plan'' then buildPhase1APrompt e w state directory
      else if phase state = ''generating_prompts'' then buildPhase1BPrompt e w state directory
      else if phase state = ''executing'' then buildPhase2Prompt e w state directory
      else if phase state = ''qa_integration'' then buildPhase3APrompt e w state directory
      else if phase state = ''qa_completeness'' then buildPhase3BPrompt e w state directory
      else if phase state = ''documentation'' then buildPhase4Prompt e w state directory
      else if phase state = ''complete'' then Some (buildCompletePrompt e w state)
      else Some ''Unknown phase. Please run /mvp-cancel and restart.'')"

definition status_message :: "MVPBuilderState \<Rightarrow> string" where
  "status_message state =
     ''MVP Builder | Iteration '' @ show_number (currentIteration state) @ ''/''
       @ show_number (maxIterations state) @ '' | Phase: '' @ phase state @
     (if phase state = ''executing''
      then '' | Prompt '' @ show_number (num_succ (currentPromptIndex state)) @ ''/''
             @ show_number (totalPrompts state)
      else [])"

text \<open>
  \<^verbatim>\<open>// Commit changes if advancing\<close>: the state, the world and the log lines after the
  block. The phase moves to \<^verbatim>\<open>nextPhase\<close> inside the block, whether or not git gave a hash.
\<close>

definition commit_changes ::
  "'g env \<Rightarrow> 'g switched \<Rightarrow> MVPBuilderState \<times> 'g world \<times> (level \<times> string) list" where
  "commit_changes e sw =
     (if sw_shouldAdvance sw \<and> sw_commitMessage sw \<noteq> []
      then (case gitCommit e (sw_world sw) (sw_commitMessage sw) of
              (hash, w1) \<Rightarrow>
                if hash \<noteq> None \<and> hash \<noteq> Some []
                then ((sw_state sw)\<lparr>lastCommit := hash, phase := sw_nextPhase sw\<rparr>, w1,
                      [(Info, [CHR 0xF0, CHR 0x9F, CHR 0x93, CHR 0x9D] @ '' Committed: '' @ sw_commitMessage sw
                              @ '' ('' @ the hash @ '')'')])
                else ((sw_state sw)\<lparr>phase := sw_nextPhase sw\<rparr>, w1, []))
      else (sw_state sw, sw_world sw, []))"

text \<open>
  From \<^verbatim>\<open>// Increment iteration\<close> to the end of the handler: count the iteration, save,
  log the status line, build the prompt and send it. A builder that throws leaves the
  state saved and nothing sent.
\<close>

definition commit_and_dispatch ::
  "'g env \<Rightarrow> string \<Rightarrow> 'g switched \<Rightarrow> (level \<times> string) list \<Rightarrow> 'g outcome" where
  "commit_and_dispatch e directory sw logs0 =
     (case commit_changes e sw of
        (state2, w1, logs1) \<Rightarrow>
          (let state3 = state2\<lparr>currentIteration := num_succ (currentIteration state2)\<rparr>;
               w2 = writeState e w1 directory state3;
               statusMsg = status_message state3;
               logs2 = logs0 @ logs1 @ [(Info, statusMsg)]
           in case build_prompt e w2 state3 directory of
                None \<Rightarrow> \<lparr>world_after = w2, logged = logs2, sent = [], rejected = True\<rparr>
              | Some prompt \<Rightarrow>
                  \<lparr>world_after = w2, logged = logs2,
                   sent = [''['' @ statusMsg @ '']\<newline>\<newline>'' @ prompt], rejected = False\<rparr>))"

text \<open>
  The event handler of \<^verbatim>\<open>MVPBuilderPlugin\<close>. \<open>error_text\<close> is the text the engine gives an
  exception of the model when it is interpolated into a log line.
\<close>

definition event_handler ::
  "'g env \<Rightarrow> (exn \<Rightarrow> string) \<Rightarrow> string \<Rightarrow> 'g world \<Rightarrow> string \<Rightarrow> session_reply \<Rightarrow> 'g outcome" where
  "event_handler e error_text directory w event_type reply =
     (let nothing = \<lparr>world_after = w, logged = [], sent = [], rejected = False\<rparr> in
      if event_type \<noteq> ''session.idle'' then nothing
      else (case parseState e w directory of
         None \<Rightarrow> nothing
       | Some state \<Rightarrow>
          if \<not> active state then nothing
          else if num_ge (currentIteration state) (maxIterations state)
          then \<lparr>world_after = snd (deleteState e w directory),
                logged = [(Warn, [CHR 0xE2, CHR 0x9A, CHR 0xA0, CHR 0xEF, CHR 0xB8, CHR 0x8F] @ '' MVP Builder stopped: max iterations (''
                            @ show_number (maxIterations state) @ '') reached'')],
                sent = [], rejected = False\<rparr>
          else
            (let stay = initial_switch state w
             in case reply of
                  Throws err \<Rightarrow>
                    commit_and_dispatch e directory stay
                      [(Warn, ''Could not check session: '' @ err)]
                | Session None \<Rightarrow> commit_and_dispatch e directory stay []
                | Session (Some messages) \<Rightarrow>
                    (case find (\<lambda>m. role m = ''assistant'') (rev messages) of
                       None \<Rightarrow> commit_and_dispatch e directory stay []
                     | Some lastAssistantMsg \<Rightarrow>
                         (let sw = phase_switch e w directory state
                                     (textContent_of lastAssistantMsg)
                          in case sw_control sw of
                               Return \<Rightarrow> \<lparr>world_after = sw_world sw, logged = sw_logged sw,
                                           sent = [], rejected = False\<rparr>
                             | Break \<Rightarrow> commit_and_dispatch e directory sw (sw_logged sw)
                             | Thrown x \<Rightarrow>
                                 commit_and_dispatch e directory sw
                                   (sw_logged sw
                                    @ [(Warn, ''Could not check session: '' @ error_text x)]))))))"

subsection \<open>Notions used in the statements\<close>

text \<open>The text of the last assistant message, when the handler gets to read one.\<close>

definition last_response :: "session_reply \<Rightarrow> string option" where
  "last_response reply =
     (case reply of
        Throws err \<Rightarrow> None
      | Session None \<Rightarrow> None
      | Session (Some messages) \<Rightarrow>
          map_option textContent_of (find (\<lambda>m. role m = ''assistant'') (rev messages)))"

text \<open>The marker the \<^verbatim>\<open>switch\<close> looks for in each phase.\<close>

definition expected_marker :: "string \<Rightarrow> string option" where
  "expected_marker ph =
     (if ph = ''generating_plan'' then Some ''SEQUENCE_PLAN_COMPLETE''
      else if ph = ''generating_prompts'' then Some ''PROMPTS_GENERATED''
      else if ph = ''executing'' then Some ''PROMPT_COMPLETE''
      else if ph = ''qa_integration'' then Some ''INTEGRATION_CHECK_COMPLETE''
      else if ph = ''qa_completeness'' then Some ''MVP_READY''
      else if ph = ''documentation'' then Some ''DOCUMENTATION_COMPLETE''
      else if ph = ''complete'' then Some ''MVP_COMPLETE''
      else None)"

definition signal_detected :: "MVPBuilderState \<Rightarrow> session_reply \<Rightarrow> bool" where
  "signal_detected state reply =
     (case last_response reply of
        None \<Rightarrow> False
      | Some text \<Rightarrow>
          (case expected_marker (phase state) of None \<Rightarrow> False | Some m \<Rightarrow> hasPromise text m))"

text \<open>The line the \<^verbatim>\<open>catch\<close> block logs when \<^verbatim>\<open>client.session.get\<close> has thrown.\<close>

definition catch_log :: "session_reply \<Rightarrow> (level \<times> string) list" where
  "catch_log reply =
     (case reply of Throws err \<Rightarrow> [(Warn, ''Could not check session: '' @ err)] | Session _ \<Rightarrow> [])"

text \<open>
  \<open>c\<close> is the content of the first \<^verbatim>\<open><promise>...</promise>\<close> delimiter of the text: no opening
  tag starts before this one, and no closing tag ends before this one's.
\<close>

definition first_delimiter :: "string \<Rightarrow> string \<Rightarrow> bool" where
  "first_delimiter text c \<longleftrightarrow>
     (\<exists>pre post. text = pre @ ''<promise>'' @ c @ ''</promise>'' @ post
        \<and> \<not> sublist ''<promise>'' (pre @ butlast ''<promise>'')
        \<and> \<not> sublist ''</promise>'' (c @ butlast ''</promise>''))"

text \<open>A one-line string; a prompt entry that \<^verbatim>\<open>parseState\<close> can read back.\<close>

definition no_lt :: "string \<Rightarrow> bool" where
  "no_lt s \<longleftrightarrow> list_all (\<lambda>c. \<not> is_line_terminator c) s"

definition wf_prompt :: "PromptInfo \<Rightarrow> bool" where
  "wf_prompt p \<longleftrightarrow> is_prompt_filename (filename p) \<and> title p \<noteq> [] \<and> no_lt (title p)"

text \<open>
  What a prompt entry and a commit hash are read back as: the check box has no character
  for \<^const>\<open>skipped\<close>, and a missing hash is written as the word \<^verbatim>\<open>null\<close>.
\<close>

definition reread :: "PromptInfo \<Rightarrow> PromptInfo" where
  "reread p = p\<lparr>status := status_of_char (status_char (status p))\<rparr>"

definition reread_commit :: "string option \<Rightarrow> string option" where
  "reread_commit h = (case h of None \<Rightarrow> Some ''null'' | Some x \<Rightarrow> Some (if x = [] then ''null'' else x))"

text \<open>The string fields of the header are one line each.\<close>

definition wf_strings :: "MVPBuilderState \<Rightarrow> bool" where
  "wf_strings st \<longleftrightarrow> no_lt (phase st) \<and> no_lt (startedAt st) \<and> no_lt (instructionsPath st)
     \<and> (case lastCommit st of None \<Rightarrow> True | Some h \<Rightarrow> no_lt h)"

text \<open>The body of the state file, after the closing line of the header.\<close>

definition body_text :: "MVPBuilderState \<Rightarrow> string" where
  "body_text st =
     ''\<newline>## Prompt Sequence\<newline>'' @
     (if promptSequence st = [] then ''No prompts generated yet.''
      else join_with ''\<newline>'' (map prompt_line (promptSequence st))) @
     ''\<newline>\<newline>## Phase Progress\<newline>'' @ phase_progress_text st"

definition no_us :: "string \<Rightarrow> bool" where
  "no_us s \<longleftrightarrow> CHR ''_'' \<notin> set s"

text \<open>
  A well-formed frontmatter block, in the words of the regular expression: three dashes
  and a line break, any text, then a line of three dashes with its line break.
\<close>

definition eol :: "string \<Rightarrow> bool" where
  "eol s \<longleftrightarrow> s = ''\<newline>'' \<or> s = [CHR 0x0D, CHR 0x0A]"

definition well_formed_frontmatter :: "string \<Rightarrow> bool" where
  "well_formed_frontmatter content \<longleftrightarrow>
     (\<exists>e1 fm e2 e3 body. content = ''---'' @ e1 @ fm @ e2 @ ''---'' @ e3 @ body
        \<and> eol e1 \<and> eol e2 \<and> eol e3)"

text \<open>The record the handler saves after the block that commits.\<close>

definition saved_state :: "'g env \<Rightarrow> 'g switched \<Rightarrow> MVPBuilderState" where
  "saved_state e sw =
     (let state2 = fst (commit_changes e sw)
      in state2\<lparr>currentIteration := num_succ (currentIteration state2)\<rparr>)"

definition wf_state :: "MVPBuilderState \<Rightarrow> bool" where
  "wf_state st \<longleftrightarrow> wf_strings st \<and> phase st \<noteq> [] \<and> startedAt st \<noteq> []
     \<and> instructionsPath st \<noteq> [] \<and> list_all wf_prompt (promptSequence st)"

text \<open>The paths a prompt builder may read for a record.\<close>

definition referenced_paths :: "'g env \<Rightarrow> MVPBuilderState \<Rightarrow> string \<Rightarrow> string list" where
  "referenced_paths e st dir =
     (let instructionsPath' = path_join e dir (instructionsPath st) in
      [path_join e instructionsPath' ''project_overview.md'',
       path_join e instructionsPath' ''prompt_sequence_plan.md'']
      @ (case index_opt (promptSequence st) (currentPromptIndex st) of
           None \<Rightarrow> []
         | Some p \<Rightarrow> [path_join e instructionsPath' (filename p)])
      @ map (path_join e dir) (referenceDocs st))"

subsection \<open>The story queue (unnamed part 004, second plugin)\<close>

record UserStory =
  id' :: string
  title' :: string
  description' :: string
  acceptanceCriteria :: "string list"
  priority :: int
  passes :: bool
  notes' :: string

record PRDData =
  project :: string
  branchName :: string
  description :: string
  userStories :: "UserStory list"

text \<open>
  \<^verbatim>\<open>prd.userStories.filter(s => !s.passes).sort((a, b) => a.priority - b.priority)\<close>,
  then \<^verbatim>\<open>pending[0] || null\<close>. \<^verbatim>\<open>Array.prototype.sort\<close> is stable, as \<^const>\<open>sort_key\<close> is;
  a story object is truthy, so the result is \<^verbatim>\<open>null\<close> only for an empty \<^verbatim>\<open>pending\<close>.
\<close>

definition getNextStory :: "PRDData \<Rightarrow> UserStory option" where
  "getNextStory prd =
     (let pending = sort_key priority (filter (\<lambda>s. \<not> passes s) (userStories prd))
      in case pending of [] \<Rightarrow> None | s # _ \<Rightarrow> Some s)"

definition allStoriesPassing :: "PRDData \<Rightarrow> bool" where
  "allStoriesPassing prd = list_all passes (userStories prd)"

text \<open>
  The selection policy in the words of the specification: scan the stories with
  \<open>passes = false\<close>, return the one of minimal priority, the first such in the declared
  order; report completion (here \<^const>\<open>None\<close>) when none remains.
\<close>

definition selectNext_spec :: "UserStory list \<Rightarrow> UserStory option" where
  "selectNext_spec stories =
     (let pending = filter (\<lambda>s. \<not> passes s) stories
      in if pending = [] then None
         else find (\<lambda>s. priority s = Min (priority ` set pending)) pending)"

definition story :: "string \<Rightarrow> int \<Rightarrow> bool \<Rightarrow> UserStory" where
  "story i p b = \<lparr>id' = i, title' = [], description' = [], acceptanceCriteria = [],
     priority = p, passes = b, notes' = []\<rparr>"

subsection \<open>A concrete instance for the examples\<close>

text \<open>
  Collaborators, a workflow record and a world for the closed examples: paths are joined
  with a slash, \<^verbatim>\<open>JSON.parse\<close> decodes the one array the record holds, git has nothing to
  commit and no history, and the only file is the state file of the record.
\<close>

definition demo_JSON_parse :: "string \<Rightarrow> string list option" where
  "demo_JSON_parse s = (if s = JSON_stringify [''docs/api.md''] then Some [''docs/api.md''] else None)"

definition demo_env :: "unit env" where
  "demo_env = \<lparr>path_join = (\<lambda>a b. a @ ''/'' @ b), JSON_parse = demo_JSON_parse,
     Date_getTime = (\<lambda>s. Num 1768550400000),
     toISOString = (\<lambda>t. ''2026-01-16T08:00:00.000Z''),
     git_commit_cmds = (\<lambda>m g. (None, g)), git_log_cmd = (\<lambda>n g. None)\<rparr>"

definition demo_state :: MVPBuilderState where
  "demo_state = \<lparr>active = True, phase = ''executing'', currentPromptIndex = Num 0,
     totalPrompts = Num 2,
     promptSequence = [\<lparr>filename = ''prompt_01.md'', title = ''Setup'', status = in_progress\<rparr>,
                       \<lparr>filename = ''prompt_02.md'', title = ''Schema'', status = pending\<rparr>],
     startedAt = ''2026-01-16T08:00:00.000Z'', lastCommit = Some ''abc1234'',
     instructionsPath = ''instructions'', referenceDocs = [''docs/api.md''],
     maxIterations = Num 100, currentIteration = Num 3\<rparr>"

definition empty_world :: "unit world" where
  "empty_world = \<lparr>fs = Map.empty, git = (), now = 1768554000000\<rparr>"

definition demo_error_text :: "exn \<Rightarrow> string" where
  "demo_error_text x = (case x of TypeError \<Rightarrow> ''TypeError'' | FsError \<Rightarrow> ''Error: ENOTDIR'')"

definition demo_world :: "unit world" where
  "demo_world = writeState demo_env empty_world ''/p'' demo_state"


text \<open>A reply whose last assistant message is the given text; a project with an instructions folder.\<close>

definition demo_reply :: "string \<Rightarrow> session_reply" where
  "demo_reply resp =
     Session (Some [\<lparr>role = ''user'', parts = None\<rparr>,
                    \<lparr>role = ''assistant'',
                     parts = Some [\<lparr>part_type = ''text'', part_text = resp\<rparr>]\<rparr>])"

definition demo_instructions :: "unit world" where
  "demo_instructions =
     empty_world\<lparr>fs := [''/p/instructions'' \<mapsto> Dir [''notes.md'', ''prompt_01.md'']]\<rparr>"

section \<open>Properties\<close>

subsection \<open>Completion detection: the first delimiter\<close>

lemma not_sublist_butlast: "pat \<noteq> [] \<Longrightarrow> \<not> sublist pat (butlast pat)"
  using sublist_length_le [of pat "butlast pat"] by (cases pat) auto

lemma prefix_append_long: "length p \<le> length a \<Longrightarrow> prefix p (a @ b) \<longleftrightarrow> prefix p a"
  by (auto simp: prefix_def append_eq_append_conv2)

lemma prefix_Cons_butlast:
  assumes "pat \<noteq> []"
  shows "prefix pat (c # pre @ pat @ r) \<longleftrightarrow> prefix pat (c # pre @ butlast pat)"
proof -
  have "c # pre @ pat @ r = (c # pre @ butlast pat) @ (last pat # r)"
    using assms by simp
  moreover have "length pat \<le> length (c # pre @ butlast pat)"
    by simp
  ultimately show ?thesis
    by (metis prefix_append_long)
qed

lemma sublist_Cons_butlast:
  assumes "pat \<noteq> []"
  shows "sublist pat ((c # pre) @ butlast pat) \<longleftrightarrow>
     prefix pat (c # pre @ pat @ r) \<or> sublist pat (pre @ butlast pat)"
  using prefix_Cons_butlast [OF assms, of c pre r] by (simp add: sublist_Cons_right)

lemma prefix_not_first:
  assumes "pat \<noteq> []" "prefix pat (c @ pat @ post)" "\<not> sublist pat (c @ butlast pat)"
  shows "c = []"
proof (cases c)
  case Nil then show ?thesis .
next
  case (Cons x c')
  then show ?thesis
    using assms sublist_Cons_butlast [OF assms(1), of x c' post] by simp
qed

lemma before_first_Some_iff:
  assumes "pat \<noteq> []"
  shows "before_first pat s = Some c \<longleftrightarrow>
         (\<exists>post. s = c @ pat @ post \<and> \<not> sublist pat (c @ butlast pat))"
proof (induction s arbitrary: c)
  case Nil
  then show ?case using assms by simp
next
  case (Cons x xs)
  show ?case
  proof (cases "prefix pat (x # xs)")
    case True
    then obtain post where post: "x # xs = pat @ post" by (auto simp: prefix_def)
    have "(\<exists>post. x # xs = c @ pat @ post \<and> \<not> sublist pat (c @ butlast pat)) \<longleftrightarrow> c = []"
    proof
      assume "\<exists>post. x # xs = c @ pat @ post \<and> \<not> sublist pat (c @ butlast pat)"
      then show "c = []" using True prefix_not_first [OF assms] by metis
    next
      assume "c = []"
      then show "\<exists>post. x # xs = c @ pat @ post \<and> \<not> sublist pat (c @ butlast pat)"
        using post not_sublist_butlast [OF assms] by auto
    qed
    then show ?thesis using True by auto
  next
    case False
    have "(\<exists>post. x # xs = c @ pat @ post \<and> \<not> sublist pat (c @ butlast pat)) \<longleftrightarrow>
          (\<exists>c'. c = x # c' \<and> (\<exists>post. xs = c' @ pat @ post \<and> \<not> sublist pat (c' @ butlast pat)))"
      (is "?L \<longleftrightarrow> ?R")
    proof
      assume ?L
      then obtain post where p: "x # xs = c @ pat @ post" "\<not> sublist pat (c @ butlast pat)" by blast
      have "c \<noteq> []" using p(1) False by (auto simp: prefix_def)
      then obtain c' where c: "c = x # c'" using p(1) by (cases c) auto
      then have "xs = c' @ pat @ post" using p(1) by simp
      moreover have "\<not> sublist pat (c' @ butlast pat)"
        using p(2) c sublist_Cons_butlast [OF assms, of x c' post] by simp
      ultimately show ?R using c by blast
    next
      assume ?R
      then obtain c' post where c: "c = x # c'" "xs = c' @ pat @ post"
        "\<not> sublist pat (c' @ butlast pat)" by blast
      have "\<not> prefix pat (x # c' @ pat @ post)" using False c(2) by simp
      then have "\<not> sublist pat (c @ butlast pat)"
        using c sublist_Cons_butlast [OF assms, of x c' post] by simp
      then show ?L using c by auto
    qed
    moreover have "before_first pat (x # xs) = Some c \<longleftrightarrow>
          (\<exists>c'. c = x # c' \<and> before_first pat xs = Some c')"
      using False by auto
    ultimately show ?thesis using Cons.IH by simp
  qed
qed

lemma after_first_Some_iff:
  assumes "pat \<noteq> []"
  shows "after_first pat s = Some r \<longleftrightarrow>
         (\<exists>pre. s = pre @ pat @ r \<and> \<not> sublist pat (pre @ butlast pat))"
proof (induction s)
  case Nil
  then show ?case using assms by simp
next
  case (Cons x xs)
  show ?case
  proof (cases "prefix pat (x # xs)")
    case True
    have "(\<exists>pre. x # xs = pre @ pat @ r \<and> \<not> sublist pat (pre @ butlast pat)) \<longleftrightarrow>
          x # xs = pat @ r"
      using True prefix_not_first [OF assms] not_sublist_butlast [OF assms]
      by (metis append_Nil)
    moreover have "x # xs = pat @ r \<longleftrightarrow> drop (length pat) (x # xs) = r"
      using True by (auto simp: prefix_def)
    ultimately show ?thesis using True by auto
  next
    case False
    have "(\<exists>pre. x # xs = pre @ pat @ r \<and> \<not> sublist pat (pre @ butlast pat)) \<longleftrightarrow>
          (\<exists>pre'. xs = pre' @ pat @ r \<and> \<not> sublist pat (pre' @ butlast pat))"
      (is "?L \<longleftrightarrow> ?R")
    proof
      assume ?L
      then obtain pre where p: "x # xs = pre @ pat @ r" "\<not> sublist pat (pre @ butlast pat)" by blast
      have "pre \<noteq> []" using p(1) False by (auto simp: prefix_def)
      then obtain pre' where c: "pre = x # pre'" using p(1) by (cases pre) auto
      then have "xs = pre' @ pat @ r" using p(1) by simp
      moreover have "\<not> sublist pat (pre' @ butlast pat)"
        using p(2) c sublist_Cons_butlast [OF assms, of x pre' r] by simp
      ultimately show ?R by blast
    next
      assume ?R
      then obtain pre' where c: "xs = pre' @ pat @ r" "\<not> sublist pat (pre' @ butlast pat)" by blast
      have "\<not> prefix pat (x # pre' @ pat @ r)" using False c(1) by simp
      then have "\<not> sublist pat ((x # pre') @ butlast pat)"
        using c sublist_Cons_butlast [OF assms, of x pre' r] by simp
      then show ?L using c(1) by (metis append_Cons)
    qed
    then show ?thesis using False Cons.IH by auto
  qed
qed

subsection \<open>Reading back what writeState wrote\<close>

lemma no_lt_simps [simp]:
  "no_lt []" "no_lt (c # s) \<longleftrightarrow> \<not> is_line_terminator c \<and> no_lt s"
  "no_lt (a @ b) \<longleftrightarrow> no_lt a \<and> no_lt b"
  by (simp_all add: no_lt_def)

lemma is_line_terminator_Char [simp]:
  "is_line_terminator (Char a b c d e f g h) \<longleftrightarrow>
     Char a b c d e f g h = CHR 0x0A \<or> Char a b c d e f g h = CHR 0x0D"
  by (simp add: is_line_terminator_def)

lemma is_space_Char [simp]:
  "is_space (Char a b c d e f g h) \<longleftrightarrow>
     Char a b c d e f g h \<in> set [CHR 0x09, CHR 0x0A, CHR 0x0B, CHR 0x0C, CHR 0x0D, CHR 0x20, CHR 0xA0]"
  by (simp add: is_space_def)

lemma is_digit_Char [simp]:
  "is_digit (Char a b c d e f g h) \<longleftrightarrow> Char a b c d e f g h \<in> set ''0123456789''"
  by (simp add: is_digit_def)

lemma is_quote_Char [simp]:
  "is_quote (Char a b c d e f g h) \<longleftrightarrow>
     Char a b c d e f g h = CHR 0x22 \<or> Char a b c d e f g h = CHR 0x27"
  by (simp add: is_quote_def)

lemma find_line_start_skip:
  "no_lt l \<Longrightarrow> find_line_start p False (l @ rest) = find_line_start p False rest"
  by (induction l) simp_all

lemma takeWhile_no_lt:
  "no_lt l \<Longrightarrow> takeWhile (\<lambda>c. \<not> is_line_terminator c) (l @ CHR 0x0A # rest) = l"
  by (induction l) simp_all

lemma takeWhile_no_lt_end:
  "no_lt l \<Longrightarrow> takeWhile (\<lambda>c. \<not> is_line_terminator c) l = l"
  by (induction l) simp_all

lemma show_nat_digits: "list_all is_digit (show_nat n) \<and> show_nat n \<noteq> []"
proof (induction n rule: show_nat.induct)
  case (1 n)
  have d: "\<And>k. k < 10 \<Longrightarrow> is_digit (digit_char k)"
  proof -
    fix k :: nat assume "k < 10"
    then have "k \<in> {0,1,2,3,4,5,6,7,8,9}" by auto
    then show "is_digit (digit_char k)"
      by (auto simp: is_digit_def digit_char_def)
  qed
  show ?case
  proof (cases "n < 10")
    case True
    then show ?thesis by (subst show_nat.simps, subst show_nat.simps) (simp add: d)
  next
    case False
    then show ?thesis using 1 by (subst show_nat.simps, subst show_nat.simps) (simp add: d)
  qed
qed

lemma is_digit_not_lt: "is_digit c \<Longrightarrow> \<not> is_line_terminator c"
  by (auto simp: is_digit_def is_line_terminator_def)

lemma list_all_digit_no_lt: "list_all is_digit s \<Longrightarrow> no_lt s"
  by (induction s) (auto simp: is_digit_not_lt)

lemma no_lt_show_number [simp]: "no_lt (show_number n)"
  by (cases n) (auto simp: show_int_def list_all_digit_no_lt show_nat_digits)

lemma no_lt_show_bool [simp]: "no_lt (show_bool b)"
  by (simp add: show_bool_def)


lemma digit_val_digit_char: "k < 10 \<Longrightarrow> digit_val (digit_char k) = k"
proof -
  assume "k < 10"
  then have "k \<in> {0,1,2,3,4,5,6,7,8,9}" by auto
  then show ?thesis by (auto simp: digit_val_def digit_char_def)
qed

lemma digits_val_snoc: "digits_val (ds @ [c]) = 10 * digits_val ds + digit_val c"
  by (simp add: digits_val_def)

lemma digits_val_show_nat: "digits_val (show_nat n) = n"
proof (induction n rule: show_nat.induct)
  case (1 n)
  show ?case
  proof (cases "n < 10")
    case True
    then show ?thesis
      by (subst show_nat.simps) (simp add: digits_val_def digit_val_digit_char)
  next
    case False
    then have "digits_val (show_nat n) = 10 * digits_val (show_nat (n div 10)) + digit_val (digit_char (n mod 10))"
      by (subst show_nat.simps) (simp add: digits_val_snoc)
    then show ?thesis using 1 False by (simp add: digit_val_digit_char)
  qed
qed

lemma takeWhile_all: "list_all P xs \<Longrightarrow> takeWhile P xs = xs"
  by (induction xs) auto

lemma show_nat_hd_digit: "is_digit (hd (show_nat n))"
  using show_nat_digits [of n] by (cases "show_nat n") auto

lemma is_digit_not_space: "is_digit c \<Longrightarrow> \<not> is_space c"
  by (auto simp: is_digit_def is_space_def)

lemma parseInt_show_number [simp]: "parseInt (show_number n) = n"
proof (cases n)
  case NaN
  then show ?thesis by (simp add: parseInt_def is_space_def is_digit_def)
next
  case (Num i)
  obtain d ds where ds: "show_nat (nat \<bar>i\<bar>) = d # ds"
    using show_nat_digits [of "nat \<bar>i\<bar>"] by (cases "show_nat (nat \<bar>i\<bar>)") auto
  have dig: "is_digit d" "list_all is_digit ds"
    using show_nat_digits [of "nat \<bar>i\<bar>"] ds by auto
  have val: "digits_val (d # ds) = nat \<bar>i\<bar>"
    using digits_val_show_nat [of "nat \<bar>i\<bar>"] ds by simp
  have nd: "d \<noteq> CHR ''-''" "d \<noteq> CHR ''+''" "\<not> is_space d"
    using dig(1) by (auto simp: is_digit_def is_space_def)
  show ?thesis
  proof (cases "i < 0")
    case True
    then have "show_number n = CHR ''-'' # d # ds"
      using Num ds by (simp add: show_int_def)
    then show ?thesis
      using True Num dig val
      by (simp add: parseInt_def is_space_def takeWhile_all Let_def)
  next
    case False
    then have "show_number n = d # ds"
      using Num ds by (simp add: show_int_def)
    then show ?thesis
      using False Num dig val nd
      by (simp add: parseInt_def takeWhile_all Let_def)
  qed
qed

lemma json_escape_no_lt: "no_lt (json_escape c)"
proof -
  have h: "\<And>k. k < 16 \<Longrightarrow> \<not> is_line_terminator (hex_digit k)"
  proof -
    fix k :: nat assume "k < 16"
    then have "k = 0 \<or> k = 1 \<or> k = 2 \<or> k = 3 \<or> k = 4 \<or> k = 5 \<or> k = 6 \<or> k = 7 \<or> k = 8
        \<or> k = 9 \<or> k = 10 \<or> k = 11 \<or> k = 12 \<or> k = 13 \<or> k = 14 \<or> k = 15" by arith
    then show "\<not> is_line_terminator (hex_digit k)"
      by (auto simp: hex_digit_def)
  qed
  have "(of_char c :: nat) < 32 \<Longrightarrow> \<not> is_line_terminator (hex_digit (of_char c div 16))"
    by (rule h) simp
  moreover have "\<not> is_line_terminator (hex_digit (of_char c mod 16))"
    by (rule h) simp
  ultimately show ?thesis
    by (auto simp: json_escape_def is_line_terminator_def)
qed

lemma no_lt_concat: "(\<And>x. x \<in> set xs \<Longrightarrow> no_lt x) \<Longrightarrow> no_lt (concat xs)"
  by (induction xs) auto

lemma no_lt_json_quote: "no_lt (json_quote s)"
  by (auto simp: json_quote_def json_escape_no_lt intro!: no_lt_concat)

lemma no_lt_join_with: "no_lt sep \<Longrightarrow> (\<And>x. x \<in> set xs \<Longrightarrow> no_lt x) \<Longrightarrow> no_lt (join_with sep xs)"
  by (induction sep xs rule: join_with.induct) auto

lemma no_lt_JSON_stringify [simp]: "no_lt (JSON_stringify xs)"
  by (auto simp: JSON_stringify_def no_lt_json_quote intro!: no_lt_join_with)

lemma JSON_stringify_shape: "\<exists>r. JSON_stringify xs = CHR ''['' # r"
  by (simp add: JSON_stringify_def)

lemma dropWhile_space_keep: "s \<noteq> [] \<Longrightarrow> \<not> is_space (hd s) \<Longrightarrow> dropWhile is_space (s @ rest) = s @ rest"
  by (cases s) auto

lemma dropWhile_space_keep_end: "s \<noteq> [] \<Longrightarrow> \<not> is_space (hd s) \<Longrightarrow> dropWhile is_space s = s"
  by (cases s) auto

lemma show_number_hd: "show_number n \<noteq> [] \<and> \<not> is_space (hd (show_number n)) \<and> \<not> is_quote (hd (show_number n))"
proof (cases n)
  case NaN
  then show ?thesis by simp
next
  case (Num i)
  have "is_digit (hd (show_nat k))" "show_nat k \<noteq> []" for k
    using show_nat_hd_digit show_nat_digits by auto
  moreover have "is_digit c \<Longrightarrow> \<not> is_space c \<and> \<not> is_quote c" for c
    by (auto simp: is_digit_def is_space_def is_quote_def)
  ultimately show ?thesis using Num
    by (auto simp: show_int_def is_space_def is_quote_def)
qed

lemma strip_quotes_unquoted: "s \<noteq> [] \<Longrightarrow> \<not> is_quote (hd s) \<Longrightarrow> strip_quotes s = s"
  by (simp add: strip_quotes_def)

lemma strip_quotes_quoted: "no_lt s \<Longrightarrow> strip_quotes (CHR 0x22 # s @ [CHR 0x22]) = s"
  by (simp add: strip_quotes_def no_lt_def)

lemma last_commit_no_lt:
  "wf_strings st \<Longrightarrow> no_lt (case lastCommit st of None \<Rightarrow> ''null''
        | Some h \<Rightarrow> if h = [] then ''null'' else [CHR 0x22] @ h @ [CHR 0x22])"
  by (auto simp: wf_strings_def split: option.splits)

lemma takeWhile_no_lt_app:
  "no_lt l \<Longrightarrow> takeWhile (\<lambda>c. \<not> is_line_terminator c) (l @ rest)
     = l @ takeWhile (\<lambda>c. \<not> is_line_terminator c) rest"
  by (induction l) simp_all

named_theorems fm_eval

lemmas [fm_eval] = getValue_def frontmatter_text_def find_line_start_skip
  dropWhile_space_keep dropWhile_space_keep_end takeWhile_no_lt_app takeWhile_no_lt_end strip_quotes_unquoted
  strip_quotes_quoted

lemma getValue_active:
  "getValue ''active'' (frontmatter_text st) = Some (show_bool (active st))"
  by (simp add: fm_eval show_bool_def)

lemma getValue_phase:
  assumes "wf_strings st"
  shows "getValue ''phase'' (frontmatter_text st) = Some (phase st)"
proof -
  have nl: "no_lt (phase st)" using assms by (simp add: wf_strings_def)
  have "strip_quotes (CHR 0x22 # phase st @ [CHR 0x22]) = phase st"
    using nl by (rule strip_quotes_quoted)
  then show ?thesis using nl by (simp add: fm_eval)
qed

lemma getValue_current_prompt_index:
  assumes "wf_strings st"
  shows "getValue ''current_prompt_index'' (frontmatter_text st)
         = Some (show_number (currentPromptIndex st))"
proof -
  have nl: "no_lt (phase st)" using assms by (simp add: wf_strings_def)
  show ?thesis
    using nl show_number_hd [of "currentPromptIndex st"] by (simp add: fm_eval)
qed

lemma getValue_total_prompts:
  assumes "wf_strings st"
  shows "getValue ''total_prompts'' (frontmatter_text st) = Some (show_number (totalPrompts st))"
proof -
  have nl: "no_lt (phase st)" using assms by (simp add: wf_strings_def)
  show ?thesis
    using nl show_number_hd [of "totalPrompts st"] by (simp add: fm_eval)
qed

lemma getValue_started_at:
  assumes "wf_strings st"
  shows "getValue ''started_at'' (frontmatter_text st) = Some (startedAt st)"
proof -
  have nl: "no_lt (phase st)" "no_lt (startedAt st)" using assms by (simp_all add: wf_strings_def)
  have "strip_quotes (CHR 0x22 # startedAt st @ [CHR 0x22]) = startedAt st"
    using nl by (simp add: strip_quotes_quoted)
  then show ?thesis using nl by (simp add: fm_eval)
qed

lemma getValue_last_commit:
  assumes "wf_strings st" "lastCommit st = Some h" "h \<noteq> []"
  shows "getValue ''last_commit'' (frontmatter_text st) = Some h"
proof -
  have nl: "no_lt (phase st)" "no_lt (startedAt st)" "no_lt h"
    using assms by (simp_all add: wf_strings_def)
  have "strip_quotes (CHR 0x22 # h @ [CHR 0x22]) = h"
    using nl by (simp add: strip_quotes_quoted)
  then show ?thesis using nl assms(2,3) by (simp add: fm_eval)
qed

lemma getValue_last_commit_null:
  assumes "wf_strings st" "lastCommit st = None \<or> lastCommit st = Some []"
  shows "getValue ''last_commit'' (frontmatter_text st) = Some ''null''"
proof -
  have nl: "no_lt (phase st)" "no_lt (startedAt st)"
    using assms by (simp_all add: wf_strings_def)
  have "strip_quotes ''null'' = ''null''" by (simp add: strip_quotes_def)
  then show ?thesis using nl assms(2) by (auto simp add: fm_eval)
qed

lemma getValue_instructions_path:
  assumes "wf_strings st"
  shows "getValue ''instructions_path'' (frontmatter_text st) = Some (instructionsPath st)"
proof -
  have nl: "no_lt (phase st)" "no_lt (startedAt st)" "no_lt (instructionsPath st)"
    using assms by (simp_all add: wf_strings_def)
  note lc = last_commit_no_lt [OF assms]
  have "strip_quotes (CHR 0x22 # instructionsPath st @ [CHR 0x22]) = instructionsPath st"
    using nl by (simp add: strip_quotes_quoted)
  then show ?thesis using nl lc by (simp add: fm_eval)
qed

lemma JSON_stringify_hd:
  "JSON_stringify xs \<noteq> [] \<and> \<not> is_space (hd (JSON_stringify xs)) \<and> \<not> is_quote (hd (JSON_stringify xs))"
  by (simp add: JSON_stringify_def)

lemma getValue_reference_docs:
  assumes "wf_strings st"
  shows "getValue ''reference_docs'' (frontmatter_text st) = Some (JSON_stringify (referenceDocs st))"
proof -
  have nl: "no_lt (phase st)" "no_lt (startedAt st)" "no_lt (instructionsPath st)"
    using assms by (simp_all add: wf_strings_def)
  note lc = last_commit_no_lt [OF assms]
  show ?thesis
    using nl lc JSON_stringify_hd [of "referenceDocs st"] by (simp add: fm_eval)
qed

lemma getValue_max_iterations:
  assumes "wf_strings st"
  shows "getValue ''max_iterations'' (frontmatter_text st) = Some (show_number (maxIterations st))"
proof -
  have nl: "no_lt (phase st)" "no_lt (startedAt st)" "no_lt (instructionsPath st)"
    using assms by (simp_all add: wf_strings_def)
  note lc = last_commit_no_lt [OF assms]
  show ?thesis
    using nl lc show_number_hd [of "maxIterations st"] by (simp add: fm_eval)
qed

lemma getValue_current_iteration:
  assumes "wf_strings st"
  shows "getValue ''current_iteration'' (frontmatter_text st)
         = Some (show_number (currentIteration st))"
proof -
  have nl: "no_lt (phase st)" "no_lt (startedAt st)" "no_lt (instructionsPath st)"
    using assms by (simp_all add: wf_strings_def)
  note lc = last_commit_no_lt [OF assms]
  show ?thesis
    using nl lc show_number_hd [of "currentIteration st"] by (simp add: fm_eval)
qed

lemma split_frontmatter_skip:
  "no_lt l \<Longrightarrow> split_frontmatter (l @ rest) = map_option (\<lambda>(f, b). (l @ f, b)) (split_frontmatter rest)"
proof (induction l)
  case Nil
  then show ?case by (simp add: option.map_ident split_def)
next
  case (Cons c l)
  then have "match_fm_close (c # l @ rest) = None"
    by (simp add: match_fm_close_def match_eol_def is_line_terminator_def)
  then show ?case using Cons by (simp add: option.map_comp comp_def split_def)
qed

lemma split_frontmatter_text:
  assumes "wf_strings st"
  shows "split_frontmatter (frontmatter_text st @ ''\<newline>---\<newline>'' @ body)
         = Some (frontmatter_text st, body)"
proof -
  have nl: "no_lt (phase st)" "no_lt (startedAt st)" "no_lt (instructionsPath st)"
    using assms by (simp_all add: wf_strings_def)
  note lc = last_commit_no_lt [OF assms]
  show ?thesis
    using nl lc
    by (simp add: frontmatter_text_def split_frontmatter_skip match_fm_close_def match_eol_def
        strip_prefix_def)
qed

lemma takeWhile_digits:
  "list_all is_digit ds \<Longrightarrow> \<not> is_digit c \<Longrightarrow> takeWhile is_digit (ds @ c # rest) = ds"
  by (induction ds) auto

lemma dropWhile_digits:
  "list_all is_digit ds \<Longrightarrow> \<not> is_digit c \<Longrightarrow> dropWhile is_digit (ds @ c # rest) = c # rest"
  by (induction ds) auto

lemma prompt_filename_shape:
  assumes "is_prompt_filename f"
  obtains ds where "f = ''prompt_'' @ ds @ ''.md''" "list_all is_digit ds" "ds \<noteq> []"
proof -
  from assms obtain r where r: "f = ''prompt_'' @ r" "takeWhile is_digit r \<noteq> []"
      "dropWhile is_digit r = ''.md''"
    by (auto simp: is_prompt_filename_def strip_prefix_def prefix_def split: option.splits if_splits)
  have "r = takeWhile is_digit r @ ''.md''"
    using r(3) takeWhile_dropWhile_id [of is_digit r] by simp
  moreover have "list_all is_digit (takeWhile is_digit r)"
    by (simp add: list_all_iff) (meson set_takeWhileD)
  ultimately show ?thesis using r that by metis
qed

lemma status_char_cases: "status_char s \<in> set '' x/''"
  by (cases s) (simp_all add: status_char_def)

lemma status_char_no_lt: "\<not> is_line_terminator (status_char s)"
  by (cases s) (simp_all add: status_char_def)

lemma match_prompt_line_written:
  assumes "wf_prompt p" "rest = [] \<or> is_line_terminator (hd rest)"
  shows "match_prompt_line (prompt_line p @ rest) = Some (reread p)"
proof -
  from assms(1) obtain ds where ds: "filename p = ''prompt_'' @ ds @ ''.md''"
      "list_all is_digit ds" "ds \<noteq> []"
    by (auto simp: wf_prompt_def elim: prompt_filename_shape)
  have t: "title p \<noteq> []" "no_lt (title p)" using assms(1) by (simp_all add: wf_prompt_def)
  have tw: "takeWhile (\<lambda>c. \<not> is_line_terminator c) (title p @ rest) = title p"
    using t(2) assms(2) by (cases rest) (simp_all add: takeWhile_no_lt_app takeWhile_no_lt_end)
  have td: "takeWhile is_digit (ds @ ''.md - '' @ title p @ rest) = ds"
    using takeWhile_digits [OF ds(2), of "CHR ''.''"] by simp
  have dd: "dropWhile is_digit (ds @ ''.md - '' @ title p @ rest) = ''.md - '' @ title p @ rest"
    using dropWhile_digits [OF ds(2), of "CHR ''.''"] by simp
  have "reread p = \<lparr>filename = ''prompt_'' @ ds @ ''.md'', title = title p,
          status = status_of_char (status_char (status p))\<rparr>"
    using ds(1) by (cases p) (simp add: reread_def)
  then show ?thesis
    using status_char_cases [of "status p"] ds t tw td dd
    by (simp add: match_prompt_line_def prompt_line_def strip_prefix_def Let_def)
qed

lemma scan_skip: "no_lt l \<Longrightarrow> scan_prompt_lines True (l @ rest) = scan_prompt_lines True rest"
  by (induction l) simp_all

lemma scan_True_at_break:
  "rest = [] \<or> is_line_terminator (hd rest) \<Longrightarrow>
   scan_prompt_lines True rest = scan_prompt_lines False rest"
  by (cases rest) auto

lemma no_lt_prompt_line: "wf_prompt p \<Longrightarrow> no_lt (prompt_line p)"
  by (auto simp: wf_prompt_def prompt_line_def status_char_no_lt
      elim!: prompt_filename_shape intro: list_all_digit_no_lt)

lemma scan_prompt_line:
  assumes "wf_prompt p" "rest = [] \<or> is_line_terminator (hd rest)"
  shows "scan_prompt_lines False (prompt_line p @ rest) = reread p # scan_prompt_lines False rest"
proof -
  obtain l where l: "prompt_line p = CHR ''-'' # l" by (simp add: prompt_line_def)
  have nl: "no_lt l" using no_lt_prompt_line [OF assms(1)] l by simp
  have "scan_prompt_lines False (CHR ''-'' # l @ rest) = reread p # scan_prompt_lines True (l @ rest)"
    using match_prompt_line_written [OF assms] l by simp
  also have "scan_prompt_lines True (l @ rest) = scan_prompt_lines False rest"
    using nl assms(2) by (simp add: scan_skip scan_True_at_break)
  finally show ?thesis using l by simp
qed

lemma match_prompt_line_dash: "match_prompt_line (c # s) = Some p \<Longrightarrow> c = CHR ''-''"
  by (auto simp: match_prompt_line_def strip_prefix_def split: option.splits if_splits)

lemma scan_no_dash:
  "CHR ''-'' \<notin> set l \<Longrightarrow> scan_prompt_lines False (l @ rest) = scan_prompt_lines False rest"
proof (induction l)
  case Nil
  then show ?case by simp
next
  case (Cons c l)
  then have "match_prompt_line (c # l @ rest) = None"
    using match_prompt_line_dash [of c "l @ rest"] by (cases "match_prompt_line (c # l @ rest)") auto
  then show ?case using Cons by simp
qed

lemma match_prompt_line_underscore: "match_prompt_line s = Some p \<Longrightarrow> CHR ''_'' \<in> set s"
  by (auto simp: match_prompt_line_def strip_prefix_def prefix_def Let_def
      split: option.splits if_splits list.splits)

lemma scan_no_underscore: "CHR ''_'' \<notin> set s \<Longrightarrow> scan_prompt_lines b s = []"
proof (induction s arbitrary: b)
  case Nil
  then show ?case by simp
next
  case (Cons c s)
  then have "match_prompt_line (c # s) = None"
    using match_prompt_line_underscore [of "c # s"] by (cases "match_prompt_line (c # s)") auto
  then show ?case using Cons by simp
qed

lemma scan_joined:
  assumes "ps \<noteq> []" "list_all wf_prompt ps"
  shows "scan_prompt_lines False (join_with ''\<newline>'' (map prompt_line ps) @ CHR 0x0A # tail)
         = map reread ps @ scan_prompt_lines False tail"
  using assms
proof (induction ps rule: list_nonempty_induct)
  case (single p)
  then show ?case
    using scan_prompt_line [of p "CHR 0x0A # tail"] by simp
next
  case (cons p ps)
  then obtain q qs where q: "ps = q # qs" by (cases ps) auto
  have "scan_prompt_lines False (prompt_line p @ (CHR 0x0A # join_with ''\<newline>'' (map prompt_line ps) @ CHR 0x0A # tail))
        = reread p # scan_prompt_lines False (CHR 0x0A # join_with ''\<newline>'' (map prompt_line ps) @ CHR 0x0A # tail)"
    using cons.prems by (intro scan_prompt_line) simp_all
  then show ?case using cons q by simp
qed

lemma no_us_append: "no_us a \<Longrightarrow> no_us b \<Longrightarrow> no_us (a @ b)"
  by (simp add: no_us_def)

lemma no_us_if: "no_us a \<Longrightarrow> no_us b \<Longrightarrow> no_us (if c then a else b)"
  by simp

lemma no_us_show_number: "no_us (show_number n)"
proof -
  have "c \<in> set (show_nat k) \<Longrightarrow> is_digit c" for c k
    using show_nat_digits [of k] by (simp add: list_all_iff)
  then have "CHR ''_'' \<notin> set (show_nat k)" for k
    by (auto simp: is_digit_def)
  then show ?thesis
    by (cases n) (auto simp: no_us_def show_int_def)
qed

lemma no_us_phase_progress: "no_us (phase_progress_text st)"
  unfolding phase_progress_text_def
  by (intro no_us_append no_us_if no_us_show_number; simp add: no_us_def)

lemma join_prompt_lines_nonempty: "ps \<noteq> [] \<Longrightarrow> join_with sep (map prompt_line ps) \<noteq> []"
  by (cases ps; cases "tl ps") (auto simp: prompt_line_def)

lemma state_text_split:
  "state_text st = ''---\<newline>'' @ frontmatter_text st @ ''\<newline>---\<newline>'' @ body_text st"
proof (cases "promptSequence st = []")
  case True
  then show ?thesis by (simp add: state_text_def body_text_def)
next
  case False
  then show ?thesis
    using join_prompt_lines_nonempty [OF False, of "''\<newline>''"]
    by (simp add: state_text_def body_text_def Let_def)
qed

lemma scan_body_text:
  assumes "list_all wf_prompt (promptSequence st)"
  shows "scan_prompt_lines False (body_text st) = map reread (promptSequence st)"
proof -
  let ?tail = "''\<newline>## Phase Progress\<newline>'' @ phase_progress_text st"
  have tail: "scan_prompt_lines False ?tail = []"
    using no_us_phase_progress [of st] by (intro scan_no_underscore) (simp add: no_us_def)
  have head: "scan_prompt_lines False (''\<newline>## Prompt Sequence\<newline>'' @ r) = scan_prompt_lines False r" for r
    by (rule scan_no_dash) simp
  show ?thesis
  proof (cases "promptSequence st = []")
    case True
    have "scan_prompt_lines False (''No prompts generated yet.'' @ CHR 0x0A # ?tail) = []"
      using no_us_phase_progress [of st] by (intro scan_no_underscore) (simp add: no_us_def)
    then show ?thesis
      using True head [of "''No prompts generated yet.'' @ CHR 0x0A # ?tail"]
      by (simp add: body_text_def)
  next
    case False
    have "scan_prompt_lines False
            (join_with ''\<newline>'' (map prompt_line (promptSequence st)) @ CHR 0x0A # ?tail)
          = map reread (promptSequence st) @ scan_prompt_lines False ?tail"
      using False assms by (rule scan_joined)
    then show ?thesis
      using False tail
        head [of "join_with ''\<newline>'' (map prompt_line (promptSequence st)) @ CHR 0x0A # ?tail"]
      by (simp add: body_text_def)
  qed
qed

lemma match_frontmatter_state_text:
  assumes "wf_strings st"
  shows "match_frontmatter (state_text st) = Some (frontmatter_text st, body_text st)"
  using split_frontmatter_text [OF assms, of "body_text st"]
  by (simp add: state_text_split match_frontmatter_def strip_prefix_def match_eol_def)

lemma show_bool_true_iff: "show_bool b = ''true'' \<longleftrightarrow> b"
  by (simp add: show_bool_def)

lemma or_else_Some: "s \<noteq> [] \<Longrightarrow> or_else (Some s) d = s"
  by (simp add: or_else_def)

lemma show_number_nonempty: "show_number n \<noteq> []"
  using show_number_hd [of n] by simp

lemma getArrayValue_written:
  assumes "wf_strings st"
    "referenceDocs st = [] \<or> JSON_parse e (JSON_stringify (referenceDocs st)) = Some (referenceDocs st)"
  shows "getArrayValue e ''reference_docs'' (frontmatter_text st) = referenceDocs st"
proof -
  have "JSON_stringify (referenceDocs st) = ''[]'' \<Longrightarrow> referenceDocs st = []"
    by (cases "referenceDocs st"; cases "tl (referenceDocs st)")
       (auto simp: JSON_stringify_def json_quote_def)
  moreover have "JSON_stringify [] = ''[]''" by (simp add: JSON_stringify_def)
  ultimately show ?thesis
    using assms JSON_stringify_hd [of "referenceDocs st"]
    by (auto simp: getArrayValue_def getValue_reference_docs)
qed

lemma getValue_last_commit_reread:
  assumes "wf_strings st"
  shows "getValue ''last_commit'' (frontmatter_text st) = reread_commit (lastCommit st)"
proof (cases "lastCommit st")
  case None
  then show ?thesis using getValue_last_commit_null [OF assms] by (simp add: reread_commit_def)
next
  case (Some h)
  then show ?thesis
    using getValue_last_commit_null [OF assms] getValue_last_commit [OF assms Some]
    by (cases "h = []") (simp_all add: reread_commit_def)
qed

text \<open>
  What \<^const>\<open>parseState\<close> reads from the file \<^const>\<open>writeState\<close> has written, when the header's
  strings are non-empty single lines.
\<close>

lemma parseState_writeState_fields:
  assumes ws: "wf_strings st"
    and ne: "phase st \<noteq> []" "startedAt st \<noteq> []" "instructionsPath st \<noteq> []"
    and js: "referenceDocs st = []
             \<or> JSON_parse e (JSON_stringify (referenceDocs st)) = Some (referenceDocs st)"
  shows "parseState e (writeState e w directory st) directory
         = Some (st\<lparr>promptSequence := scan_prompt_lines False (body_text st),
                     lastCommit := reread_commit (lastCommit st)\<rparr>)"
proof -
  have "parseState e (writeState e w directory st) directory
        = Some \<lparr>active = active st, phase = phase st,
            currentPromptIndex = currentPromptIndex st, totalPrompts = totalPrompts st,
            promptSequence = scan_prompt_lines False (body_text st), startedAt = startedAt st,
            lastCommit = reread_commit (lastCommit st), instructionsPath = instructionsPath st,
            referenceDocs = referenceDocs st, maxIterations = maxIterations st,
            currentIteration = currentIteration st\<rparr>"
    using ne
    by (simp add: parseState_def writeState_def existsSync_def readFileSync_def
        match_frontmatter_state_text [OF ws]
        getValue_active getValue_phase [OF ws] getValue_current_prompt_index [OF ws]
        getValue_total_prompts [OF ws] getValue_started_at [OF ws]
        getValue_last_commit_reread [OF ws] getValue_instructions_path [OF ws]
        getArrayValue_written [OF ws js] getValue_max_iterations [OF ws]
        getValue_current_iteration [OF ws] or_else_Some show_number_nonempty
        show_bool_true_iff)
  then show ?thesis by (cases st) simp
qed

lemma map_reread_id: "list_all (\<lambda>p. status p \<noteq> skipped) ps \<Longrightarrow> map reread ps = ps"
proof (induction ps)
  case Nil
  then show ?case by simp
next
  case (Cons p ps)
  then have "reread p = p"
    by (cases p; cases "status p") (simp_all add: reread_def status_of_char_def status_char_def)
  then show ?case using Cons by simp
qed

subsection \<open>The event handler\<close>

lemma match_promise_iff: "match_promise resp = Some c \<longleftrightarrow> first_delimiter resp c"
proof -
  have "match_promise resp = Some c \<longleftrightarrow>
        (\<exists>rest. after_first ''<promise>'' resp = Some rest \<and> before_first ''</promise>'' rest = Some c)"
    by (simp add: match_promise_def split: option.splits)
  also have "\<dots> \<longleftrightarrow> first_delimiter resp c"
    unfolding first_delimiter_def
    by (subst after_first_Some_iff, simp, subst before_first_Some_iff, simp) blast
  finally show ?thesis .
qed

lemma hasPromise_iff: "hasPromise resp p \<longleftrightarrow> (\<exists>c. first_delimiter resp c \<and> trim c = p)"
  by (auto simp: hasPromise_def match_promise_iff [symmetric] split: option.splits)

lemma phase_cases [case_names plan prompts executing integration completeness documentation
    complete unknown]:
  obtains "phase st = ''generating_plan''" | "phase st = ''generating_prompts''"
  | "phase st = ''executing''" | "phase st = ''qa_integration''"
  | "phase st = ''qa_completeness''" | "phase st = ''documentation''"
  | "phase st = ''complete''"
  | "phase st \<noteq> ''generating_plan''" "phase st \<noteq> ''generating_prompts''"
    "phase st \<noteq> ''executing''" "phase st \<noteq> ''qa_integration''"
    "phase st \<noteq> ''qa_completeness''" "phase st \<noteq> ''documentation''"
    "phase st \<noteq> ''complete''"
  by blast

lemma phase_switch_no_signal:
  assumes "\<And>m. expected_marker (phase st) = Some m \<Longrightarrow> \<not> hasPromise resp m"
  shows "phase_switch e w dir st resp = initial_switch st w"
proof (cases st rule: phase_cases)
  case plan
  then show ?thesis using assms [of "''SEQUENCE_PLAN_COMPLETE''"]
    by (simp add: phase_switch_def expected_marker_def Let_def)
next
  case prompts
  then show ?thesis using assms [of "''PROMPTS_GENERATED''"]
    by (simp add: phase_switch_def expected_marker_def Let_def)
next
  case executing
  then show ?thesis using assms [of "''PROMPT_COMPLETE''"]
    by (simp add: phase_switch_def expected_marker_def Let_def)
next
  case integration
  then show ?thesis using assms [of "''INTEGRATION_CHECK_COMPLETE''"]
    by (simp add: phase_switch_def expected_marker_def Let_def)
next
  case completeness
  then show ?thesis using assms [of "''MVP_READY''"]
    by (simp add: phase_switch_def expected_marker_def Let_def)
next
  case documentation
  then show ?thesis using assms [of "''DOCUMENTATION_COMPLETE''"]
    by (simp add: phase_switch_def expected_marker_def Let_def)
next
  case complete
  then show ?thesis using assms [of "''MVP_COMPLETE''"]
    by (simp add: phase_switch_def expected_marker_def Let_def)
next
  case unknown
  then show ?thesis by (simp add: phase_switch_def Let_def)
qed

lemma phase_switch_counters:
  "currentIteration (sw_state (phase_switch e w dir st resp)) = currentIteration st
   \<and> maxIterations (sw_state (phase_switch e w dir st resp)) = maxIterations st
   \<and> active (sw_state (phase_switch e w dir st resp)) = active st"
proof (cases st rule: phase_cases)
  case prompts
  then show ?thesis
    by (simp add: phase_switch_def initial_switch_def Let_def split: option.splits)
next
  case executing
  then show ?thesis
    by (simp add: phase_switch_def initial_switch_def Let_def split: option.splits)
next
  case complete
  then show ?thesis
    by (simp add: phase_switch_def initial_switch_def Let_def split: prod.splits)
qed (simp_all add: phase_switch_def initial_switch_def Let_def)

lemma phase_switch_Return:
  "sw_control (phase_switch e w dir st resp) = Return \<longleftrightarrow>
     phase st = ''complete'' \<and> hasPromise resp ''MVP_COMPLETE''"
proof (cases st rule: phase_cases)
  case prompts
  then show ?thesis
    by (simp add: phase_switch_def initial_switch_def Let_def split: option.splits)
next
  case executing
  then show ?thesis
    by (simp add: phase_switch_def initial_switch_def Let_def split: option.splits)
next
  case complete
  then show ?thesis
    by (simp add: phase_switch_def initial_switch_def Let_def split: prod.splits)
qed (simp_all add: phase_switch_def initial_switch_def Let_def)

text \<open>
  C3. Completion detection honours the first \<^verbatim>\<open><promise>...</promise>\<close> delimiter only:
  there is a signal exactly when the trimmed content of that delimiter equals the marker.
  A text without a complete delimiter, or whose first delimiter holds another string,
  gives no signal (a later delimiter is never read), and without the signal for the
  marker of the phase the \<^verbatim>\<open>switch\<close> leaves state and locals as they were.
\<close>

theorem hasPromise_first_delimiter_only:
  "(hasPromise resp p \<longleftrightarrow> (\<exists>c. first_delimiter resp c \<and> trim c = p))
   \<and> (first_delimiter resp c \<longrightarrow> hasPromise resp p = (trim c = p))
   \<and> checkCompletionPromise resp p = hasPromise resp p
   \<and> ((\<forall>m. expected_marker (phase st) = Some m \<longrightarrow> \<not> hasPromise resp m)
        \<longrightarrow> phase_switch e w dir st resp = initial_switch st w)"
proof -
  have "first_delimiter resp c \<Longrightarrow> hasPromise resp p = (trim c = p)"
    by (simp add: hasPromise_def match_promise_iff [symmetric])
  moreover have "checkCompletionPromise resp p = hasPromise resp p"
    by (simp add: checkCompletionPromise_def hasPromise_def)
  ultimately show ?thesis
    using hasPromise_iff [of resp p] phase_switch_no_signal [of st resp e w dir] by blast
qed

theorem hasPromise_first_delimiter_only_witness:
  "first_delimiter ''<promise>WORKING</promise> <promise>PROMPT_COMPLETE</promise>'' ''WORKING''
   \<and> \<not> hasPromise ''<promise>WORKING</promise> <promise>PROMPT_COMPLETE</promise>'' ''PROMPT_COMPLETE''
   \<and> phase_switch demo_env empty_world ''/p'' demo_state
        ''<promise>WORKING</promise> <promise>PROMPT_COMPLETE</promise>''
      = initial_switch demo_state empty_world"
proof -
  let ?resp = "''<promise>WORKING</promise> <promise>PROMPT_COMPLETE</promise>''"
  have "match_promise ?resp = Some ''WORKING''"
    by (simp add: match_promise_def)
  then have fd: "first_delimiter ?resp ''WORKING''"
    by (simp add: match_promise_iff)
  have tr: "trim ''WORKING'' \<noteq> ''PROMPT_COMPLETE''"
    by (simp add: trim_def)
  have em: "expected_marker (phase demo_state) = Some ''PROMPT_COMPLETE''"
    by (simp add: expected_marker_def demo_state_def)
  note T = hasPromise_first_delimiter_only
    [of ?resp "''PROMPT_COMPLETE''" "''WORKING''" demo_state demo_env empty_world "''/p''"]
  from T fd tr have no: "\<not> hasPromise ?resp ''PROMPT_COMPLETE''" by blast
  from T have "(\<forall>m. expected_marker (phase demo_state) = Some m \<longrightarrow> \<not> hasPromise ?resp m)
      \<longrightarrow> phase_switch demo_env empty_world ''/p'' demo_state ?resp
          = initial_switch demo_state empty_world" by blast
  with em no have "phase_switch demo_env empty_world ''/p'' demo_state ?resp
          = initial_switch demo_state empty_world" by simp
  with fd no show ?thesis by blast
qed

lemma event_handler_running:
  assumes "parseState e w dir = Some st" "active st"
    "\<not> num_ge (currentIteration st) (maxIterations st)"
  shows "event_handler e et dir w ''session.idle'' reply =
     (case last_response reply of
        None \<Rightarrow> commit_and_dispatch e dir (initial_switch st w) (catch_log reply)
      | Some resp \<Rightarrow>
          (let sw = phase_switch e w dir st resp in
           case sw_control sw of
             Return \<Rightarrow> \<lparr>world_after = sw_world sw, logged = sw_logged sw,
                         sent = [], rejected = False\<rparr>
           | Break \<Rightarrow> commit_and_dispatch e dir sw (sw_logged sw)
           | Thrown x \<Rightarrow> commit_and_dispatch e dir sw
               (sw_logged sw @ [(Warn, ''Could not check session: '' @ et x)])))"
  using assms
  by (simp add: event_handler_def last_response_def catch_log_def Let_def
      split: session_reply.splits option.splits)

lemma event_handler_halt:
  assumes "parseState e w dir = Some st" "active st"
    "num_ge (currentIteration st) (maxIterations st)"
  shows "event_handler e et dir w ''session.idle'' reply =
     \<lparr>world_after = snd (deleteState e w dir),
      logged = [(Warn, [CHR 0xE2, CHR 0x9A, CHR 0xA0, CHR 0xEF, CHR 0xB8, CHR 0x8F]
                       @ '' MVP Builder stopped: max iterations (''
                       @ show_number (maxIterations st) @ '') reached'')],
      sent = [], rejected = False\<rparr>"
  using assms by (simp add: event_handler_def Let_def)

lemma event_handler_idle_only:
  "event_type \<noteq> ''session.idle'' \<Longrightarrow>
   event_handler e et dir w event_type reply
   = \<lparr>world_after = w, logged = [], sent = [], rejected = False\<rparr>"
  by (simp add: event_handler_def Let_def)

lemma event_handler_inactive:
  assumes "parseState e w dir = None \<or> (\<exists>st. parseState e w dir = Some st \<and> \<not> active st)"
  shows "event_handler e et dir w event_type reply
         = \<lparr>world_after = w, logged = [], sent = [], rejected = False\<rparr>"
  using assms by (auto simp: event_handler_def Let_def)

lemma deleteState_clears: "fs (snd (deleteState e w dir)) (path_join e dir STATE_FILE) = None"
  by (simp add: deleteState_def existsSync_def Let_def)

lemma parseState_absent: "fs w (path_join e dir STATE_FILE) = None \<Longrightarrow> parseState e w dir = None"
  by (simp add: parseState_def existsSync_def Let_def)

lemma parseState_present: "parseState e w dir = Some st \<Longrightarrow> fs w (path_join e dir STATE_FILE) \<noteq> None"
  by (auto simp: parseState_def existsSync_def Let_def split: if_splits)

lemma gitCommit_fs: "fs (snd (gitCommit e w m)) = fs w"
  by (simp add: gitCommit_def split: prod.splits option.splits)

lemma commit_changes_frame:
  "currentIteration (fst (commit_changes e sw)) = currentIteration (sw_state sw)
   \<and> maxIterations (fst (commit_changes e sw)) = maxIterations (sw_state sw)
   \<and> active (fst (commit_changes e sw)) = active (sw_state sw)
   \<and> phase (fst (commit_changes e sw))
       = (if sw_shouldAdvance sw \<and> sw_commitMessage sw \<noteq> [] then sw_nextPhase sw
          else phase (sw_state sw))
   \<and> fs (fst (snd (commit_changes e sw))) = fs (sw_world sw)"
  using gitCommit_fs [of e "sw_world sw" "sw_commitMessage sw"]
  by (auto simp: commit_changes_def split: prod.splits)

lemma saved_state_fields:
  "currentIteration (saved_state e sw) = num_succ (currentIteration (sw_state sw))"
  "maxIterations (saved_state e sw) = maxIterations (sw_state sw)"
  "active (saved_state e sw) = active (sw_state sw)"
  "phase (saved_state e sw)
       = (if sw_shouldAdvance sw \<and> sw_commitMessage sw \<noteq> [] then sw_nextPhase sw
          else phase (sw_state sw))"
  using commit_changes_frame [of e sw] by (simp_all add: saved_state_def Let_def)

lemma commit_and_dispatch_outcome:
  "commit_and_dispatch e dir sw logs0 =
     (let w2 = writeState e (fst (snd (commit_changes e sw))) dir (saved_state e sw);
          statusMsg = status_message (saved_state e sw);
          logs2 = logs0 @ snd (snd (commit_changes e sw)) @ [(Info, statusMsg)]
      in case build_prompt e w2 (saved_state e sw) dir of
           None \<Rightarrow> \<lparr>world_after = w2, logged = logs2, sent = [], rejected = True\<rparr>
         | Some prompt \<Rightarrow>
             \<lparr>world_after = w2, logged = logs2,
              sent = [''['' @ statusMsg @ '']\<newline>\<newline>'' @ prompt], rejected = False\<rparr>)"
  by (cases "commit_changes e sw") (simp add: commit_and_dispatch_def saved_state_def Let_def)

lemma commit_and_dispatch_file:
  "fs (world_after (commit_and_dispatch e dir sw logs0)) (path_join e dir STATE_FILE)
   = Some (File (state_text (saved_state e sw)))"
  by (simp add: commit_and_dispatch_outcome writeState_def Let_def split: option.splits)

lemma phase_switch_complete:
  assumes "phase st = ''complete''" "hasPromise resp ''MVP_COMPLETE''"
  shows "fs (sw_world (phase_switch e w dir st resp)) (path_join e dir STATE_FILE) = None"
  using assms
  by (simp add: phase_switch_def initial_switch_def Let_def deleteState_clears split: prod.splits)

lemma signal_detected_complete:
  "phase st = ''complete'' \<Longrightarrow>
   signal_detected st reply \<longleftrightarrow>
     (\<exists>resp. last_response reply = Some resp \<and> hasPromise resp ''MVP_COMPLETE'')"
  by (auto simp: signal_detected_def expected_marker_def split: option.splits)

text \<open>What the state file is after a trigger on a running workflow below its cap.\<close>

lemma event_handler_file:
  assumes "parseState e w dir = Some st" "active st"
    "\<not> num_ge (currentIteration st) (maxIterations st)"
  shows "(phase st = ''complete'' \<and> signal_detected st reply
          \<and> fs (world_after (event_handler e et dir w ''session.idle'' reply))
               (path_join e dir STATE_FILE) = None
          \<and> sent (event_handler e et dir w ''session.idle'' reply) = [])
       \<or> (\<not> (phase st = ''complete'' \<and> signal_detected st reply)
          \<and> (\<exists>st'. fs (world_after (event_handler e et dir w ''session.idle'' reply))
                      (path_join e dir STATE_FILE) = Some (File (state_text st'))
                \<and> currentIteration st' = num_succ (currentIteration st)
                \<and> maxIterations st' = maxIterations st \<and> active st' = active st))"
proof (cases "last_response reply")
  case None
  then have "\<not> signal_detected st reply" by (simp add: signal_detected_def)
  moreover have "event_handler e et dir w ''session.idle'' reply
      = commit_and_dispatch e dir (initial_switch st w) (catch_log reply)"
    using None by (simp add: event_handler_running [OF assms])
  ultimately show ?thesis
    using commit_and_dispatch_file [of e dir "initial_switch st w" "catch_log reply"]
      saved_state_fields [of e "initial_switch st w"]
    by (auto simp: initial_switch_def)
next
  case (Some resp)
  let ?sw = "phase_switch e w dir st resp"
  note run = event_handler_running [OF assms, of et reply]
  note cnt = phase_switch_counters [of e w dir st resp]
  show ?thesis
  proof (cases "phase st = ''complete'' \<and> hasPromise resp ''MVP_COMPLETE''")
    case True
    then have "sw_control ?sw = Return" by (simp add: phase_switch_Return)
    then have "event_handler e et dir w ''session.idle'' reply
        = \<lparr>world_after = sw_world ?sw, logged = sw_logged ?sw, sent = [], rejected = False\<rparr>"
      using run Some by (simp add: Let_def)
    moreover have "signal_detected st reply"
      using True Some by (simp add: signal_detected_complete)
    ultimately show ?thesis
      using True phase_switch_complete [of st resp e w dir] by simp
  next
    case False
    then have nr: "sw_control ?sw \<noteq> Return" by (simp add: phase_switch_Return)
    have ns: "\<not> (phase st = ''complete'' \<and> signal_detected st reply)"
      using False Some by (auto simp: signal_detected_complete)
    obtain logs where "event_handler e et dir w ''session.idle'' reply
        = commit_and_dispatch e dir ?sw logs"
      using run Some nr by (cases "sw_control ?sw") (simp_all add: Let_def)
    then show ?thesis
      using ns cnt commit_and_dispatch_file [of e dir ?sw logs] saved_state_fields [of e ?sw]
      by auto
  qed
qed

lemma parseState_writeState_reread:
  assumes "wf_state st" "lastCommit st = Some h" "h \<noteq> []"
    "referenceDocs st = [] \<or> JSON_parse e (JSON_stringify (referenceDocs st)) = Some (referenceDocs st)"
  shows "parseState e (writeState e w dir st) dir
         = Some (st\<lparr>promptSequence := map reread (promptSequence st)\<rparr>)"
proof -
  have "parseState e (writeState e w dir st) dir
        = Some (st\<lparr>promptSequence := scan_prompt_lines False (body_text st),
                    lastCommit := reread_commit (lastCommit st)\<rparr>)"
    using assms by (intro parseState_writeState_fields) (simp_all add: wf_state_def)
  moreover have "scan_prompt_lines False (body_text st) = map reread (promptSequence st)"
    using assms(1) by (intro scan_body_text) (simp add: wf_state_def)
  moreover have "reread_commit (lastCommit st) = lastCommit st"
    using assms(2,3) by (simp add: reread_commit_def)
  ultimately show ?thesis by simp
qed

lemma parseState_writeState_id:
  assumes "wf_state st" "lastCommit st = Some h" "h \<noteq> []"
    "referenceDocs st = [] \<or> JSON_parse e (JSON_stringify (referenceDocs st)) = Some (referenceDocs st)"
    "list_all (\<lambda>p. status p \<noteq> skipped) (promptSequence st)"
  shows "parseState e (writeState e w dir st) dir = Some st"
  using parseState_writeState_reread [OF assms(1-4), of w dir] map_reread_id [OF assms(5)]
  by simp

lemma demo_wf: "wf_state (demo_state\<lparr>phase := ph, currentIteration := n\<rparr>) \<longleftrightarrow> ph \<noteq> [] \<and> no_lt ph"
  by (auto simp: wf_state_def wf_strings_def demo_state_def wf_prompt_def is_prompt_filename_def
      strip_prefix_def)

lemma demo_parse:
  assumes "ph \<noteq> []" "no_lt ph"
  shows "parseState demo_env (writeState demo_env w ''/p'' (demo_state\<lparr>phase := ph, currentIteration := n\<rparr>)) ''/p''
         = Some (demo_state\<lparr>phase := ph, currentIteration := n\<rparr>)"
proof (rule parseState_writeState_id)
  show "wf_state (demo_state\<lparr>phase := ph, currentIteration := n\<rparr>)"
    using assms by (simp add: demo_wf)
  show "lastCommit (demo_state\<lparr>phase := ph, currentIteration := n\<rparr>) = Some ''abc1234''"
    by (simp add: demo_state_def)
  show "''abc1234'' \<noteq> []" by simp
  show "referenceDocs (demo_state\<lparr>phase := ph, currentIteration := n\<rparr>) = [] \<or>
    JSON_parse demo_env (JSON_stringify (referenceDocs (demo_state\<lparr>phase := ph, currentIteration := n\<rparr>)))
      = Some (referenceDocs (demo_state\<lparr>phase := ph, currentIteration := n\<rparr>))"
    by (simp add: demo_state_def demo_env_def demo_JSON_parse_def)
  show "list_all (\<lambda>p. status p \<noteq> skipped) (promptSequence (demo_state\<lparr>phase := ph, currentIteration := n\<rparr>))"
    by (simp add: demo_state_def)
qed

lemma demo_state_upd: "demo_state\<lparr>phase := ''executing'', currentIteration := Num 3\<rparr> = demo_state"
  by (simp add: demo_state_def)

lemma demo_world_parse: "parseState demo_env demo_world ''/p'' = Some demo_state"
  using demo_parse [of "''executing''" empty_world "Num 3"]
  by (simp add: demo_world_def demo_state_upd)



lemma commit_changes_initial: "commit_changes e (initial_switch st w) = (st, w, [])"
  by (simp add: commit_changes_def initial_switch_def)

lemma saved_state_initial:
  "saved_state e (initial_switch st w) = st\<lparr>currentIteration := num_succ (currentIteration st)\<rparr>"
  by (simp add: saved_state_def commit_changes_initial)

lemma event_handler_no_signal:
  assumes "parseState e w dir = Some st" "active st"
    "\<not> num_ge (currentIteration st) (maxIterations st)" "\<not> signal_detected st reply"
  shows "event_handler e et dir w ''session.idle'' reply
         = commit_and_dispatch e dir (initial_switch st w) (catch_log reply)"
proof (cases "last_response reply")
  case None
  then show ?thesis by (simp add: event_handler_running [OF assms(1-3)])
next
  case (Some resp)
  then have "\<And>m. expected_marker (phase st) = Some m \<Longrightarrow> \<not> hasPromise resp m"
    using assms(4) by (simp add: signal_detected_def)
  then have sw: "phase_switch e w dir st resp = initial_switch st w"
    by (rule phase_switch_no_signal)
  have "catch_log reply = []"
    using Some by (cases reply) (simp_all add: catch_log_def last_response_def)
  then show ?thesis
    using Some sw by (simp add: event_handler_running [OF assms(1-3)] initial_switch_def)
qed


text \<open>
  C2. A trigger at the iteration cap deletes the state file, logs one warning and sends
  nothing; the state file is gone after a trigger only at the cap or when the workflow
  completes (phase complete with its marker).
\<close>

theorem iteration_cap_halt:
  assumes "parseState e w dir = Some st" "active st"
  shows "(num_ge (currentIteration st) (maxIterations st) \<longrightarrow>
            event_handler e et dir w ''session.idle'' reply
            = \<lparr>world_after = snd (deleteState e w dir),
               logged = [(Warn, [CHR 0xE2, CHR 0x9A, CHR 0xA0, CHR 0xEF, CHR 0xB8, CHR 0x8F]
                                @ '' MVP Builder stopped: max iterations (''
                                @ show_number (maxIterations st) @ '') reached'')],
               sent = [], rejected = False\<rparr>
            \<and> fs (snd (deleteState e w dir)) (path_join e dir STATE_FILE) = None
            \<and> parseState e (snd (deleteState e w dir)) dir = None)
       \<and> (fs (world_after (event_handler e et dir w ''session.idle'' reply))
              (path_join e dir STATE_FILE) = None \<longrightarrow>
            num_ge (currentIteration st) (maxIterations st)
            \<or> (phase st = ''complete'' \<and> signal_detected st reply))"
proof (cases "num_ge (currentIteration st) (maxIterations st)")
  case True
  then show ?thesis
    using event_handler_halt [OF assms True, of et reply] deleteState_clears [of e w dir]
      parseState_absent [of "snd (deleteState e w dir)" e dir]
    by simp
next
  case False
  from event_handler_file [OF assms False, where et = et and reply = reply] False
  show ?thesis by auto
qed

theorem iteration_cap_halt_witness:
  "parseState demo_env (writeState demo_env empty_world ''/p''
       (demo_state\<lparr>phase := ''executing'', currentIteration := Num 100\<rparr>)) ''/p''
     = Some (demo_state\<lparr>phase := ''executing'', currentIteration := Num 100\<rparr>)
   \<and> num_ge (Num 100) (maxIterations demo_state)
   \<and> sent (event_handler demo_env demo_error_text ''/p''
        (writeState demo_env empty_world ''/p''
           (demo_state\<lparr>phase := ''executing'', currentIteration := Num 100\<rparr>))
        ''session.idle'' (Session None)) = []
   \<and> parseState demo_env (world_after (event_handler demo_env demo_error_text ''/p''
        (writeState demo_env empty_world ''/p''
           (demo_state\<lparr>phase := ''executing'', currentIteration := Num 100\<rparr>))
        ''session.idle'' (Session None))) ''/p'' = None
   \<and> fs (world_after (event_handler demo_env demo_error_text ''/p'' demo_world
             ''session.idle'' (Session None))) (path_join demo_env ''/p'' STATE_FILE) \<noteq> None"
proof -
  let ?st = "demo_state\<lparr>phase := ''executing'', currentIteration := Num 100\<rparr>"
  let ?w = "writeState demo_env empty_world ''/p'' ?st"
  have p: "parseState demo_env ?w ''/p'' = Some ?st"
    by (rule demo_parse) simp_all
  have a: "active ?st" "num_ge (currentIteration ?st) (maxIterations ?st)"
    by (simp_all add: demo_state_def)
  note T = iteration_cap_halt [OF p a(1), of demo_error_text "Session None"]
  from T a(2) have 1: "sent (event_handler demo_env demo_error_text ''/p'' ?w
        ''session.idle'' (Session None)) = []
     \<and> parseState demo_env (world_after (event_handler demo_env demo_error_text ''/p'' ?w
        ''session.idle'' (Session None))) ''/p'' = None"
    by simp
  have b: "active demo_state" "\<not> num_ge (currentIteration demo_state) (maxIterations demo_state)"
    "phase demo_state \<noteq> ''complete''"
    by (simp_all add: demo_state_def)
  from iteration_cap_halt [OF demo_world_parse b(1), of demo_error_text "Session None"] b
  have 2: "fs (world_after (event_handler demo_env demo_error_text ''/p'' demo_world
             ''session.idle'' (Session None))) (path_join demo_env ''/p'' STATE_FILE) \<noteq> None"
    by blast
  have "num_ge (Num 100) (maxIterations demo_state)" by (simp add: demo_state_def)
  with p 1 2 show ?thesis by simp
qed

lemma writeState_frame:
  "git (writeState e w dir st) = git w" "now (writeState e w dir st) = now w"
  "p \<noteq> path_join e dir STATE_FILE \<Longrightarrow> fs (writeState e w dir st) p = fs w p"
  by (simp_all add: writeState_def)

lemma show_int_demo:
  "show_int 0 = ''0''" "show_int 1 = ''1''" "show_int 2 = ''2''"
  "show_int 4 = ''4''" "show_int 5 = ''5''" "show_int 100 = ''100''"
  by (simp_all add: show_int_def show_nat.simps digit_char_def)




lemma writeState_twice: "writeState e (writeState e w dir a) dir b = writeState e w dir b"
  by (simp add: writeState_def)


lemma no_signal_without_response: "\<not> signal_detected st (Session None)"
  by (simp add: signal_detected_def last_response_def)










subsection \<open>Discovery of the prompt files\<close>

lemma commit_and_dispatch_world:
  "world_after (commit_and_dispatch e dir sw logs0)
   = writeState e (fst (snd (commit_changes e sw))) dir (saved_state e sw)"
  by (simp add: commit_and_dispatch_outcome Let_def split: option.splits)

lemma phase_switch_prompts:
  assumes "phase st = ''generating_prompts''" "hasPromise resp ''PROMPTS_GENERATED''"
  shows "phase_switch e w dir st resp =
     (case discoverPromptFiles e w (path_join e dir (instructionsPath st)) of
        None \<Rightarrow> (initial_switch st w)\<lparr>sw_control := Thrown FsError\<rparr>
      | Some found \<Rightarrow>
          if found \<noteq> []
          then (initial_switch st w)
                 \<lparr>sw_shouldAdvance := True,
                  sw_commitMessage := ''MVP Builder: Generated ''
                     @ show_number (Num (int (length found))) @ '' execution prompts'',
                  sw_nextPhase := ''executing'',
                  sw_state := st\<lparr>promptSequence := set_status found 0 in_progress,
                               totalPrompts := Num (int (length found)),
                               currentPromptIndex := Num 0\<rparr>\<rparr>
          else (initial_switch st w)
                 \<lparr>sw_state := st\<lparr>promptSequence := [], totalPrompts := Num 0\<rparr>,
                  sw_logged := [(Error, ''No prompt files found in ''
                     @ path_join e dir (instructionsPath st)
                     @ ''. Looking for prompt_01.md, prompt_02.md, etc.'')]\<rparr>)"
  using assms by (simp add: phase_switch_def Let_def split: option.splits)


lemma last_response_demo: "last_response (demo_reply resp) = Some resp"
  by (simp add: last_response_def demo_reply_def textContent_of_def)

lemma commit_changes_stay:
  "commit_changes e ((initial_switch st w)\<lparr>sw_state := st', sw_logged := l\<rparr>) = (st', w, [])"
  by (simp add: commit_changes_def initial_switch_def)

lemma saved_state_stay:
  "saved_state e ((initial_switch st w)\<lparr>sw_state := st', sw_logged := l\<rparr>)
   = st'\<lparr>currentIteration := num_succ (currentIteration st')\<rparr>"
  by (simp add: saved_state_def commit_changes_stay)

lemma event_handler_prompts:
  assumes "parseState e w dir = Some st" "active st"
    "\<not> num_ge (currentIteration st) (maxIterations st)"
    "phase st = ''generating_prompts''"
    "last_response reply = Some resp" "hasPromise resp ''PROMPTS_GENERATED''"
    "discoverPromptFiles e w (path_join e dir (instructionsPath st)) = Some found"
  shows "event_handler e et dir w ''session.idle'' reply =
     commit_and_dispatch e dir
       (if found \<noteq> []
        then (initial_switch st w)
               \<lparr>sw_shouldAdvance := True,
                sw_commitMessage := ''MVP Builder: Generated ''
                   @ show_number (Num (int (length found))) @ '' execution prompts'',
                sw_nextPhase := ''executing'',
                sw_state := st\<lparr>promptSequence := set_status found 0 in_progress,
                             totalPrompts := Num (int (length found)),
                             currentPromptIndex := Num 0\<rparr>\<rparr>
        else (initial_switch st w)
               \<lparr>sw_state := st\<lparr>promptSequence := [], totalPrompts := Num 0\<rparr>,
                sw_logged := [(Error, ''No prompt files found in ''
                   @ path_join e dir (instructionsPath st)
                   @ ''. Looking for prompt_01.md, prompt_02.md, etc.'')]\<rparr>)
       (if found \<noteq> [] then []
        else [(Error, ''No prompt files found in '' @ path_join e dir (instructionsPath st)
                 @ ''. Looking for prompt_01.md, prompt_02.md, etc.'')])"
  using assms(5,7)
  by (simp add: event_handler_running [OF assms(1-3)] phase_switch_prompts [OF assms(4,6)]
      initial_switch_def Let_def)

text \<open>
  C8. In the phase \<open>generating_prompts\<close>, when the marker \<open>PROMPTS_GENERATED\<close> is read and the
  discovery finds no prompt file, the handler logs the error, saves the record with the
  phase unchanged and sends the prompt of Phase 1B again; with a file found, the saved phase
  is \<open>executing\<close>.
\<close>

theorem zero_prompt_files_stays:
  assumes "parseState e w dir = Some st" "active st"
    "\<not> num_ge (currentIteration st) (maxIterations st)"
    "phase st = ''generating_prompts''"
    "last_response reply = Some resp" "hasPromise resp ''PROMPTS_GENERATED''"
    "discoverPromptFiles e w (path_join e dir (instructionsPath st)) = Some found"
  shows "(found = [] \<longrightarrow>
            (let st' = st\<lparr>promptSequence := [], totalPrompts := Num 0,
                          currentIteration := num_succ (currentIteration st)\<rparr>;
                 w' = writeState e w dir st'
             in phase st' = ''generating_prompts''
              \<and> world_after (event_handler e et dir w ''session.idle'' reply) = w'
              \<and> logged (event_handler e et dir w ''session.idle'' reply)
                  = [(Error, ''No prompt files found in '' @ path_join e dir (instructionsPath st)
                             @ ''. Looking for prompt_01.md, prompt_02.md, etc.''),
                     (Info, status_message st')]
              \<and> sent (event_handler e et dir w ''session.idle'' reply)
                  = (case buildPhase1BPrompt e w' st' dir of
                       None \<Rightarrow> []
                     | Some prompt \<Rightarrow> [''['' @ status_message st' @ '']\<newline>\<newline>'' @ prompt])))
       \<and> (found \<noteq> [] \<longrightarrow>
            (\<exists>st'. fs (world_after (event_handler e et dir w ''session.idle'' reply))
                      (path_join e dir STATE_FILE) = Some (File (state_text st'))
                 \<and> phase st' = ''executing''
                 \<and> promptSequence st' = set_status found 0 in_progress
                 \<and> totalPrompts st' = Num (int (length found))
                 \<and> currentPromptIndex st' = Num 0
                 \<and> currentIteration st' = num_succ (currentIteration st)))"
proof (cases "found = []")
  case True
  show ?thesis
    using True assms(4)
    by (simp add: event_handler_prompts [OF assms] commit_and_dispatch_outcome
        commit_changes_stay saved_state_stay Let_def build_prompt_def split: option.splits)
next
  case False
  let ?sw = "(initial_switch st w)
               \<lparr>sw_shouldAdvance := True,
                sw_commitMessage := ''MVP Builder: Generated ''
                   @ show_number (Num (int (length found))) @ '' execution prompts'',
                sw_nextPhase := ''executing'',
                sw_state := st\<lparr>promptSequence := set_status found 0 in_progress,
                             totalPrompts := Num (int (length found)),
                             currentPromptIndex := Num 0\<rparr>\<rparr>"
  have "fs (world_after (event_handler e et dir w ''session.idle'' reply))
          (path_join e dir STATE_FILE) = Some (File (state_text (saved_state e ?sw)))"
    using False by (simp add: event_handler_prompts [OF assms] commit_and_dispatch_file)
  moreover have "phase (saved_state e ?sw) = ''executing''"
    "currentIteration (saved_state e ?sw) = num_succ (currentIteration st)"
    by (simp_all add: saved_state_fields initial_switch_def)
  moreover have "promptSequence (saved_state e ?sw) = set_status found 0 in_progress
      \<and> totalPrompts (saved_state e ?sw) = Num (int (length found))
      \<and> currentPromptIndex (saved_state e ?sw) = Num 0"
    by (simp add: saved_state_def commit_changes_def initial_switch_def Let_def
        split: prod.splits)
  ultimately show ?thesis using False by blast
qed


theorem zero_prompt_files_stays_witness:
  "parseState demo_env
     (writeState demo_env empty_world ''/p''
        (demo_state\<lparr>phase := ''generating_prompts'', currentIteration := Num 3\<rparr>)) ''/p''
     = Some (demo_state\<lparr>phase := ''generating_prompts'', currentIteration := Num 3\<rparr>)
   \<and> hasPromise ''Done. <promise>PROMPTS_GENERATED</promise>'' ''PROMPTS_GENERATED''
   \<and> discoverPromptFiles demo_env
        (writeState demo_env empty_world ''/p''
           (demo_state\<lparr>phase := ''generating_prompts'', currentIteration := Num 3\<rparr>))
        ''/p/instructions'' = Some []
   \<and> world_after (event_handler demo_env demo_error_text ''/p''
        (writeState demo_env empty_world ''/p''
           (demo_state\<lparr>phase := ''generating_prompts'', currentIteration := Num 3\<rparr>))
        ''session.idle'' (demo_reply ''Done. <promise>PROMPTS_GENERATED</promise>''))
      = writeState demo_env empty_world ''/p''
          (demo_state\<lparr>phase := ''generating_prompts'', promptSequence := [],
             totalPrompts := Num 0, currentIteration := Num 4\<rparr>)
   \<and> discoverPromptFiles demo_env
        (writeState demo_env demo_instructions ''/p''
           (demo_state\<lparr>phase := ''generating_prompts'', currentIteration := Num 3\<rparr>))
        ''/p/instructions''
      = Some [\<lparr>filename = ''prompt_01.md'', title = ''Prompt'', status = pending\<rparr>]
   \<and> (\<exists>st'. fs (world_after (event_handler demo_env demo_error_text ''/p''
                 (writeState demo_env demo_instructions ''/p''
                    (demo_state\<lparr>phase := ''generating_prompts'', currentIteration := Num 3\<rparr>))
                 ''session.idle'' (demo_reply ''Done. <promise>PROMPTS_GENERATED</promise>'')))
               (path_join demo_env ''/p'' STATE_FILE) = Some (File (state_text st'))
          \<and> phase st' = ''executing''
          \<and> promptSequence st'
              = [\<lparr>filename = ''prompt_01.md'', title = ''Prompt'', status = in_progress\<rparr>])"
proof -
  let ?st = "demo_state\<lparr>phase := ''generating_prompts'', currentIteration := Num 3\<rparr>"
  let ?resp = "''Done. <promise>PROMPTS_GENERATED</promise>''"
  let ?w = "writeState demo_env empty_world ''/p'' ?st"
  let ?v = "writeState demo_env demo_instructions ''/p'' ?st"
  have p: "parseState demo_env ?w ''/p'' = Some ?st" "parseState demo_env ?v ''/p'' = Some ?st"
    by (rule demo_parse; simp add: no_lt_def)+
  have a: "active ?st" "\<not> num_ge (currentIteration ?st) (maxIterations ?st)"
    "phase ?st = ''generating_prompts''" "num_succ (currentIteration ?st) = Num 4"
    by (simp_all add: demo_state_def)
  have h: "hasPromise ?resp ''PROMPTS_GENERATED''"
    by (simp add: hasPromise_def match_promise_def trim_def)
  have i: "path_join demo_env ''/p'' (instructionsPath ?st) = ''/p/instructions''"
    by (simp add: demo_env_def demo_state_def)
  have d: "discoverPromptFiles demo_env ?w ''/p/instructions'' = Some []"
    by (simp add: discoverPromptFiles_def existsSync_def writeState_def demo_env_def
        empty_world_def STATE_FILE_def)
  have d': "discoverPromptFiles demo_env ?v ''/p/instructions''
      = Some [\<lparr>filename = ''prompt_01.md'', title = ''Prompt'', status = pending\<rparr>]"
    by (simp add: discoverPromptFiles_def existsSync_def readdirSync_def loadFileContent_def
        writeState_def demo_env_def demo_instructions_def empty_world_def STATE_FILE_def
        is_prompt_filename_def strip_prefix_def)
  note T = zero_prompt_files_stays [OF p(1) a(1-3) last_response_demo h, of "[]" demo_error_text]
  note T' = zero_prompt_files_stays [OF p(2) a(1-3) last_response_demo h,
      of "[\<lparr>filename = ''prompt_01.md'', title = ''Prompt'', status = pending\<rparr>]" demo_error_text]
  from T d i a(4) have 1: "world_after (event_handler demo_env demo_error_text ''/p'' ?w
        ''session.idle'' (demo_reply ?resp))
      = writeState demo_env empty_world ''/p''
          (demo_state\<lparr>phase := ''generating_prompts'', promptSequence := [],
             totalPrompts := Num 0, currentIteration := Num 4\<rparr>)"
    by (simp add: Let_def writeState_twice)
  from T' d' i have 2: "\<exists>st'. fs (world_after (event_handler demo_env demo_error_text ''/p'' ?v
                 ''session.idle'' (demo_reply ?resp)))
               (path_join demo_env ''/p'' STATE_FILE) = Some (File (state_text st'))
          \<and> phase st' = ''executing''
          \<and> promptSequence st'
              = [\<lparr>filename = ''prompt_01.md'', title = ''Prompt'', status = in_progress\<rparr>]"
    by (auto simp: set_status_def)
  from p(1) h d 1 d' 2 show ?thesis by blast
qed

subsection \<open>The end of the workflow\<close>

lemma state_text_active: "active st \<Longrightarrow> prefix ''---\<newline>active: true\<newline>'' (state_text st)"
  by (simp add: state_text_def frontmatter_text_def show_bool_def Let_def)

text \<open>
  C9 as stated fails: in the phase \<open>complete\<close> a trigger without the marker \<open>MVP_COMPLETE\<close>
  saves the record, and the saved record is still active.
\<close>

theorem complete_phase_save_keeps_active:
  "parseState demo_env
     (writeState demo_env empty_world ''/p''
        (demo_state\<lparr>phase := ''complete'', currentIteration := Num 3\<rparr>)) ''/p''
     = Some (demo_state\<lparr>phase := ''complete'', currentIteration := Num 3\<rparr>)
   \<and> parseState demo_env
       (world_after (event_handler demo_env demo_error_text ''/p''
          (writeState demo_env empty_world ''/p''
             (demo_state\<lparr>phase := ''complete'', currentIteration := Num 3\<rparr>))
          ''session.idle'' (Session None))) ''/p''
     = Some (demo_state\<lparr>phase := ''complete'', currentIteration := Num 4\<rparr>)
   \<and> active (demo_state\<lparr>phase := ''complete'', currentIteration := Num 4\<rparr>)"
proof -
  let ?st = "demo_state\<lparr>phase := ''complete'', currentIteration := Num 3\<rparr>"
  let ?w = "writeState demo_env empty_world ''/p'' ?st"
  have p: "parseState demo_env ?w ''/p'' = Some ?st"
    by (rule demo_parse; simp add: no_lt_def)
  have a: "active ?st" "\<not> num_ge (currentIteration ?st) (maxIterations ?st)"
    by (simp_all add: demo_state_def)
  have "world_after (event_handler demo_env demo_error_text ''/p'' ?w ''session.idle'' (Session None))
        = writeState demo_env empty_world ''/p''
            (demo_state\<lparr>phase := ''complete'', currentIteration := Num 4\<rparr>)"
    by (simp add: event_handler_no_signal [OF p a no_signal_without_response]
        commit_and_dispatch_world commit_changes_initial saved_state_initial writeState_twice)
  moreover have "parseState demo_env (writeState demo_env empty_world ''/p''
            (demo_state\<lparr>phase := ''complete'', currentIteration := Num 4\<rparr>)) ''/p''
        = Some (demo_state\<lparr>phase := ''complete'', currentIteration := Num 4\<rparr>)"
    by (rule demo_parse; simp add: no_lt_def)
  moreover have "active (demo_state\<lparr>phase := ''complete'', currentIteration := Num 4\<rparr>)"
    by (simp add: demo_state_def)
  ultimately show ?thesis using p by simp
qed

text \<open>
  C9 (amended). The handler never clears the flag: every record it saves for an active
  workflow is active, and the file begins with \<^verbatim>\<open>active: true\<close>. In the phase \<open>complete\<close>
  the marker \<open>MVP_COMPLETE\<close> deletes the state file without another save: the record is then
  absent and nothing is sent.
\<close>

theorem completion_clears_state:
  assumes "parseState e w dir = Some st" "active st"
    "\<not> num_ge (currentIteration st) (maxIterations st)"
  shows "(phase st = ''complete'' \<and> signal_detected st reply \<longrightarrow>
            fs (world_after (event_handler e et dir w ''session.idle'' reply))
               (path_join e dir STATE_FILE) = None
          \<and> parseState e (world_after (event_handler e et dir w ''session.idle'' reply)) dir = None
          \<and> sent (event_handler e et dir w ''session.idle'' reply) = [])
       \<and> (\<not> (phase st = ''complete'' \<and> signal_detected st reply) \<longrightarrow>
            (\<exists>st'. fs (world_after (event_handler e et dir w ''session.idle'' reply))
                      (path_join e dir STATE_FILE) = Some (File (state_text st'))
                 \<and> active st' \<and> prefix ''---\<newline>active: true\<newline>'' (state_text st')))"
  using event_handler_file [OF assms, where et = et and reply = reply] assms(2)
    parseState_absent [of "world_after (event_handler e et dir w ''session.idle'' reply)" e dir]
    state_text_active
  by auto

theorem completion_clears_state_witness:
  "parseState demo_env
     (writeState demo_env empty_world ''/p''
        (demo_state\<lparr>phase := ''complete'', currentIteration := Num 3\<rparr>)) ''/p''
     = Some (demo_state\<lparr>phase := ''complete'', currentIteration := Num 3\<rparr>)
   \<and> signal_detected (demo_state\<lparr>phase := ''complete'', currentIteration := Num 3\<rparr>)
        (demo_reply ''<promise>MVP_COMPLETE</promise>'')
   \<and> parseState demo_env
       (world_after (event_handler demo_env demo_error_text ''/p''
          (writeState demo_env empty_world ''/p''
             (demo_state\<lparr>phase := ''complete'', currentIteration := Num 3\<rparr>))
          ''session.idle'' (demo_reply ''<promise>MVP_COMPLETE</promise>''))) ''/p'' = None
   \<and> sent (event_handler demo_env demo_error_text ''/p''
          (writeState demo_env empty_world ''/p''
             (demo_state\<lparr>phase := ''complete'', currentIteration := Num 3\<rparr>))
          ''session.idle'' (demo_reply ''<promise>MVP_COMPLETE</promise>'')) = []
   \<and> (\<exists>st'. fs (world_after (event_handler demo_env demo_error_text ''/p''
          (writeState demo_env empty_world ''/p''
             (demo_state\<lparr>phase := ''complete'', currentIteration := Num 3\<rparr>))
          ''session.idle'' (Session None))) (path_join demo_env ''/p'' STATE_FILE)
            = Some (File (state_text st')) \<and> active st')"
proof -
  let ?st = "demo_state\<lparr>phase := ''complete'', currentIteration := Num 3\<rparr>"
  let ?w = "writeState demo_env empty_world ''/p'' ?st"
  let ?reply = "demo_reply ''<promise>MVP_COMPLETE</promise>''"
  have p: "parseState demo_env ?w ''/p'' = Some ?st"
    by (rule demo_parse; simp add: no_lt_def)
  have a: "active ?st" "\<not> num_ge (currentIteration ?st) (maxIterations ?st)"
    "phase ?st = ''complete''"
    by (simp_all add: demo_state_def)
  have s: "signal_detected ?st ?reply"
    by (simp add: signal_detected_def last_response_demo expected_marker_def hasPromise_def
        match_promise_def trim_def)
  from completion_clears_state [OF p a(1,2), of ?reply demo_error_text] a(3) s
  have 1: "parseState demo_env
       (world_after (event_handler demo_env demo_error_text ''/p'' ?w ''session.idle'' ?reply)) ''/p''
       = None
     \<and> sent (event_handler demo_env demo_error_text ''/p'' ?w ''session.idle'' ?reply) = []"
    by blast
  from completion_clears_state [OF p a(1,2), of "Session None" demo_error_text]
    no_signal_without_response [of ?st]
  have 2: "\<exists>st'. fs (world_after (event_handler demo_env demo_error_text ''/p'' ?w
          ''session.idle'' (Session None))) (path_join demo_env ''/p'' STATE_FILE)
            = Some (File (state_text st')) \<and> active st'"
    by blast
  from p s 1 2 show ?thesis by blast
qed

subsection \<open>Rendering\<close>

lemma loadFileContent_cong: "fs w p = fs w' p \<Longrightarrow> loadFileContent w p = loadFileContent w' p"
  by (simp add: loadFileContent_def existsSync_def readFileSync_def)

lemma load_docs_cong:
  "(\<And>d. d \<in> set docs \<Longrightarrow> fs w (path_join e dir d) = fs w' (path_join e dir d)) \<Longrightarrow>
   load_docs e w dir docs = load_docs e w' dir docs"
  by (induction docs) (simp_all add: existsSync_def readFileSync_def Let_def cong: option.case_cong)

lemma loadReferenceDocs_cong:
  "(\<And>d. d \<in> set docs \<Longrightarrow> fs w (path_join e dir d) = fs w' (path_join e dir d)) \<Longrightarrow>
   loadReferenceDocs e w dir docs = loadReferenceDocs e w' dir docs"
  using load_docs_cong [of docs w e dir w'] by (simp add: loadReferenceDocs_def)

lemma getRecentCommits_cong:
  "git_log_cmd e n (git w) = git_log_cmd e n (git w') \<Longrightarrow>
   getRecentCommits e w n = getRecentCommits e w' n"
  by (simp add: getRecentCommits_def)

lemma builders_cong:
  assumes f: "\<And>p. p \<in> set (referenced_paths e st dir) \<Longrightarrow> fs w p = fs w' p"
    and g: "\<And>n. git_log_cmd e n (git w) = git_log_cmd e n (git w')"
  shows "buildPhase1APrompt e w st dir = buildPhase1APrompt e w' st dir"
    "buildPhase1BPrompt e w st dir = buildPhase1BPrompt e w' st dir"
    "buildPhase2Prompt e w st dir = buildPhase2Prompt e w' st dir"
    "buildPhase3APrompt e w st dir = buildPhase3APrompt e w' st dir"
    "buildPhase3BPrompt e w st dir = buildPhase3BPrompt e w' st dir"
    "buildPhase4Prompt e w st dir = buildPhase4Prompt e w' st dir"
proof -
  have o: "loadFileContent w (path_join e (path_join e dir (instructionsPath st)) ''project_overview.md'')
      = loadFileContent w' (path_join e (path_join e dir (instructionsPath st)) ''project_overview.md'')"
    by (rule loadFileContent_cong, rule f) (simp add: referenced_paths_def Let_def)
  have s: "loadFileContent w (path_join e (path_join e dir (instructionsPath st)) ''prompt_sequence_plan.md'')
      = loadFileContent w' (path_join e (path_join e dir (instructionsPath st)) ''prompt_sequence_plan.md'')"
    by (rule loadFileContent_cong, rule f) (simp add: referenced_paths_def Let_def)
  have c: "index_opt (promptSequence st) (currentPromptIndex st) = Some p \<Longrightarrow>
      loadFileContent w (path_join e (path_join e dir (instructionsPath st)) (filename p))
      = loadFileContent w' (path_join e (path_join e dir (instructionsPath st)) (filename p))" for p
    by (rule loadFileContent_cong, rule f) (simp add: referenced_paths_def Let_def)
  have r: "loadReferenceDocs e w dir (referenceDocs st) = loadReferenceDocs e w' dir (referenceDocs st)"
    by (rule loadReferenceDocs_cong, rule f) (simp add: referenced_paths_def Let_def)
  note gc = getRecentCommits_cong [OF g]
  show "buildPhase1APrompt e w st dir = buildPhase1APrompt e w' st dir"
    by (simp add: buildPhase1APrompt_def Let_def o r gc [of 10] cong: option.case_cong)
  show "buildPhase1BPrompt e w st dir = buildPhase1BPrompt e w' st dir"
    by (simp add: buildPhase1BPrompt_def Let_def o s r cong: option.case_cong)
  show "buildPhase2Prompt e w st dir = buildPhase2Prompt e w' st dir"
    by (cases "index_opt (promptSequence st) (currentPromptIndex st)")
       (simp_all add: buildPhase2Prompt_def Let_def o c r gc [of 10] cong: option.case_cong)
  show "buildPhase3APrompt e w st dir = buildPhase3APrompt e w' st dir"
    by (simp add: buildPhase3APrompt_def Let_def o r gc [of 20] cong: option.case_cong)
  show "buildPhase3BPrompt e w st dir = buildPhase3BPrompt e w' st dir"
    by (simp add: buildPhase3BPrompt_def Let_def o r cong: option.case_cong)
  show "buildPhase4Prompt e w st dir = buildPhase4Prompt e w' st dir"
    by (simp add: buildPhase4Prompt_def Let_def o r cong: option.case_cong)
qed

lemma buildCompletePrompt_cong:
  "now w = now w' \<Longrightarrow> buildCompletePrompt e w st = buildCompletePrompt e w' st"
  by (simp add: buildCompletePrompt_def Let_def cong: number.case_cong)

lemma show_int_3: "show_int 3 = ''3''"
  by (simp add: show_int_def show_nat.simps digit_char_def)

lemma demo_complete_prompt:
  "buildCompletePrompt demo_env (empty_world\<lparr>now := 1768550400000 + 3600000 * h\<rparr>)
     (demo_state\<lparr>phase := ''complete''\<rparr>)
   = complete_text ''2'' ''3'' (show_int h) ''0'' ''abc1234''"
  by (simp add: buildCompletePrompt_def demo_env_def demo_state_def show_int_demo show_int_3
      or_else_def js_rem_def Let_def)

text \<open>
  C4 as stated fails for the last phase: the completion prompt prints the time elapsed
  since the start, read from the clock, so one record, one file system and one git history
  give two texts at two times.
\<close>

theorem complete_prompt_depends_on_clock:
  "fs (empty_world\<lparr>now := 1768550400000 + 3600000 * 1\<rparr>)
     = fs (empty_world\<lparr>now := 1768550400000 + 3600000 * 2\<rparr>)
   \<and> git (empty_world\<lparr>now := 1768550400000 + 3600000 * 1\<rparr>)
     = git (empty_world\<lparr>now := 1768550400000 + 3600000 * 2\<rparr>)
   \<and> build_prompt demo_env (empty_world\<lparr>now := 1768550400000 + 3600000 * 1\<rparr>)
        (demo_state\<lparr>phase := ''complete''\<rparr>) ''/p''
      = Some (complete_text ''2'' ''3'' ''1'' ''0'' ''abc1234'')
   \<and> build_prompt demo_env (empty_world\<lparr>now := 1768550400000 + 3600000 * 2\<rparr>)
        (demo_state\<lparr>phase := ''complete''\<rparr>) ''/p''
      = Some (complete_text ''2'' ''3'' ''2'' ''0'' ''abc1234'')
   \<and> complete_text ''2'' ''3'' ''1'' ''0'' ''abc1234'' \<noteq> complete_text ''2'' ''3'' ''2'' ''0'' ''abc1234''"
proof -
  have "complete_text ''2'' ''3'' ''1'' ''0'' ''abc1234'' \<noteq> complete_text ''2'' ''3'' ''2'' ''0'' ''abc1234''"
    by (simp add: complete_text_def)
  moreover have "phase (demo_state\<lparr>phase := ''complete''\<rparr>) = ''complete''" by simp
  ultimately show ?thesis
    using demo_complete_prompt [of 1] demo_complete_prompt [of 2]
    by (simp add: build_prompt_def show_int_demo)
qed

text \<open>
  C4 (amended). For every phase the prompt is determined by the record, the content of the
  paths the builder reads and the output of \<^verbatim>\<open>git log\<close>; for the phase \<open>complete\<close> also by
  the clock.
\<close>

theorem build_prompt_deterministic:
  assumes "\<forall>p \<in> set (referenced_paths e st dir). fs w p = fs w' p"
    "\<forall>n. git_log_cmd e n (git w) = git_log_cmd e n (git w')"
  shows "(phase st \<noteq> ''complete'' \<longrightarrow> build_prompt e w st dir = build_prompt e w' st dir)
       \<and> (now w = now w' \<longrightarrow> build_prompt e w st dir = build_prompt e w' st dir)"
  using builders_cong [of e st dir w w'] assms buildCompletePrompt_cong [of w w' e st]
  by (simp add: build_prompt_def)

theorem build_prompt_deterministic_witness:
  "referenced_paths demo_env demo_state ''/p''
     = [''/p/instructions/project_overview.md'', ''/p/instructions/prompt_sequence_plan.md'',
        ''/p/instructions/prompt_01.md'', ''/p/docs/api.md'']
   \<and> phase demo_state \<noteq> ''complete''
   \<and> build_prompt demo_env demo_world demo_state ''/p''
     = build_prompt demo_env
         (demo_world\<lparr>fs := (fs demo_world)(''/p/README.md'' \<mapsto> File ''x''), now := 0\<rparr>)
         demo_state ''/p''"
proof -
  have r: "referenced_paths demo_env demo_state ''/p''
     = [''/p/instructions/project_overview.md'', ''/p/instructions/prompt_sequence_plan.md'',
        ''/p/instructions/prompt_01.md'', ''/p/docs/api.md'']"
    by (simp add: referenced_paths_def demo_env_def demo_state_def Let_def)
  have a: "\<forall>p \<in> set (referenced_paths demo_env demo_state ''/p'').
       fs demo_world p = fs (demo_world\<lparr>fs := (fs demo_world)(''/p/README.md'' \<mapsto> File ''x''),
                                          now := 0\<rparr>) p"
    by (simp add: r)
  have b: "\<forall>n. git_log_cmd demo_env n (git demo_world)
      = git_log_cmd demo_env n
          (git (demo_world\<lparr>fs := (fs demo_world)(''/p/README.md'' \<mapsto> File ''x''), now := 0\<rparr>))"
    by simp
  have c: "phase demo_state \<noteq> ''complete''" by (simp add: demo_state_def)
  from build_prompt_deterministic [OF a b] c r show ?thesis by blast
qed

lemma strip_prefix_Some_iff: "strip_prefix p s = Some r \<longleftrightarrow> s = p @ r"
  by (auto simp: strip_prefix_def prefix_def)

lemma match_eol_eol: "eol e \<Longrightarrow> match_eol (e @ r) = Some r"
  unfolding eol_def by (elim disjE) (simp_all add: match_eol_def)

lemma match_eol_Some:
  assumes "match_eol s = Some r"
  shows "\<exists>e. eol e \<and> s = e @ r"
proof (cases s)
  case Nil
  then show ?thesis using assms by (simp add: match_eol_def)
next
  case (Cons c cs)
  show ?thesis
  proof (cases "c = CHR 0x0A")
    case True
    then have "cs = r" using assms Cons by (simp add: match_eol_def)
    then have "eol [CHR 0x0A] \<and> s = [CHR 0x0A] @ r" using Cons True by (simp add: eol_def)
    then show ?thesis by blast
  next
    case False
    then have c: "c = CHR 0x0D" using assms Cons by (simp add: match_eol_def split: if_splits)
    then have m: "(case cs of [] \<Rightarrow> None | d # ds \<Rightarrow> if d = CHR 0x0A then Some ds else None) = Some r"
      using assms Cons by (simp add: match_eol_def)
    then obtain d ds where cs: "cs = d # ds" by (cases cs) simp_all
    then have "d = CHR 0x0A \<and> ds = r" using m by (simp split: if_splits)
    then have "eol [CHR 0x0D, CHR 0x0A] \<and> s = [CHR 0x0D, CHR 0x0A] @ r"
      using Cons c cs by (simp add: eol_def)
    then show ?thesis by blast
  qed
qed

lemma match_eol_Some_iff: "match_eol s = Some r \<longleftrightarrow> (\<exists>e. eol e \<and> s = e @ r)"
  using match_eol_Some [of s r] match_eol_eol by blast

lemma match_fm_close_Some_iff:
  "match_fm_close s = Some b \<longleftrightarrow> (\<exists>e2 e3. eol e2 \<and> eol e3 \<and> s = e2 @ ''---'' @ e3 @ b)"
proof -
  have "match_fm_close s = Some b \<longleftrightarrow>
        (\<exists>s1 s2. match_eol s = Some s1 \<and> strip_prefix ''---'' s1 = Some s2 \<and> match_eol s2 = Some b)"
    by (simp add: match_fm_close_def split: option.splits)
  also have "\<dots> \<longleftrightarrow> (\<exists>e2 e3. eol e2 \<and> eol e3 \<and> s = e2 @ ''---'' @ e3 @ b)"
    unfolding match_eol_Some_iff strip_prefix_Some_iff by auto
  finally show ?thesis .
qed


lemma split_frontmatter_Some_iff:
  "split_frontmatter s \<noteq> None \<longleftrightarrow> (\<exists>fm rest b. s = fm @ rest \<and> match_fm_close rest = Some b)"
proof
  show "split_frontmatter s \<noteq> None \<Longrightarrow> \<exists>fm rest b. s = fm @ rest \<and> match_fm_close rest = Some b"
  proof (induction s)
    case Nil
    then show ?case by simp
  next
    case (Cons c cs)
    show ?case
    proof (cases "match_fm_close (c # cs)")
      case (Some b)
      then have "c # cs = [] @ (c # cs) \<and> match_fm_close (c # cs) = Some b" by simp
      then show ?thesis by blast
    next
      case None
      then have "split_frontmatter cs \<noteq> None" using Cons.prems by auto
      then obtain fm rest b where "cs = fm @ rest" "match_fm_close rest = Some b"
        using Cons.IH by blast
      then have "c # cs = (c # fm) @ rest \<and> match_fm_close rest = Some b" by simp
      then show ?thesis by blast
    qed
  qed
next
  assume "\<exists>fm rest b. s = fm @ rest \<and> match_fm_close rest = Some b"
  then obtain fm rest b where s: "s = fm @ rest" and m: "match_fm_close rest = Some b" by blast
  have "rest \<noteq> []" using m by (auto simp: match_fm_close_def match_eol_def)
  then obtain r rs where rest: "rest = r # rs" by (cases rest) auto
  have "split_frontmatter (fm @ rest) \<noteq> None"
  proof (induction fm)
    case Nil
    then show ?case using m rest by simp
  next
    case (Cons x fm)
    then show ?case by (cases "match_fm_close (x # fm @ rest)") auto
  qed
  then show "split_frontmatter s \<noteq> None" using s by simp
qed


lemma match_frontmatter_iff: "match_frontmatter content \<noteq> None \<longleftrightarrow> well_formed_frontmatter content"
proof
  assume "match_frontmatter content \<noteq> None"
  then obtain s1 s2 where s1: "strip_prefix ''---'' content = Some s1"
    and s2: "match_eol s1 = Some s2" and sp: "split_frontmatter s2 \<noteq> None"
    by (auto simp: match_frontmatter_def split: option.splits)
  from s1 have c: "content = ''---'' @ s1" by (simp only: strip_prefix_Some_iff)
  from s2 obtain e1 where e1: "eol e1" "s1 = e1 @ s2" by (auto dest: match_eol_Some)
  from sp obtain fm rest b where r: "s2 = fm @ rest" "match_fm_close rest = Some b"
    by (auto simp only: split_frontmatter_Some_iff)
  from r(2) obtain e2 e3 where e: "eol e2" "eol e3" "rest = e2 @ ''---'' @ e3 @ b"
    by (auto simp only: match_fm_close_Some_iff)
  have "content = ''---'' @ e1 @ fm @ e2 @ ''---'' @ e3 @ b"
    by (simp only: c e1(2) r(1) e(3))
  with e1(1) e(1,2) show "well_formed_frontmatter content"
    unfolding well_formed_frontmatter_def by blast
next
  assume "well_formed_frontmatter content"
  then obtain e1 fm e2 e3 body where c: "content = ''---'' @ e1 @ fm @ e2 @ ''---'' @ e3 @ body"
    and e: "eol e1" "eol e2" "eol e3"
    unfolding well_formed_frontmatter_def by blast
  define t where "t = fm @ e2 @ ''---'' @ e3 @ body"
  have 1: "strip_prefix ''---'' content = Some (e1 @ t)"
    by (simp only: strip_prefix_Some_iff c t_def)
  have 2: "match_eol (e1 @ t) = Some t"
    using e(1) by (rule match_eol_eol)
  have "match_fm_close (e2 @ ''---'' @ e3 @ body) = Some body"
    using e(2,3) by (auto simp only: match_fm_close_Some_iff)
  then have 3: "split_frontmatter t \<noteq> None"
    unfolding t_def by (auto simp only: split_frontmatter_Some_iff)
  show "match_frontmatter content \<noteq> None"
    using 3 by (simp add: match_frontmatter_def 1 2)
qed


lemma parseState_None_iff:
  "parseState e w dir = None \<longleftrightarrow>
     \<not> (\<exists>content. fs w (path_join e dir STATE_FILE) = Some (File content)
                    \<and> well_formed_frontmatter content)"
proof (cases "fs w (path_join e dir STATE_FILE)")
  case None
  then show ?thesis by (simp add: parseState_def existsSync_def Let_def)
next
  case (Some node)
  show ?thesis
  proof (cases node)
    case (File content)
    then show ?thesis
      using Some match_frontmatter_iff [of content]
      by (auto simp: parseState_def existsSync_def readFileSync_def Let_def
          split: option.splits prod.splits)
  next
    case (Dir names)
    then show ?thesis
      using Some by (simp add: parseState_def existsSync_def readFileSync_def Let_def)
  qed
qed

text \<open>
  C7. \<^const>\<open>parseState\<close> gives a record or nothing, never an exception: nothing exactly when
  the state file is missing, cannot be read as a file, or holds no well-formed frontmatter
  block. With nothing loaded the handler leaves the world as it is, logs nothing and sends
  nothing.
\<close>

theorem parseState_absent_or_record:
  "(parseState e w dir = None \<longleftrightarrow>
      \<not> (\<exists>content. fs w (path_join e dir STATE_FILE) = Some (File content)
                     \<and> well_formed_frontmatter content))
   \<and> (parseState e w dir = None \<longrightarrow>
        event_handler e et dir w event_type reply
        = \<lparr>world_after = w, logged = [], sent = [], rejected = False\<rparr>)"
  using parseState_None_iff [of e w dir] event_handler_inactive [of e w dir et event_type reply]
  by blast

theorem parseState_absent_or_record_witness:
  "fs (empty_world\<lparr>fs := [''/p/mvp-builder.local.md'' \<mapsto> File ''---\<newline>active: true\<newline>'']\<rparr>)
      (path_join demo_env ''/p'' STATE_FILE) = Some (File ''---\<newline>active: true\<newline>'')
   \<and> parseState demo_env
        (empty_world\<lparr>fs := [''/p/mvp-builder.local.md'' \<mapsto> File ''---\<newline>active: true\<newline>'']\<rparr>)
        ''/p'' = None
   \<and> \<not> well_formed_frontmatter ''---\<newline>active: true\<newline>''
   \<and> event_handler demo_env demo_error_text ''/p''
        (empty_world\<lparr>fs := [''/p/mvp-builder.local.md'' \<mapsto> File ''---\<newline>active: true\<newline>'']\<rparr>)
        ''session.idle'' (Session None)
      = \<lparr>world_after =
           empty_world\<lparr>fs := [''/p/mvp-builder.local.md'' \<mapsto> File ''---\<newline>active: true\<newline>'']\<rparr>,
         logged = [], sent = [], rejected = False\<rparr>"
proof -
  let ?w = "empty_world\<lparr>fs := [''/p/mvp-builder.local.md'' \<mapsto> File ''---\<newline>active: true\<newline>'']\<rparr>"
  have f: "fs ?w (path_join demo_env ''/p'' STATE_FILE) = Some (File ''---\<newline>active: true\<newline>'')"
    by (simp add: demo_env_def STATE_FILE_def)
  have m: "match_frontmatter ''---\<newline>active: true\<newline>'' = None"
    by (simp add: match_frontmatter_def strip_prefix_def match_eol_def match_fm_close_def)
  have p: "parseState demo_env ?w ''/p'' = None"
    using f m by (simp add: parseState_def existsSync_def readFileSync_def Let_def)
  note T = parseState_absent_or_record [of demo_env ?w "''/p''" demo_error_text
      "''session.idle''" "Session None"]
  from T p f have "\<not> well_formed_frontmatter ''---\<newline>active: true\<newline>''" by auto
  moreover from T p have "event_handler demo_env demo_error_text ''/p'' ?w ''session.idle'' (Session None)
      = \<lparr>world_after = ?w, logged = [], sent = [], rejected = False\<rparr>" by blast
  ultimately show ?thesis using f p by blast
qed

subsection \<open>Story selection\<close>

lemma hd_insort_key:
  "hd (insort_key f x ys) = (if ys = [] \<or> f x \<le> f (hd ys) then x else hd ys)"
  by (cases ys) auto

lemma sort_key_Nil_iff: "sort_key f xs = [] \<longleftrightarrow> xs = []"
  by (metis length_sort list.size(3) length_0_conv)

lemma find_min_key_Some:
  fixes f :: "'a \<Rightarrow> int"
  assumes "xs \<noteq> []"
  shows "find (\<lambda>x. f x = Min (f ` set xs)) xs = Some (hd (sort_key f xs))"
  using assms
proof (induction xs)
  case Nil
  then show ?case by simp
next
  case (Cons x xs)
  show ?case
  proof (cases "xs = []")
    case True
    then show ?thesis by simp
  next
    case False
    let ?m = "Min (f ` set xs)"
    have ih: "find (\<lambda>y. f y = ?m) xs = Some (hd (sort_key f xs))"
      using Cons.IH False by simp
    have srt: "sort_key f xs \<noteq> []"
      using False by (simp add: sort_key_Nil_iff)
    have "hd (sort_key f xs) \<in> set xs"
      using ih by (metis find_Some_iff nth_mem)
    moreover have "f (hd (sort_key f xs)) = ?m"
      using ih by (metis (mono_tags, lifting) find_Some_iff)
    ultimately have hdm: "f (hd (sort_key f xs)) = ?m" by simp
    have Min_Cons: "Min (f ` set (x # xs)) = min (f x) ?m"
      using False by (simp add: Min_insert)
    show ?thesis
    proof (cases "f x \<le> ?m")
      case True
      then have "Min (f ` set (x # xs)) = f x"
        using Min_Cons by (simp add: min_def)
      moreover have "hd (sort_key f (x # xs)) = x"
        using True hdm srt by (simp add: hd_insort_key)
      ultimately show ?thesis by simp
    next
      case gt: False
      then have m: "Min (f ` set (x # xs)) = ?m"
        using Min_Cons by (simp add: min_def)
      have "hd (sort_key f (x # xs)) = hd (sort_key f xs)"
        using gt hdm srt by (simp add: hd_insort_key)
      moreover have "f x \<noteq> ?m" using gt by simp
      ultimately show ?thesis using ih m by simp
    qed
  qed
qed

text \<open>
  C6. Story selection returns, among the stories with \<open>passes = false\<close>, the first one
  in the declared order whose priority is minimal; it reports completion exactly when
  every story passes; for the queue A (priority 2, open), B (priority 1, open),
  C (priority 1, passing) it returns B.
\<close>

theorem getNextStory_selects_minimal_first:
  "getNextStory prd = selectNext_spec (userStories prd)
   \<and> (getNextStory prd = None \<longleftrightarrow> allStoriesPassing prd)
   \<and> getNextStory \<lparr>project = [], branchName = [], description = [],
        userStories = [story ''A'' 2 False, story ''B'' 1 False, story ''C'' 1 True]\<rparr>
      = Some (story ''B'' 1 False)"
proof -
  let ?pending = "filter (\<lambda>s. \<not> passes s) (userStories prd)"
  have refine: "getNextStory prd = selectNext_spec (userStories prd)"
  proof (cases "?pending = []")
    case True
    then show ?thesis by (simp add: getNextStory_def selectNext_spec_def)
  next
    case False
    then have "sort_key priority ?pending \<noteq> []"
      by (simp add: sort_key_Nil_iff)
    then have "getNextStory prd = Some (hd (sort_key priority ?pending))"
      by (cases "sort_key priority ?pending") (simp_all add: getNextStory_def)
    then show ?thesis
      using False find_min_key_Some [of ?pending priority]
      by (simp add: selectNext_spec_def)
  qed
  have "getNextStory prd = None \<longleftrightarrow> sort_key priority ?pending = []"
    by (simp add: getNextStory_def split: list.split)
  also have "\<dots> \<longleftrightarrow> ?pending = []"
    by (rule sort_key_Nil_iff)
  also have "\<dots> \<longleftrightarrow> allStoriesPassing prd"
    by (simp add: allStoriesPassing_def list_all_iff filter_empty_conv)
  finally have complete: "getNextStory prd = None \<longleftrightarrow> allStoriesPassing prd" .
  have example: "getNextStory \<lparr>project = [], branchName = [], description = [],
        userStories = [story ''A'' 2 False, story ''B'' 1 False, story ''C'' 1 True]\<rparr>
      = Some (story ''B'' 1 False)"
    by (simp add: getNextStory_def story_def)
  from refine complete example show ?thesis by simp
qed

end
